theory Spec2Isabelle
  imports Complex_Main
begin

section \<open>Python values used by \<open>server.py\<close>\<close>

text \<open>
  The server works on Python \<open>float\<close>s (IEEE 754 binary64) and unbounded \<open>int\<close>s.
  A float is modelled by its value: a finite real, one of the two infinities, or NaN.
  Every arithmetic operation on finite values computes the exact real result and rounds it
  to the nearest binary64 number, ties to the even significand (\<open>rnd\<close> below): results in
  the normal range keep 53 significant bits, results below \<open>2^-1022\<close> are rounded to a
  multiple of \<open>2^-1074\<close> (gradual underflow, down to zero), and results that round to
  \<open>2^1024\<close> or beyond become an infinity. Decimal literals of the source denote the
  binary64 number nearest to them. The comparisons, \<open>math.isfinite\<close>, the exceptions of
  \<open>/\<close>, \<open>int()\<close>, \<open>math.tan\<close> and \<open>math.sqrt\<close>, and the propagation of infinities and
  NaN follow Python.

  Two things are identified or idealised. The two zeros \<open>+0.0\<close> and \<open>-0.0\<close> are one value
  \<open>Fin 0\<close>: they compare equal, division by either raises, and nothing in \<open>server.py\<close>
  (no \<open>copysign\<close>, \<open>atan2\<close>, formatting or division that succeeds) tells them apart.
  \<open>math.sqrt\<close> is correctly rounded, as IEEE 754 requires; \<open>math.tan\<close>, which the C
  library computes to within one unit in the last place, is taken to be correctly rounded
  as well (the program applies it to the single constant \<open>ALPHA\<close>).
\<close>

datatype pyfloat = Fin real | PInf | NInf | NaN

datatype error =
    ValueError string
  | ZeroDivisionError
  | OverflowError
  | IndexError

definition ebind :: "error + 'a \<Rightarrow> ('a \<Rightarrow> error + 'b) \<Rightarrow> error + 'b" where
  "ebind m f = (case m of Inl e \<Rightarrow> Inl e | Inr v \<Rightarrow> f v)"

subsection \<open>Rounding to binary64\<close>

text \<open>\<open>pow2 k\<close> is \<open>2^k\<close> for an integer exponent.\<close>

definition pow2 :: "int \<Rightarrow> real" where
  "pow2 k = (if 0 \<le> k then 2 ^ nat k else 1 / 2 ^ nat (- k))"

text \<open>The integer nearest to \<open>q\<close>; a tie goes to the even neighbour.\<close>

definition round_even :: "real \<Rightarrow> int" where
  "round_even q =
     (if q - of_int \<lfloor>q\<rfloor> < 1 / 2 then \<lfloor>q\<rfloor>
      else if 1 / 2 < q - of_int \<lfloor>q\<rfloor> then \<lfloor>q\<rfloor> + 1
      else if even \<lfloor>q\<rfloor> then \<lfloor>q\<rfloor> else \<lfloor>q\<rfloor> + 1)"

text \<open>The binary exponent of \<open>x\<close>: \<open>2^e \<le> |x| < 2^(e+1)\<close>, but never below the exponent
  \<open>-1022\<close> of the subnormal numbers. Numbers with this exponent are spaced \<open>ulp x\<close> apart.\<close>

definition expo :: "real \<Rightarrow> int" where
  "expo x = (if x = 0 then - 1022 else max \<lfloor>log 2 \<bar>x\<bar>\<rfloor> (- 1022))"

definition ulp :: "real \<Rightarrow> real" where
  "ulp x = pow2 (expo x - 52)"

text \<open>Round to nearest, ties to even, with unbounded exponent range above.\<close>

definition rne :: "real \<Rightarrow> real" where
  "rne x = of_int (round_even (x / ulp x)) * ulp x"

text \<open>The float result of an operation whose exact result is \<open>x\<close>: overflow to an
  infinity when the rounded value leaves the binary64 range.\<close>

definition rnd :: "real \<Rightarrow> pyfloat" where
  "rnd x =
     (let y = rne x in
      if 2 ^ 1024 \<le> y then PInf else if y \<le> - (2 ^ 1024) then NInf else Fin y)"

subsection \<open>Float operations\<close>

fun fneg :: "pyfloat \<Rightarrow> pyfloat" where
  "fneg (Fin a) = Fin (- a)"
| "fneg PInf = NInf"
| "fneg NInf = PInf"
| "fneg NaN = NaN"

fun fabs :: "pyfloat \<Rightarrow> pyfloat" where
  "fabs (Fin a) = Fin \<bar>a\<bar>"
| "fabs PInf = PInf"
| "fabs NInf = PInf"
| "fabs NaN = NaN"

fun fadd :: "pyfloat \<Rightarrow> pyfloat \<Rightarrow> pyfloat" where
  "fadd (Fin a) (Fin b) = rnd (a + b)"
| "fadd (Fin a) PInf = PInf"
| "fadd (Fin a) NInf = NInf"
| "fadd PInf (Fin b) = PInf"
| "fadd PInf PInf = PInf"
| "fadd NInf (Fin b) = NInf"
| "fadd NInf NInf = NInf"
| "fadd PInf NInf = NaN"
| "fadd NInf PInf = NaN"
| "fadd NaN y = NaN"
| "fadd x NaN = NaN"

definition fsub :: "pyfloat \<Rightarrow> pyfloat \<Rightarrow> pyfloat" where
  "fsub x y = fadd x (fneg y)"

text \<open>An infinity times (or divided by) a finite \<open>b\<close>: NaN for \<open>inf * 0\<close>, otherwise the
  infinity whose sign is the product of the signs.\<close>

definition inf_signed :: "bool \<Rightarrow> real \<Rightarrow> pyfloat" where
  "inf_signed positive b =
     (if b = 0 then NaN else if (0 < b) = positive then PInf else NInf)"

fun fmul :: "pyfloat \<Rightarrow> pyfloat \<Rightarrow> pyfloat" where
  "fmul (Fin a) (Fin b) = rnd (a * b)"
| "fmul (Fin a) PInf = inf_signed True a"
| "fmul (Fin a) NInf = inf_signed False a"
| "fmul PInf (Fin b) = inf_signed True b"
| "fmul NInf (Fin b) = inf_signed False b"
| "fmul PInf PInf = PInf"
| "fmul NInf NInf = PInf"
| "fmul PInf NInf = NInf"
| "fmul NInf PInf = NInf"
| "fmul NaN y = NaN"
| "fmul x NaN = NaN"

text \<open>Python's float division raises \<open>ZeroDivisionError\<close> whenever the divisor equals
  zero, whatever the dividend; otherwise it is the IEEE quotient.\<close>

fun fdiv :: "pyfloat \<Rightarrow> pyfloat \<Rightarrow> error + pyfloat" where
  "fdiv (Fin a) (Fin b) = (if b = 0 then Inl ZeroDivisionError else Inr (rnd (a / b)))"
| "fdiv PInf (Fin b) = (if b = 0 then Inl ZeroDivisionError else Inr (inf_signed True b))"
| "fdiv NInf (Fin b) = (if b = 0 then Inl ZeroDivisionError else Inr (inf_signed False b))"
| "fdiv NaN (Fin b) = (if b = 0 then Inl ZeroDivisionError else Inr NaN)"
| "fdiv (Fin a) PInf = Inr (Fin 0)"
| "fdiv (Fin a) NInf = Inr (Fin 0)"
| "fdiv PInf PInf = Inr NaN"
| "fdiv PInf NInf = Inr NaN"
| "fdiv NInf PInf = Inr NaN"
| "fdiv NInf NInf = Inr NaN"
| "fdiv NaN PInf = Inr NaN"
| "fdiv NaN NInf = Inr NaN"
| "fdiv x NaN = Inr NaN"

text \<open>Comparisons: every comparison with NaN is false.\<close>

fun flt :: "pyfloat \<Rightarrow> pyfloat \<Rightarrow> bool" where
  "flt (Fin a) (Fin b) = (a < b)"
| "flt (Fin a) PInf = True"
| "flt NInf (Fin b) = True"
| "flt NInf PInf = True"
| "flt x y = False"

fun feq :: "pyfloat \<Rightarrow> pyfloat \<Rightarrow> bool" where
  "feq (Fin a) (Fin b) = (a = b)"
| "feq PInf PInf = True"
| "feq NInf NInf = True"
| "feq x y = False"

definition fle :: "pyfloat \<Rightarrow> pyfloat \<Rightarrow> bool" where
  "fle x y = (flt x y \<or> feq x y)"

definition fgt :: "pyfloat \<Rightarrow> pyfloat \<Rightarrow> bool" where
  "fgt x y = flt y x"

fun isfinite :: "pyfloat \<Rightarrow> bool" where
  "isfinite (Fin a) = True"
| "isfinite x = False"

text \<open>\<open>int(x)\<close> truncates towards zero and raises on the non-finite values.\<close>

fun py_int :: "pyfloat \<Rightarrow> error + int" where
  "py_int (Fin a) = Inr (if 0 \<le> a then \<lfloor>a\<rfloor> else \<lceil>a\<rceil>)"
| "py_int NaN = Inl (ValueError ''cannot convert float NaN to integer'')"
| "py_int x = Inl OverflowError"

text \<open>\<open>math.tan\<close> and \<open>math.sqrt\<close> raise \<open>ValueError\<close> outside their domain.\<close>

fun math_tan :: "pyfloat \<Rightarrow> error + pyfloat" where
  "math_tan (Fin a) = Inr (rnd (tan a))"
| "math_tan NaN = Inr NaN"
| "math_tan x = Inl (ValueError ''math domain error'')"

fun math_sqrt :: "pyfloat \<Rightarrow> error + pyfloat" where
  "math_sqrt (Fin a) = (if a < 0 then Inl (ValueError ''math domain error'') else Inr (rnd (sqrt a)))"
| "math_sqrt PInf = Inr PInf"
| "math_sqrt NInf = Inl (ValueError ''math domain error'')"
| "math_sqrt NaN = Inr NaN"

text \<open>An \<open>int\<close> operand of a float operation is converted to the nearest float. The
  operands converted in \<open>server.py\<close> are the literals 0, 2, 10, 37 and list lengths; a
  list length is below \<open>2^63\<close>, far from the range where the conversion raises.\<close>

definition float_of_nat :: "nat \<Rightarrow> pyfloat" where
  "float_of_nat n = rnd (real n)"

text \<open>\<open>sum(xs)\<close> starts from the integer \<open>0\<close> and adds the floats from the left, rounding
  after each addition (the plain summation of CPython up to 3.11).\<close>

definition py_sum :: "pyfloat list \<Rightarrow> pyfloat" where
  "py_sum xs = foldl fadd (Fin 0) xs"

text \<open>\<open>xs[i]\<close> for a Python \<open>int\<close> index: negative indices count from the end, and an
  index out of range raises \<open>IndexError\<close>.\<close>

definition getitem :: "'a list \<Rightarrow> int \<Rightarrow> error + 'a" where
  "getitem xs i =
     (if 0 \<le> i \<and> i < int (length xs) then Inr (xs ! nat i)
      else if i < 0 \<and> - int (length xs) \<le> i then Inr (xs ! nat (int (length xs) + i))
      else Inl IndexError)"

section \<open>Constants\<close>

definition ROULETTE_SEQUENCE :: "int list" where
  "ROULETTE_SEQUENCE =
     [0, 32, 15, 19, 4, 21, 2, 25, 17, 34, 6, 27, 13,
      36, 11, 30, 8, 23, 10, 5, 24, 16, 33, 1, 20,
      14, 31, 9, 22, 18, 29, 7, 28, 12, 35, 3, 26]"

definition G :: pyfloat where
  "G = rnd (981 / 100)"

definition ALPHA :: pyfloat where
  "ALPHA = rnd (2 / 100)"

text \<open>\<open>math.pi\<close> is the binary64 number nearest to \<open>\<pi>\<close>, \<open>884279719003555 / 2^48\<close>, which is
  also the number nearest to the 21-digit decimal the C sources spell it with.\<close>

definition math_pi :: pyfloat where
  "math_pi = rnd (314159265358979323846 / 10 ^ 20)"

section \<open>Data models\<close>

record MarksRequest =
  wheel_times :: "pyfloat list"
  ball_times :: "pyfloat list"
  wheel_marks :: int
  ball_marks :: int
  mode :: string

record MarksResponse =
  left_prediction :: int
  right_prediction :: int

section \<open>Core physics helpers\<close>

text \<open>\<open>calculate_angular_velocity\<close> (lines 49-55). The comprehension runs over
  \<open>range(1, len(times))\<close>, so every index it reads is in range.\<close>

definition periods_of :: "pyfloat list \<Rightarrow> pyfloat list" where
  "periods_of tms = map (\<lambda>i. fsub (tms ! i) (tms ! (i - 1))) [1..<length tms]"

definition calculate_angular_velocity :: "pyfloat list \<Rightarrow> error + pyfloat" where
  "calculate_angular_velocity tms =
     (if length tms < 2 then Inr (Fin 0)
      else
        let periods = periods_of tms in
        ebind (fdiv (py_sum periods) (float_of_nat (length periods))) (\<lambda>avg_period.
          if fgt avg_period (Fin 0) then fdiv (Fin 1) avg_period else Inr (Fin 0)))"

text \<open>The sample loop of \<open>calculate_deceleration\<close> (lines 66-71) over the indices still to
  visit, with the two lists it appends to.\<close>

fun sample_loop ::
  "pyfloat list \<Rightarrow> nat list \<Rightarrow> pyfloat list \<Rightarrow> pyfloat list \<Rightarrow> error + (pyfloat list \<times> pyfloat list)"
where
  "sample_loop tms [] velocities time_points = Inr (velocities, time_points)"
| "sample_loop tms (i # rest) velocities time_points =
     (let dt = fsub (tms ! i) (tms ! (i - 1)) in
      if fle dt (Fin 0) then sample_loop tms rest velocities time_points
      else
        ebind (fdiv (fmul (Fin 2) math_pi) dt) (\<lambda>v.
        ebind (fdiv (fadd (tms ! i) (tms ! (i - 1))) (Fin 2)) (\<lambda>m.
          sample_loop tms rest (velocities @ [v]) (time_points @ [m]))))"

definition calculate_deceleration :: "pyfloat list \<Rightarrow> error + pyfloat" where
  "calculate_deceleration tms =
     (if length tms < 3 then Inr (Fin 0)
      else
        ebind (sample_loop tms [1..<length tms] [] []) (\<lambda>(velocities, time_points).
          if length velocities < 2 then Inr (Fin 0)
          else
            let n = float_of_nat (length velocities);
                sum_x = py_sum time_points;
                sum_y = py_sum velocities;
                sum_xy = py_sum (map (\<lambda>(x, v). fmul x v) (zip time_points velocities));
                sum_x2 = py_sum (map (\<lambda>x. fmul x x) time_points);
                denom = fsub (fmul n sum_x2) (fmul sum_x sum_x)
            in
              if feq denom (Fin 0) then Inr (Fin 0)
              else
                ebind (fdiv (fsub (fmul n sum_xy) (fmul sum_x sum_y)) denom) (\<lambda>slope.
                  Inr (fneg slope))))"

section \<open>\<open>predict_for_direction\<close>\<close>

text \<open>The body of \<open>predict_for_direction\<close> (lines 91-138) is one straight-line block.
  It is split here at its blank lines, each part named after the local variables it
  assigns, so that statements about intermediate values can be made.\<close>

record estimates =
  wheel_omega :: pyfloat
  ball_omega :: pyfloat
  wheel_alpha :: pyfloat
  ball_alpha :: pyfloat

text \<open>Lines 93-96.\<close>

definition raw_estimates :: "pyfloat list \<Rightarrow> pyfloat list \<Rightarrow> error + estimates" where
  "raw_estimates wts bts =
     ebind (calculate_angular_velocity wts) (\<lambda>wv.
     ebind (calculate_angular_velocity bts) (\<lambda>bv.
     ebind (calculate_deceleration wts) (\<lambda>wa.
     ebind (calculate_deceleration bts) (\<lambda>ba.
       Inr \<lparr>wheel_omega = fmul (fmul (Fin 2) math_pi) wv,
            ball_omega = fmul (fmul (Fin 2) math_pi) bv,
            wheel_alpha = wa,
            ball_alpha = ba\<rparr>))))"

text \<open>Lines 98-105.\<close>

definition apply_defaults :: "estimates \<Rightarrow> estimates" where
  "apply_defaults e =
     (let e1 = (if fle (wheel_alpha e) (Fin 0) then e\<lparr>wheel_alpha := rnd (1 / 10)\<rparr> else e);
          e2 = (if fle (ball_alpha e1) (Fin 0) then e1\<lparr>ball_alpha := rnd (1 / 10)\<rparr> else e1);
          e3 = (if fle (wheel_omega e2) (Fin 0) then e2\<lparr>wheel_omega := Fin 1\<rparr> else e2);
          e4 = (if fle (ball_omega e3) (Fin 0) then e3\<lparr>ball_omega := Fin 2\<rparr> else e3)
      in e4)"

text \<open>Line 107.\<close>

definition critical_velocity_squared :: "error + pyfloat" where
  "critical_velocity_squared =
     ebind (math_tan ALPHA) (\<lambda>t. Inr (fmul (fmul G t) (Fin (1 / 2))))"

text \<open>Lines 109-117, for the estimates after the defaults.\<close>

definition t_drop :: "estimates \<Rightarrow> error + pyfloat" where
  "t_drop e =
     ebind critical_velocity_squared (\<lambda>cvs.
     ebind (if fgt (ball_alpha e) (Fin 0)
            then ebind (math_sqrt cvs) (\<lambda>s.
                   if fgt (ball_omega e) s
                   then ebind (math_sqrt cvs) (\<lambda>s'. fdiv (fsub (ball_omega e) s') (ball_alpha e))
                   else Inr (Fin 3))
            else Inr (Fin 3)) (\<lambda>t0.
       let t1 = (if flt t0 (Fin 0) then Fin 3 else t0);
           t2 = (if fgt t1 (Fin 10) then Fin 5 else t1)
       in Inr t2))"

text \<open>Lines 119-120: \<open>omega * t_drop - 0.5 * alpha * t_drop * t_drop\<close>, with Python's
  left-to-right grouping of the products.\<close>

definition travel :: "pyfloat \<Rightarrow> pyfloat \<Rightarrow> pyfloat \<Rightarrow> pyfloat" where
  "travel omega alpha t = fsub (fmul omega t) (fmul (fmul (fmul (Fin (1 / 2)) alpha) t) t)"

text \<open>Lines 119 and 122-123.\<close>

definition theta_ball :: "estimates \<Rightarrow> pyfloat \<Rightarrow> pyfloat" where
  "theta_ball e t =
     (let th = travel (ball_omega e) (ball_alpha e) t
      in if \<not> isfinite th then fmul (fmul (Fin 2) math_pi) (Fin 3) else th)"

text \<open>Lines 120 and 124-125.\<close>

definition theta_wheel :: "estimates \<Rightarrow> pyfloat \<Rightarrow> pyfloat" where
  "theta_wheel e t =
     (let th = travel (wheel_omega e) (wheel_alpha e) t
      in if \<not> isfinite th then fmul (fmul (Fin 2) math_pi) (Fin 2) else th)"

text \<open>Lines 127-132: the relative angle and the direction offset.\<close>

definition relative_angle :: "string \<Rightarrow> pyfloat \<Rightarrow> pyfloat \<Rightarrow> error + pyfloat" where
  "relative_angle wheel_direction thb thw =
     (if wheel_direction = ''left''
      then fdiv (fadd thb thw) (fmul (Fin 2) math_pi)
      else fdiv (fsub thb thw) (fmul (Fin 2) math_pi))"

definition direction_offset :: "string \<Rightarrow> int" where
  "direction_offset wheel_direction = (if wheel_direction = ''left'' then 12 else 0)"

text \<open>Lines 134-136. Python's \<open>%\<close> with a positive modulus is \<open>mod\<close> on \<open>int\<close>.\<close>

definition scatter_offset :: int where
  "scatter_offset = 5"

definition final_pocket_index :: "pyfloat \<Rightarrow> int \<Rightarrow> error + int" where
  "final_pocket_index rel doff =
     ebind (py_int (fmul (fabs rel) (Fin 37))) (\<lambda>k.
       let pocket_offset = k mod 37
       in Inr ((pocket_offset + scatter_offset + doff) mod 37))"

definition predict_for_direction :: "pyfloat list \<Rightarrow> pyfloat list \<Rightarrow> string \<Rightarrow> error + int" where
  "predict_for_direction wts bts wheel_direction =
     ebind (raw_estimates wts bts) (\<lambda>e0.
       let e = apply_defaults e0 in
       ebind (t_drop e) (\<lambda>t.
       ebind (relative_angle wheel_direction (theta_ball e t) (theta_wheel e t)) (\<lambda>rel.
       ebind (final_pocket_index rel (direction_offset wheel_direction)) (\<lambda>idx.
         getitem ROULETTE_SEQUENCE idx))))"

section \<open>\<open>compute_predictions\<close>\<close>

definition not_enough_marks :: error where
  "not_enough_marks = ValueError ''Not enough marks to compute prediction''"

definition compute_predictions :: "MarksRequest \<Rightarrow> error + MarksResponse" where
  "compute_predictions req =
     (if length (wheel_times req) < 2 \<or> length (ball_times req) < 2
      then Inl not_enough_marks
      else
        ebind (predict_for_direction (wheel_times req) (ball_times req) ''left'') (\<lambda>left.
        ebind (predict_for_direction (wheel_times req) (ball_times req) ''right'') (\<lambda>right.
          Inr \<lparr>left_prediction = left, right_prediction = right\<rparr>)))"

section \<open>Auxiliary definitions for the statements\<close>

text \<open>\<open>x\<close> is a binary64 number: rounding leaves it unchanged.\<close>

definition representable :: "real \<Rightarrow> bool" where
  "representable x = (rnd x = Fin x)"

text \<open>A finite float between two bounds.\<close>

definition fbetween :: "real \<Rightarrow> real \<Rightarrow> pyfloat \<Rightarrow> bool" where
  "fbetween lo hi x = (case x of Fin r \<Rightarrow> lo \<le> r \<and> r \<le> hi | _ \<Rightarrow> False)"

text \<open>The real values of the floats \<open>G\<close>, \<open>ALPHA\<close> and \<open>math.tan(ALPHA)\<close>, of the constant
  \<open>critical_velocity_squared\<close>, \<open>9.81 * tan(0.02) * 0.5\<close> in float arithmetic, and of its
  square root.\<close>

definition G_value :: real where
  "G_value = rne (981 / 100)"

definition ALPHA_value :: real where
  "ALPHA_value = rne (2 / 100)"

definition tan_ALPHA :: real where
  "tan_ALPHA = rne (tan ALPHA_value)"

definition cvs :: real where
  "cvs = rne (rne (G_value * tan_ALPHA) * (1 / 2))"

definition vc :: real where
  "vc = rne (sqrt cvs)"

text \<open>The two clamps of lines 114-117.\<close>

definition clamp_t :: "pyfloat \<Rightarrow> pyfloat" where
  "clamp_t t0 =
     (let t1 = (if flt t0 (Fin 0) then Fin 3 else t0)
      in if fgt t1 (Fin 10) then Fin 5 else t1)"

text \<open>The two travel angles that \<open>predict_for_direction\<close> has computed when it reaches
  line 127: its lines 93-125.\<close>

definition angles :: "pyfloat list \<Rightarrow> pyfloat list \<Rightarrow> error + (pyfloat \<times> pyfloat)" where
  "angles wts bts =
     ebind (raw_estimates wts bts) (\<lambda>e0.
       let e = apply_defaults e0 in
       ebind (t_drop e) (\<lambda>t. Inr (theta_ball e t, theta_wheel e t)))"

text \<open>Requests used as worked inputs.\<close>

definition example_request :: MarksRequest where
  "example_request =
     \<lparr>wheel_times = [Fin 0, Fin 1], ball_times = [Fin 0, Fin (1 / 2)],
      wheel_marks = 2, ball_marks = 2, mode = ''3x3''\<rparr>"

definition tiny_period_request :: MarksRequest where
  "tiny_period_request =
     \<lparr>wheel_times = [Fin 0, Fin 1], ball_times = [Fin 0, Fin (1 / 2 ^ 1018)],
      wheel_marks = 2, ball_marks = 2, mode = ''3x3''\<rparr>"

text \<open>The drop time as the specification words it (steps 4 and 5): the quotient when
  \<open>ball \<omega> > sqrt(v_c^2)\<close>, 3.0 otherwise; then negative becomes 3.0 and greater than 10
  becomes 5.0.\<close>

definition t_drop_spec :: "estimates \<Rightarrow> error + pyfloat" where
  "t_drop_spec e =
     ebind critical_velocity_squared (\<lambda>vc2.
     ebind (math_sqrt vc2) (\<lambda>s.
     ebind (if fgt (ball_omega e) s then fdiv (fsub (ball_omega e) s) (ball_alpha e)
            else Inr (Fin 3)) (\<lambda>t.
       Inr (if fgt (if flt t (Fin 0) then Fin 3 else t) (Fin 10) then Fin 5
            else if flt t (Fin 0) then Fin 3 else t))))"

text \<open>The average of the successive differences of a timestamp list, worded after the
  specification: the differences of consecutive timestamps, summed and divided by their
  number.\<close>

definition average_period :: "pyfloat list \<Rightarrow> error + pyfloat" where
  "average_period tms =
     fdiv (py_sum (map (\<lambda>(earlier, later). fsub later earlier) (zip tms (tl tms))))
          (float_of_nat (length tms - 1))"

text \<open>\<open>n\<close> uniformly spaced timestamps \<open>t0, t0 + p, t0 + 2 p, ...\<close>.\<close>

definition uniform_times :: "real \<Rightarrow> real \<Rightarrow> nat \<Rightarrow> pyfloat list" where
  "uniform_times t0 p n = map (\<lambda>k. Fin (t0 + real k * p)) [0..<n]"

text \<open>Pocket selection as the specification words it, for the float relative angle:
  \<open>pocket_offset = floor(|relative| * 37) mod 37\<close>, plus the scatter offset 5 and the
  direction offset, \<open>mod 37\<close>, as an index into the pocket sequence. The product
  \<open>|relative| * 37\<close> is a float; \<open>int()\<close> raises when it is not finite.\<close>

definition pocket_result :: "pyfloat \<Rightarrow> int \<Rightarrow> error + int" where
  "pocket_result relative doff =
     (case fmul (fabs relative) (Fin 37) of
        Fin product \<Rightarrow> Inr (ROULETTE_SEQUENCE ! nat ((\<lfloor>product\<rfloor> mod 37 + 5 + doff) mod 37))
      | NaN \<Rightarrow> Inl (ValueError ''cannot convert float NaN to integer'')
      | other \<Rightarrow> Inl OverflowError)"

text \<open>The samples of the deceleration estimate as the specification words them: one
  sample per consecutive pair of timestamps with positive gap \<open>dt\<close>, the midpoint time of
  the pair with the velocity \<open>2\<pi> / dt\<close>.\<close>

fun gap_samples :: "pyfloat list \<Rightarrow> error + (pyfloat \<times> pyfloat) list" where
  "gap_samples (earlier # later # rest) =
     (let dt = fsub later earlier in
      if fgt dt (Fin 0)
      then ebind (fdiv (fmul (Fin 2) math_pi) dt) (\<lambda>velocity.
           ebind (fdiv (fadd later earlier) (Fin 2)) (\<lambda>midpoint.
           ebind (gap_samples (later # rest)) (\<lambda>samples.
             Inr ((midpoint, velocity) # samples))))
      else gap_samples (later # rest))"
| "gap_samples tms = Inr []"

text \<open>The same with the test the code makes: a pair is dropped when \<open>dt <= 0\<close>, so it is
  kept when the gap is positive and also when the gap is NaN.\<close>

fun kept_samples :: "pyfloat list \<Rightarrow> error + (pyfloat \<times> pyfloat) list" where
  "kept_samples (earlier # later # rest) =
     (let dt = fsub later earlier in
      if fle dt (Fin 0) then kept_samples (later # rest)
      else ebind (fdiv (fmul (Fin 2) math_pi) dt) (\<lambda>velocity.
           ebind (fdiv (fadd later earlier) (Fin 2)) (\<lambda>midpoint.
           ebind (kept_samples (later # rest)) (\<lambda>samples.
             Inr ((midpoint, velocity) # samples)))))"
| "kept_samples tms = Inr []"

text \<open>The regression denominator \<open>n \<Sigma>x\<^sup>2 - (\<Sigma>x)\<^sup>2\<close> and the slope
  \<open>(n \<Sigma>xy - \<Sigma>x \<Sigma>y) / (n \<Sigma>x\<^sup>2 - (\<Sigma>x)\<^sup>2)\<close> of the least-squares line through samples
  \<open>(x, y)\<close>, in float arithmetic.\<close>

definition regression_denominator :: "(pyfloat \<times> pyfloat) list \<Rightarrow> pyfloat" where
  "regression_denominator samples =
     fsub (fmul (float_of_nat (length samples)) (py_sum (map (\<lambda>(x, y). fmul x x) samples)))
          (fmul (py_sum (map fst samples)) (py_sum (map fst samples)))"

definition least_squares_slope :: "(pyfloat \<times> pyfloat) list \<Rightarrow> error + pyfloat" where
  "least_squares_slope samples =
     fdiv (fsub (fmul (float_of_nat (length samples)) (py_sum (map (\<lambda>(x, y). fmul x y) samples)))
                (fmul (py_sum (map fst samples)) (py_sum (map snd samples))))
          (regression_denominator samples)"

text \<open>The same line over the reals: its slope and intercept, and the sum of squared
  residuals that an ordinary least-squares fit minimises.\<close>

definition slope_formula :: "(real \<times> real) list \<Rightarrow> real" where
  "slope_formula pts =
     (real (length pts) * (\<Sum>(x, y)\<leftarrow>pts. x * y) - (\<Sum>(x, y)\<leftarrow>pts. x) * (\<Sum>(x, y)\<leftarrow>pts. y))
     / (real (length pts) * (\<Sum>(x, y)\<leftarrow>pts. x * x) - (\<Sum>(x, y)\<leftarrow>pts. x) * (\<Sum>(x, y)\<leftarrow>pts. x))"

definition intercept_formula :: "(real \<times> real) list \<Rightarrow> real" where
  "intercept_formula pts =
     ((\<Sum>(x, y)\<leftarrow>pts. y) - slope_formula pts * (\<Sum>(x, y)\<leftarrow>pts. x)) / real (length pts)"

definition squared_error :: "real \<Rightarrow> real \<Rightarrow> (real \<times> real) list \<Rightarrow> real" where
  "squared_error a b pts = (\<Sum>(x, y)\<leftarrow>pts. (y - (a + b * x)) * (y - (a + b * x)))"

text \<open>When the float computation of the fit is the real one: every product, partial sum
  and later intermediate result is a binary64 number, so that no operation rounds.\<close>

fun partial_sums_exact :: "real \<Rightarrow> real list \<Rightarrow> bool" where
  "partial_sums_exact acc [] = True"
| "partial_sums_exact acc (x # xs) = (representable (acc + x) \<and> partial_sums_exact (acc + x) xs)"

definition fit_exact :: "(real \<times> real) list \<Rightarrow> bool" where
  "fit_exact pts =
     (let n = real (length pts);
          sx = (\<Sum>(x, y)\<leftarrow>pts. x); sy = (\<Sum>(x, y)\<leftarrow>pts. y);
          sxy = (\<Sum>(x, y)\<leftarrow>pts. x * y); sxx = (\<Sum>(x, y)\<leftarrow>pts. x * x)
      in list_all (\<lambda>(x, y). representable (x * y) \<and> representable (x * x)) pts \<and>
         partial_sums_exact 0 (map fst pts) \<and>
         partial_sums_exact 0 (map snd pts) \<and>
         partial_sums_exact 0 (map (\<lambda>(x, y). x * y) pts) \<and>
         partial_sums_exact 0 (map (\<lambda>(x, y). x * x) pts) \<and>
         representable n \<and>
         representable (n * sxy) \<and> representable (sx * sy) \<and> representable (n * sxy - sx * sy) \<and>
         representable (n * sxx) \<and> representable (sx * sx) \<and> representable (n * sxx - sx * sx) \<and>
         representable (slope_formula pts))"

section \<open>Properties of the rounding\<close>

lemma pow2_powr: "pow2 k = 2 powr (of_int k)"
  by (simp add: pow2_def powr_int)

lemma pow2_pos [simp]: "0 < pow2 k"
  by (simp add: pow2_powr)

lemma pow2_add: "pow2 (a + b) = pow2 a * pow2 b"
  by (simp add: pow2_powr powr_add)

lemma pow2_diff: "pow2 (a - b) = pow2 a / pow2 b"
  by (simp add: pow2_powr powr_diff)

lemma pow2_le_iff [simp]: "pow2 a \<le> pow2 b \<longleftrightarrow> a \<le> b"
  by (simp add: pow2_powr)

lemma pow2_less_iff [simp]: "pow2 a < pow2 b \<longleftrightarrow> a < b"
  by (simp add: pow2_powr)

lemma pow2_0 [simp]: "pow2 0 = 1"
  by (simp add: pow2_def)

lemma pow2_nat: "0 \<le> k \<Longrightarrow> pow2 k = of_int (2 ^ nat k)"
  by (simp add: pow2_def)

lemma abs_pow2 [simp]: "\<bar>pow2 k\<bar> = pow2 k"
  using pow2_pos [of k] by linarith

lemma pow2_shift: "pow2 (int n + k) = 2 ^ n * pow2 k"
proof -
  have "pow2 (int n) = 2 ^ n"
    by (simp add: pow2_def)
  then show ?thesis
    by (simp only: pow2_add)
qed

lemma round_even_of_int [simp]: "round_even (of_int m) = m"
  by (simp add: round_even_def)

lemma round_even_bounds: "\<bar>of_int (round_even q) - q\<bar> \<le> 1 / 2"
  unfolding round_even_def by (auto simp: abs_le_iff; linarith)

lemma round_even_range: "\<lfloor>q\<rfloor> \<le> round_even q" "round_even q \<le> \<lfloor>q\<rfloor> + 1"
  by (auto simp: round_even_def)

lemma round_even_mono: "q \<le> r \<Longrightarrow> round_even q \<le> round_even r"
proof -
  assume qr: "q \<le> r"
  then have f: "\<lfloor>q\<rfloor> \<le> \<lfloor>r\<rfloor>"
    by (rule floor_mono)
  show ?thesis
  proof (cases "\<lfloor>q\<rfloor> = \<lfloor>r\<rfloor>")
    case True
    then show ?thesis
      using qr by (auto simp: round_even_def)
  next
    case False
    then have "\<lfloor>q\<rfloor> + 1 \<le> \<lfloor>r\<rfloor>"
      using f by simp
    then show ?thesis
      using round_even_range(2) [of q] round_even_range(1) [of r] by linarith
  qed
qed

lemma round_even_unique: "\<bar>q - of_int m\<bar> < 1 / 2 \<Longrightarrow> round_even q = m"
proof -
  assume a: "\<bar>q - of_int m\<bar> < 1 / 2"
  have "\<bar>of_int (round_even q) - q\<bar> \<le> 1 / 2"
    by (rule round_even_bounds)
  with a have "\<bar>real_of_int (round_even q) - of_int m\<bar> < 1"
    by linarith
  then have "\<bar>real_of_int (round_even q - m)\<bar> < 1"
    by simp
  then have "\<bar>round_even q - m\<bar> < 1"
    by linarith
  then show ?thesis
    by simp
qed

lemma round_even_tie:
  assumes "q = of_int f + 1 / 2"
  shows "round_even q = (if even f then f else f + 1)"
proof -
  have "\<lfloor>q\<rfloor> = f"
    unfolding assms by (rule floor_unique) simp_all
  then show ?thesis
    by (simp add: round_even_def assms)
qed

lemma round_even_minus: "round_even (- q) = - round_even q"
proof (cases "q = of_int \<lfloor>q\<rfloor>")
  case True
  then obtain m where "q = of_int m"
    by blast
  then show ?thesis
    by (simp flip: of_int_minus)
next
  case False
  then have fl: "\<lfloor>- q\<rfloor> = - \<lfloor>q\<rfloor> - 1"
    by (metis ceiling_altdef ceiling_def add_diff_cancel_right' minus_diff_eq diff_minus_eq_add Ints_of_int of_int_floor_cancel floor_minus uminus_add_conv_diff)
  show ?thesis
    unfolding round_even_def fl by (auto; linarith?)
qed

lemma expo_minus [simp]: "expo (- x) = expo x"
  by (simp add: expo_def)

lemma expo_abs [simp]: "expo \<bar>x\<bar> = expo x"
  by (simp add: expo_def)

lemma expo_ge [simp]: "- 1022 \<le> expo x"
  by (simp add: expo_def)

lemma floor_log2_eq: "0 < a \<Longrightarrow> \<lfloor>log 2 a\<rfloor> = e \<longleftrightarrow> pow2 e \<le> a \<and> a < pow2 (e + 1)"
  by (simp add: floor_log_eq_powr_iff pow2_powr)

lemma expo_eqI:
  assumes "pow2 e \<le> \<bar>x\<bar>" "\<bar>x\<bar> < pow2 (e + 1)" "- 1022 \<le> e"
  shows "expo x = e"
proof -
  have "0 < \<bar>x\<bar>"
    using assms(1) pow2_pos [of e] by linarith
  then have "\<lfloor>log 2 \<bar>x\<bar>\<rfloor> = e"
    using assms by (simp add: floor_log2_eq)
  then show ?thesis
    using assms(3) \<open>0 < \<bar>x\<bar>\<close> by (simp add: expo_def)
qed

lemma expo_subnormal:
  assumes "\<bar>x\<bar> < pow2 (- 1022)"
  shows "expo x = - 1022"
proof (cases "x = 0")
  case True
  then show ?thesis
    by (simp add: expo_def)
next
  case False
  then have p: "0 < \<bar>x\<bar>"
    by simp
  define e where "e = \<lfloor>log 2 \<bar>x\<bar>\<rfloor>"
  have "pow2 e \<le> \<bar>x\<bar>"
    using floor_log2_eq [OF p, of e] by (simp add: e_def)
  then have "pow2 e < pow2 (- 1022)"
    using assms by linarith
  then have "e < - 1022"
    by simp
  then show ?thesis
    using False by (simp add: expo_def e_def)
qed

lemma expo_cases:
  obtains "\<bar>x\<bar> < pow2 (- 1022)" "expo x = - 1022"
  | "pow2 (expo x) \<le> \<bar>x\<bar>" "\<bar>x\<bar> < pow2 (expo x + 1)"
proof (cases "\<bar>x\<bar> < pow2 (- 1022)")
  case True
  then show ?thesis
    using that(1) expo_subnormal by blast
next
  case False
  then have nz: "x \<noteq> 0" and p: "0 < \<bar>x\<bar>"
    using pow2_pos [of "- 1022"] by auto
  define e where "e = \<lfloor>log 2 \<bar>x\<bar>\<rfloor>"
  have b: "pow2 e \<le> \<bar>x\<bar>" "\<bar>x\<bar> < pow2 (e + 1)"
    using floor_log2_eq [OF p, of e] by (simp_all add: e_def)
  have "pow2 (- 1022) < pow2 (e + 1)"
    using False b(2) by linarith
  then have "- 1022 \<le> e"
    by simp
  then have "expo x = e"
    using nz by (simp add: expo_def e_def)
  then show ?thesis
    using that(2) b by simp
qed

lemma expo_upper: "\<bar>x\<bar> < pow2 (expo x + 1)"
proof (rule expo_cases [of x])
  assume a: "\<bar>x\<bar> < pow2 (- 1022)" "expo x = - 1022"
  have "pow2 (- 1022) \<le> pow2 (expo x + 1)"
    unfolding a(2) by simp
  with a(1) show ?thesis
    by linarith
qed

lemma expo_mono:
  assumes "\<bar>x\<bar> \<le> \<bar>y\<bar>"
  shows "expo x \<le> expo y"
proof (rule expo_cases [of x])
  assume "expo x = - 1022"
  then show ?thesis
    by simp
next
  assume "pow2 (expo x) \<le> \<bar>x\<bar>"
  then have "pow2 (expo x) < pow2 (expo y + 1)"
    using assms expo_upper [of y] by linarith
  then show ?thesis
    by simp
qed

lemma ulp_pos [simp]: "0 < ulp x"
  by (simp add: ulp_def)

lemma ulp_nonneg [simp]: "0 \<le> ulp x"
  using ulp_pos [of x] by linarith

lemma round_even_0 [simp]: "round_even 0 = 0"
  using round_even_of_int [of 0] by simp

lemma of_int_round_even_le: "real_of_int m \<le> q \<Longrightarrow> real_of_int m \<le> of_int (round_even q)"
  using round_even_mono [of "of_int m" q] by simp

lemma of_int_round_even_ge: "q \<le> real_of_int m \<Longrightarrow> of_int (round_even q) \<le> real_of_int m"
  using round_even_mono [of q "of_int m"] by simp

lemma ulp_minus [simp]: "ulp (- x) = ulp x"
  by (simp add: ulp_def)

lemma rne_minus: "rne (- x) = - rne x"
  by (simp add: rne_def round_even_minus)

lemma rne_0 [simp]: "rne 0 = 0"
  by (simp add: rne_def)

lemma rne_nonneg: "0 \<le> x \<Longrightarrow> 0 \<le> rne x"
proof -
  assume "0 \<le> x"
  then have "real_of_int 0 \<le> x / ulp x"
    by simp
  then have "real_of_int 0 \<le> of_int (round_even (x / ulp x))"
    by (rule of_int_round_even_le)
  then show ?thesis
    by (simp add: rne_def)
qed

text \<open>Within the binade of \<open>x\<close> the rounded value stays between the two binade ends.\<close>

lemma rne_upper: "0 \<le> x \<Longrightarrow> rne x \<le> pow2 (expo x + 1)"
proof -
  assume "0 \<le> x"
  then have "x < pow2 (expo x + 1)"
    using expo_upper [of x] by simp
  also have e: "pow2 (expo x + 1) = 2 ^ 53 * ulp x"
    using pow2_shift [of 53 "expo x - 52"] by (simp add: ulp_def add.commute)
  finally have "x / ulp x \<le> of_int (2 ^ 53)"
    by (simp add: pos_divide_le_eq)
  then have "real_of_int (round_even (x / ulp x)) \<le> of_int (2 ^ 53)"
    by (rule of_int_round_even_ge)
  then have "real_of_int (round_even (x / ulp x)) \<le> 2 ^ 53"
    by simp
  then have "rne x \<le> 2 ^ 53 * ulp x"
    unfolding rne_def by (intro mult_right_mono) simp_all
  then show ?thesis
    by (simp only: e)
qed

lemma rne_lower: "pow2 (expo x) \<le> x \<Longrightarrow> pow2 (expo x) \<le> rne x"
proof -
  assume a: "pow2 (expo x) \<le> x"
  have e: "pow2 (expo x) = 2 ^ 52 * ulp x"
    using pow2_shift [of 52 "expo x - 52"] by (simp add: ulp_def)
  have "of_int (2 ^ 52) \<le> x / ulp x"
    using a unfolding e by (simp add: pos_le_divide_eq)
  then have "real_of_int (2 ^ 52) \<le> of_int (round_even (x / ulp x))"
    by (rule of_int_round_even_le)
  then have "2 ^ 52 \<le> real_of_int (round_even (x / ulp x))"
    by simp
  then have "2 ^ 52 * ulp x \<le> rne x"
    unfolding rne_def by (intro mult_right_mono) simp_all
  then show ?thesis
    by (simp only: e)
qed

lemma rne_mono_pos:
  assumes "0 \<le> x" "x \<le> y"
  shows "rne x \<le> rne y"
proof (cases "expo x = expo y")
  case True
  then have u: "ulp x = ulp y"
    by (simp add: ulp_def)
  have "x / ulp y \<le> y / ulp y"
    using assms(2) by (intro divide_right_mono) simp_all
  then have "round_even (x / ulp y) \<le> round_even (y / ulp y)"
    by (rule round_even_mono)
  then show ?thesis
    unfolding rne_def u by (intro mult_right_mono) simp_all
next
  case False
  have "expo x \<le> expo y"
    using assms by (intro expo_mono) simp
  with False have lt: "expo x + 1 \<le> expo y"
    by simp
  then have "- 1022 < expo y"
    using expo_ge [of x] by linarith
  then have "pow2 (expo y) \<le> \<bar>y\<bar>"
    by (rule_tac expo_cases [of y]) simp_all
  then have "pow2 (expo y) \<le> y"
    using assms by simp
  then have "pow2 (expo y) \<le> rne y"
    by (rule rne_lower)
  moreover have "rne x \<le> pow2 (expo x + 1)"
    using assms(1) by (rule rne_upper)
  moreover have "pow2 (expo x + 1) \<le> pow2 (expo y)"
    using lt by simp
  ultimately show ?thesis
    by linarith
qed

lemma rne_mono: "x \<le> y \<Longrightarrow> rne x \<le> rne y"
proof -
  assume xy: "x \<le> y"
  consider "0 \<le> x" | "x < 0" "0 \<le> y" | "y < 0"
    using xy by linarith
  then show ?thesis
  proof cases
    case 1
    then show ?thesis
      using xy by (rule rne_mono_pos)
  next
    case 2
    have "0 \<le> rne (- x)" "0 \<le> rne y"
      using 2 by (simp_all add: rne_nonneg)
    then show ?thesis
      by (simp add: rne_minus)
  next
    case 3
    have "rne (- y) \<le> rne (- x)"
      using 3 xy by (intro rne_mono_pos) simp_all
    then show ?thesis
      by (simp add: rne_minus)
  qed
qed

lemma rne_representable:
  assumes "\<bar>m\<bar> < 2 ^ 53" "- 1074 \<le> k"
  shows "rne (of_int m * pow2 k) = of_int m * pow2 k"
proof -
  define x where "x = of_int m * pow2 k"
  have "expo x - 52 \<le> k"
  proof (rule expo_cases [of x])
    assume "expo x = - 1022"
    then show ?thesis
      using assms(2) by simp
  next
    assume "pow2 (expo x) \<le> \<bar>x\<bar>"
    moreover have "\<bar>x\<bar> < 2 ^ 53 * pow2 k"
    proof -
      have "\<bar>real_of_int m\<bar> < 2 ^ 53"
        using assms(1) by (metis of_int_abs of_int_less_numeral_power_cancel_iff)
      then show ?thesis
        by (simp add: x_def abs_mult)
    qed
    moreover have "2 ^ 53 * pow2 k = pow2 (53 + k)"
      using pow2_shift [of 53 k] by simp
    ultimately have "pow2 (expo x) < pow2 (53 + k)"
      by linarith
    then show ?thesis
      by simp
  qed
  then obtain d where d: "k = (expo x - 52) + int d"
    by (metis add.commute diff_ge_0_iff_ge nonneg_int_cases diff_add_cancel)
  define u where "u = ulp x"
  have u: "0 < u"
    by (simp add: u_def)
  have pk: "pow2 k = 2 ^ d * u"
    unfolding u_def ulp_def using pow2_shift [of d "expo x - 52"] d by (simp add: add.commute)
  have "x = of_int (m * 2 ^ d) * u"
    by (simp add: x_def pk)
  then have "x / u = of_int (m * 2 ^ d)"
    using u by simp
  then have "round_even (x / u) = m * 2 ^ d"
    by (simp only: round_even_of_int)
  then have "rne x = of_int (m * 2 ^ d) * u"
    by (simp add: rne_def u_def)
  then have "rne x = x"
    using \<open>x = of_int (m * 2 ^ d) * u\<close> by simp
  then show ?thesis
    by (simp only: x_def)
qed

lemma rne_nearest:
  assumes "pow2 e \<le> \<bar>x\<bar>" "\<bar>x\<bar> < pow2 (e + 1)" "- 1022 \<le> e"
    and "\<bar>x / pow2 (e - 52) - of_int m\<bar> < 1 / 2"
  shows "rne x = of_int m * pow2 (e - 52)"
proof -
  have "expo x = e"
    using assms(1-3) by (rule expo_eqI)
  then have "ulp x = pow2 (e - 52)"
    by (simp add: ulp_def)
  then show ?thesis
    using round_even_unique [OF assms(4)] by (simp add: rne_def)
qed

lemma rne_nearest_subnormal:
  assumes "\<bar>x\<bar> < pow2 (- 1022)"
    and "\<bar>x / pow2 (- 1074) - of_int m\<bar> < 1 / 2"
  shows "rne x = of_int m * pow2 (- 1074)"
proof -
  have "expo x = - 1022"
    using assms(1) by (rule expo_subnormal)
  then have "ulp x = pow2 (- 1074)"
    by (simp add: ulp_def)
  then show ?thesis
    using round_even_unique [OF assms(2)] by (simp add: rne_def)
qed


subsection \<open>The float result \<open>rnd\<close>\<close>

lemma rnd_not_NaN [simp]: "rnd x \<noteq> NaN"
  by (simp add: rnd_def Let_def)

lemma rnd_0 [simp]: "rnd 0 = Fin 0"
  by (simp add: rnd_def)

lemma rnd_Fin_iff: "rnd x = Fin r \<longleftrightarrow> r = rne x \<and> \<bar>rne x\<bar> < 2 ^ 1024"
  by (auto simp: rnd_def Let_def)

lemma rnd_PInf_iff: "rnd x = PInf \<longleftrightarrow> 2 ^ 1024 \<le> rne x"
  by (auto simp: rnd_def Let_def)

lemma rnd_NInf_iff: "rnd x = NInf \<longleftrightarrow> rne x \<le> - (2 ^ 1024)"
proof -
  have "(0::real) < 2 ^ 1024"
    by simp
  then show ?thesis
    unfolding rnd_def Let_def by (auto; linarith)
qed

lemma rnd_cases:
  obtains "rnd x = Fin (rne x)" "\<bar>rne x\<bar> < 2 ^ 1024"
  | "rnd x = PInf" "2 ^ 1024 \<le> rne x"
  | "rnd x = NInf" "rne x \<le> - (2 ^ 1024)"
  by (cases "rnd x") (auto simp: rnd_Fin_iff rnd_PInf_iff rnd_NInf_iff)

lemma rnd_minus: "rnd (- x) = fneg (rnd x)"
proof -
  have "(0::real) < 2 ^ 1024"
    by simp
  then show ?thesis
    unfolding rnd_def Let_def rne_minus by (auto; linarith)
qed

lemma rnd_mono: "x \<le> y \<Longrightarrow> fle (rnd x) (rnd y)"
proof -
  assume "x \<le> y"
  then have "rne x \<le> rne y"
    by (rule rne_mono)
  then show ?thesis
    by (rule_tac rnd_cases [of x]; rule_tac rnd_cases [of y]) (auto simp: fle_def)
qed

lemma rnd_nonneg: "0 \<le> x \<Longrightarrow> rnd x = PInf \<or> (\<exists>r. rnd x = Fin r \<and> 0 \<le> r)"
  using rne_nonneg [of x] by (rule_tac rnd_cases [of x]) auto

lemma rne_pow2_int: "- 1074 \<le> k \<Longrightarrow> rne (pow2 k) = pow2 k"
  using rne_representable [of 1 k] by simp

lemma rnd_overflow: "2 ^ 1024 \<le> x \<Longrightarrow> rnd x = PInf"
proof -
  assume "2 ^ 1024 \<le> x"
  then have "rne (2 ^ 1024) \<le> rne x"
    by (rule rne_mono)
  moreover have "rne (2 ^ 1024) = 2 ^ 1024"
    using rne_pow2_int [of 1024] by (simp add: pow2_def)
  ultimately show ?thesis
    by (simp add: rnd_PInf_iff)
qed

lemma rnd_overflow_neg: "x \<le> - (2 ^ 1024) \<Longrightarrow> rnd x = NInf"
  using rnd_overflow [of "- x"] rnd_minus [of "- x"] by (cases "rnd x") simp_all

lemma rnd_representable:
  assumes "\<bar>m\<bar> < 2 ^ 53" "- 1074 \<le> k" "k \<le> 971"
  shows "rnd (of_int m * pow2 k) = Fin (of_int m * pow2 k)"
proof -
  have r: "rne (of_int m * pow2 k) = of_int m * pow2 k"
    using assms(1,2) by (rule rne_representable)
  have "\<bar>real_of_int m\<bar> < 2 ^ 53"
    using assms(1) by (metis of_int_abs of_int_less_numeral_power_cancel_iff)
  moreover have "pow2 k \<le> pow2 971"
    using assms(3) by simp
  ultimately have "\<bar>real_of_int m\<bar> * pow2 k < 2 ^ 53 * pow2 971"
    by (intro mult_less_le_imp_less) simp_all
  also have "\<dots> = 2 ^ 1024"
    using pow2_shift [of 53 971] by (simp add: pow2_def)
  finally have "\<bar>of_int m * pow2 k\<bar> < 2 ^ 1024"
    by (simp add: abs_mult)
  then show ?thesis
    by (simp add: rnd_Fin_iff r)
qed

lemma representable_of_int: "\<bar>m\<bar> < 2 ^ 53 \<Longrightarrow> representable (of_int m)"
  using rnd_representable [of m 0] by (simp add: representable_def)

lemma representable_div_pow2:
  assumes "\<bar>m\<bar> < 2 ^ 53" "n \<le> 1074"
  shows "representable (of_int m / 2 ^ n)"
proof -
  have "pow2 (- int n) = 1 / 2 ^ n"
    by (simp add: pow2_def)
  then show ?thesis
    using rnd_representable [of m "- int n"] assms by (simp add: representable_def)
qed

lemma representable_mult_pow2:
  assumes "\<bar>m\<bar> < 2 ^ 53" "n \<le> 971"
  shows "representable (of_int m * 2 ^ n)"
proof -
  have "pow2 (int n) = 2 ^ n"
    by (simp add: pow2_def)
  then show ?thesis
    using rnd_representable [of m "int n"] assms by (simp add: representable_def)
qed

lemma representable_0 [simp]: "representable 0"
  by (simp add: representable_def)

lemma representable_minus: "representable x \<Longrightarrow> representable (- x)"
  by (simp add: representable_def rnd_minus)

lemma rnd_representable_eq: "representable x \<Longrightarrow> rnd x = Fin x"
  by (simp add: representable_def)

lemma rnd_ge:
  assumes "representable a" "a \<le> x"
  shows "rnd x = PInf \<or> (\<exists>r. rnd x = Fin r \<and> a \<le> r)"
  using rnd_mono [OF assms(2)] assms(1)
  by (cases "rnd x") (auto simp: representable_def fle_def)

lemma rnd_le:
  assumes "representable b" "x \<le> b"
  shows "rnd x = NInf \<or> (\<exists>r. rnd x = Fin r \<and> r \<le> b)"
  using rnd_mono [OF assms(2)] assms(1)
  by (cases "rnd x") (auto simp: representable_def fle_def)

lemma rnd_fbetween:
  assumes "representable lo" "representable hi" "lo \<le> x" "x \<le> hi"
  shows "fbetween lo hi (rnd x)"
  using rnd_ge [OF assms(1,3)] rnd_le [OF assms(2,4)]
  by (auto simp: fbetween_def)

lemma fbetween_Fin [simp]: "fbetween lo hi (Fin r) \<longleftrightarrow> lo \<le> r \<and> r \<le> hi"
  by (simp add: fbetween_def)

lemma fbetweenE:
  assumes "fbetween lo hi x"
  obtains r where "x = Fin r" "lo \<le> r" "r \<le> hi"
  using assms by (cases x) (auto simp: fbetween_def)

lemma rnd_nearest:
  assumes "pow2 e \<le> \<bar>x\<bar>" "\<bar>x\<bar> < pow2 (e + 1)" "- 1022 \<le> e"
    and "\<bar>x / pow2 (e - 52) - of_int m\<bar> < 1 / 2"
    and "\<bar>of_int m * pow2 (e - 52)\<bar> < 2 ^ 1024"
  shows "rnd x = Fin (of_int m * pow2 (e - 52))"
  using rne_nearest [OF assms(1-4)] assms(5) by (simp add: rnd_Fin_iff)

lemma rnd_tie:
  assumes "pow2 e \<le> \<bar>x\<bar>" "\<bar>x\<bar> < pow2 (e + 1)" "- 1022 \<le> e"
    and "x / pow2 (e - 52) = of_int f + 1 / 2"
    and "m = (if even f then f else f + 1)"
    and "\<bar>of_int m * pow2 (e - 52)\<bar> < 2 ^ 1024"
  shows "rnd x = Fin (of_int m * pow2 (e - 52))"
proof -
  have "expo x = e"
    using assms(1-3) by (rule expo_eqI)
  then have "ulp x = pow2 (e - 52)"
    by (simp add: ulp_def)
  then have "rne x = of_int m * pow2 (e - 52)"
    using round_even_tie [OF assms(4)] assms(5) by (simp add: rne_def)
  then show ?thesis
    using assms(6) by (simp add: rnd_Fin_iff)
qed

lemma rnd_nearest_subnormal:
  assumes "\<bar>x\<bar> < pow2 (- 1022)"
    and "\<bar>x / pow2 (- 1074) - of_int m\<bar> < 1 / 2"
  shows "rnd x = Fin (of_int m * pow2 (- 1074))"
proof -
  have r: "rne x = of_int m * pow2 (- 1074)"
    using assms by (rule rne_nearest_subnormal)
  have "0 \<le> rne \<bar>x\<bar>"
    by (rule rne_nonneg) simp
  moreover have "rne \<bar>x\<bar> \<le> pow2 (expo \<bar>x\<bar> + 1)"
    by (rule rne_upper) simp
  moreover have "expo \<bar>x\<bar> = - 1022"
    using assms(1) expo_subnormal [of x] by simp
  moreover have "pow2 (- 1021) < 2 ^ 1024"
    by (simp add: pow2_def)
  moreover have "\<bar>rne x\<bar> = rne \<bar>x\<bar>"
    using rne_minus [of x] rne_nonneg [of x] rne_nonneg [of "- x"]
    by (cases "0 \<le> x") (simp_all add: abs_if)
  ultimately have "\<bar>rne x\<bar> < 2 ^ 1024"
    by simp
  then show ?thesis
    by (simp add: rnd_Fin_iff r)
qed

lemma rnd_tie_subnormal:
  assumes "\<bar>x\<bar> < pow2 (- 1022)"
    and "x / pow2 (- 1074) = of_int f + 1 / 2"
    and "m = (if even f then f else f + 1)"
  shows "rnd x = Fin (of_int m * pow2 (- 1074))"
proof -
  have "expo x = - 1022"
    using assms(1) by (rule expo_subnormal)
  then have "ulp x = pow2 (- 1074)"
    by (simp add: ulp_def)
  then have r: "rne x = of_int m * pow2 (- 1074)"
    using round_even_tie [OF assms(2)] assms(3) by (simp add: rne_def)
  have "0 \<le> rne \<bar>x\<bar>"
    by (rule rne_nonneg) simp
  moreover have "rne \<bar>x\<bar> \<le> pow2 (expo \<bar>x\<bar> + 1)"
    by (rule rne_upper) simp
  moreover have "expo \<bar>x\<bar> = - 1022"
    using assms(1) expo_subnormal [of x] by simp
  moreover have "pow2 (- 1021) < 2 ^ 1024"
    by (simp add: pow2_def)
  moreover have "\<bar>rne x\<bar> = rne \<bar>x\<bar>"
    using rne_minus [of x] rne_nonneg [of x] rne_nonneg [of "- x"]
    by (cases "0 \<le> x") (simp_all add: abs_if)
  ultimately have "\<bar>rne x\<bar> < 2 ^ 1024"
    by simp
  then show ?thesis
    by (simp add: rnd_Fin_iff r)
qed

section \<open>No exception but \<open>OverflowError\<close>\<close>

lemma fle_zero_iff: "fle x (Fin 0) \<longleftrightarrow> x = NInf \<or> (\<exists>r. x = Fin r \<and> r \<le> 0)"
  by (cases x) (auto simp: fle_def)

lemma fgt_zero_iff: "fgt x (Fin 0) \<longleftrightarrow> x = PInf \<or> (\<exists>r. x = Fin r \<and> 0 < r)"
  by (cases x) (auto simp: fgt_def)

lemma feq_zero_iff: "feq x (Fin 0) \<longleftrightarrow> x = Fin 0"
  by (cases x) auto

lemma fdiv_ok: "b \<noteq> Fin 0 \<Longrightarrow> \<exists>q. fdiv a b = Inr q"
  by (cases a; cases b) auto

lemma ebind_Inr [simp]: "ebind (Inr v) f = f v"
  by (simp add: ebind_def)

lemma ebind_Inl [simp]: "ebind (Inl e) f = Inl e"
  by (simp add: ebind_def)

lemma length_periods_of [simp]: "length (periods_of tms) = length tms - 1"
  by (simp add: periods_of_def)

lemma representable_1 [simp]: "representable 1"
  using representable_of_int [of 1] by simp

lemma representable_2 [simp]: "representable 2"
  using representable_of_int [of 2] by simp

lemma float_of_nat_nonzero: "0 < n \<Longrightarrow> float_of_nat n \<noteq> Fin 0"
proof -
  assume "0 < n"
  then have "1 \<le> real n"
    by simp
  then show ?thesis
    using rnd_ge [of 1 "real n"] by (auto simp: float_of_nat_def)
qed

lemma float_of_nat_exact: "n < 2 ^ 53 \<Longrightarrow> float_of_nat n = Fin (real n)"
proof -
  assume "n < 2 ^ 53"
  then have "\<bar>int n\<bar> < 2 ^ 53"
    by (metis abs_of_nat of_nat_less_numeral_power_cancel_iff)
  then show ?thesis
    using representable_of_int [of "int n"] by (simp add: float_of_nat_def representable_def)
qed

lemma math_pi_eq: "math_pi = Fin (884279719003555 / 281474976710656)"
  unfolding math_pi_def
  using rnd_nearest [of 1 "314159265358979323846 / 10 ^ 20" 7074237752028440]
  by (simp add: pow2_def)

lemma two_pi: "fmul (Fin 2) math_pi = Fin (884279719003555 / 140737488355328)"
  unfolding math_pi_eq
  using rnd_representable [of 884279719003555 "- 47"]
  by (simp add: pow2_def)

lemma calculate_angular_velocity_returns: "\<exists>v. calculate_angular_velocity tms = Inr v"
proof (cases "length tms < 2")
  case True
  then show ?thesis by (simp add: calculate_angular_velocity_def)
next
  case False
  then have "float_of_nat (length tms - 1) \<noteq> Fin 0"
    by (intro float_of_nat_nonzero) simp
  then obtain avg where avg: "fdiv (py_sum (periods_of tms)) (float_of_nat (length tms - 1)) = Inr avg"
    using fdiv_ok by blast
  show ?thesis
  proof (cases "fgt avg (Fin 0)")
    case True
    then have "avg \<noteq> Fin 0" by (auto simp: fgt_zero_iff)
    then obtain q where "fdiv (Fin 1) avg = Inr q" using fdiv_ok by blast
    with avg True False show ?thesis by (simp add: calculate_angular_velocity_def Let_def)
  next
    case nonpos: False
    with avg False show ?thesis by (simp add: calculate_angular_velocity_def Let_def)
  qed
qed

lemma sample_loop_returns: "\<exists>r. sample_loop tms idxs vs ps = Inr r"
proof (induction idxs arbitrary: vs ps)
  case Nil
  then show ?case by simp
next
  case (Cons i rest)
  let ?dt = "fsub (tms ! i) (tms ! (i - 1))"
  show ?case
  proof (cases "fle ?dt (Fin 0)")
    case True
    then show ?thesis using Cons.IH by (simp add: Let_def)
  next
    case False
    then have "?dt \<noteq> Fin 0" by (auto simp: fle_zero_iff)
    then obtain v where v: "fdiv (fmul (Fin 2) math_pi) ?dt = Inr v" using fdiv_ok by blast
    obtain m where m: "fdiv (fadd (tms ! i) (tms ! (i - 1))) (Fin 2) = Inr m"
      using fdiv_ok [of "Fin 2"] by auto
    show ?thesis using False v m Cons.IH by (simp add: Let_def)
  qed
qed

lemma calculate_deceleration_returns: "\<exists>a. calculate_deceleration tms = Inr a"
proof (cases "length tms < 3")
  case True
  then show ?thesis by (simp add: calculate_deceleration_def)
next
  case False
  obtain vs ps where s: "sample_loop tms [1..<length tms] [] [] = Inr (vs, ps)"
    using sample_loop_returns by (metis surj_pair)
  define denom where "denom = fsub (fmul (float_of_nat (length vs)) (py_sum (map (\<lambda>x. fmul x x) ps)))
     (fmul (py_sum ps) (py_sum ps))"
  show ?thesis
  proof (cases "length vs < 2 \<or> feq denom (Fin 0)")
    case True
    then show ?thesis using False s
      by (auto simp: calculate_deceleration_def Let_def denom_def)
  next
    case nz: False
    then have "denom \<noteq> Fin 0" by (simp add: feq_zero_iff)
    then obtain q where "fdiv (fsub (fmul (float_of_nat (length vs)) (py_sum (map (\<lambda>(x, v). fmul x v) (zip ps vs))))
         (fmul (py_sum ps) (py_sum vs))) denom = Inr q"
      using fdiv_ok by blast
    then show ?thesis using False s nz
      by (auto simp: calculate_deceleration_def Let_def denom_def)
  qed
qed

lemma raw_estimates_returns: "\<exists>e. raw_estimates wts bts = Inr e"
proof -
  obtain wv bv wa ba where
    "calculate_angular_velocity wts = Inr wv" "calculate_angular_velocity bts = Inr bv"
    "calculate_deceleration wts = Inr wa" "calculate_deceleration bts = Inr ba"
    using calculate_angular_velocity_returns calculate_deceleration_returns by metis
  then show ?thesis by (simp add: raw_estimates_def)
qed

subsection \<open>The critical velocity\<close>

lemma rnd_bounded:
  assumes "representable b" "\<bar>x\<bar> \<le> b"
  shows "rnd x = Fin (rne x)" "\<bar>rne x\<bar> \<le> b"
proof -
  have "fbetween (- b) b (rnd x)"
    using assms by (intro rnd_fbetween representable_minus) simp_all
  then obtain r where r: "rnd x = Fin r" "- b \<le> r" "r \<le> b"
    by (rule fbetweenE)
  then have "r = rne x"
    by (simp add: rnd_Fin_iff)
  then show "rnd x = Fin (rne x)" "\<bar>rne x\<bar> \<le> b"
    using r by simp_all
qed

lemma rne_bounds:
  assumes "representable lo" "representable hi" "lo \<le> x" "x \<le> hi"
  shows "lo \<le> rne x" "rne x \<le> hi"
proof -
  have "rne lo = lo" "rne hi = hi"
    using assms(1,2) by (simp_all add: representable_def rnd_Fin_iff)
  then show "lo \<le> rne x" "rne x \<le> hi"
    using rne_mono [OF assms(3)] rne_mono [OF assms(4)] by simp_all
qed

lemma representable_small [simp]:
  "representable 3" "representable 5" "representable 9" "representable 10" "representable (1 / 2)"
  "representable (1 / 64)" "representable (1 / 32)" "representable (1 / 16)" "representable (1 / 8)"
  using representable_of_int [of 3] representable_of_int [of 5] representable_of_int [of 9]
    representable_of_int [of 10] representable_div_pow2 [of 1 1]
    representable_div_pow2 [of 1 6] representable_div_pow2 [of 1 5]
    representable_div_pow2 [of 1 4] representable_div_pow2 [of 1 3]
  by simp_all

lemma ALPHA_bounds: "1 / 64 \<le> ALPHA_value" "ALPHA_value \<le> 1 / 32"
  unfolding ALPHA_value_def by (rule rne_bounds [of "1 / 64" "1 / 32"]; simp)+

lemma ALPHA_eq: "ALPHA = Fin ALPHA_value"
  unfolding ALPHA_def ALPHA_value_def by (rule rnd_bounded [of 1]) simp_all

lemma G_bounds: "9 \<le> G_value" "G_value \<le> 10"
  unfolding G_value_def by (rule rne_bounds [of 9 10]; simp)+

lemma G_eq: "G = Fin G_value"
  unfolding G_def G_value_def by (rule rnd_bounded [of 10]) simp_all

lemma tan_ALPHA_value: "0 < tan ALPHA_value" "tan ALPHA_value < 1"
proof -
  have a: "0 < ALPHA_value" "ALPHA_value < pi / 4"
    using ALPHA_bounds pi_ge_two by simp_all
  show "0 < tan ALPHA_value"
    using a by (intro tan_gt_zero) (use pi_ge_two in simp_all)
  have "tan ALPHA_value < tan (pi / 4)"
    using a pi_ge_two by (intro tan_monotone) simp_all
  then show "tan ALPHA_value < 1"
    by (simp add: tan_45)
qed

lemma tan_ALPHA_bounds: "0 \<le> tan_ALPHA" "tan_ALPHA \<le> 1"
  unfolding tan_ALPHA_def using tan_ALPHA_value
  by (intro rne_bounds [of 0 1 "tan ALPHA_value"]; simp)+

lemma math_tan_ALPHA: "math_tan ALPHA = Inr (Fin tan_ALPHA)"
proof -
  have "\<bar>tan ALPHA_value\<bar> \<le> 1"
    using tan_ALPHA_value by simp
  then have "rnd (tan ALPHA_value) = Fin (rne (tan ALPHA_value))"
    by (intro rnd_bounded [of 1]) simp_all
  then show ?thesis
    by (simp add: ALPHA_eq tan_ALPHA_def)
qed

lemma G_tan_bounds: "0 \<le> G_value * tan_ALPHA" "G_value * tan_ALPHA \<le> 10"
proof -
  show "0 \<le> G_value * tan_ALPHA"
    using G_bounds tan_ALPHA_bounds by simp
  have "G_value * tan_ALPHA \<le> 10 * 1"
    using G_bounds tan_ALPHA_bounds by (intro mult_mono) simp_all
  then show "G_value * tan_ALPHA \<le> 10"
    by simp
qed

lemma rne_G_tan_bounds: "0 \<le> rne (G_value * tan_ALPHA)" "rne (G_value * tan_ALPHA) \<le> 10"
  using G_tan_bounds by (intro rne_bounds [of 0 10 "G_value * tan_ALPHA"]; simp)+

lemma cvs_bounds: "0 \<le> cvs" "cvs \<le> 5"
proof -
  have "0 \<le> rne (G_value * tan_ALPHA) * (1 / 2)" "rne (G_value * tan_ALPHA) * (1 / 2) \<le> 5"
    using rne_G_tan_bounds by simp_all
  then show "0 \<le> cvs" "cvs \<le> 5"
    unfolding cvs_def by (intro rne_bounds [of 0 5]; simp)+
qed

lemma critical_velocity_squared_eq: "critical_velocity_squared = Inr (Fin cvs)"
proof -
  have "\<bar>G_value * tan_ALPHA\<bar> \<le> 10"
    using G_tan_bounds by simp
  then have b: "rnd (G_value * tan_ALPHA) = Fin (rne (G_value * tan_ALPHA))"
    by (intro rnd_bounded [of 10]) simp_all
  have "\<bar>rne (G_value * tan_ALPHA) * (1 / 2)\<bar> \<le> 5"
    using rne_G_tan_bounds by simp
  then have c: "rnd (rne (G_value * tan_ALPHA) * (1 / 2)) = Fin cvs"
    unfolding cvs_def by (intro rnd_bounded [of 5]) simp_all
  have "fmul (fmul G (Fin tan_ALPHA)) (Fin (1 / 2)) = Fin cvs"
    unfolding G_eq fmul.simps b c by (rule refl)
  then show ?thesis
    by (simp only: critical_velocity_squared_def math_tan_ALPHA ebind_Inr)
qed

lemma sqrt_cvs_bounds: "0 \<le> sqrt cvs" "sqrt cvs \<le> 3"
proof -
  show "0 \<le> sqrt cvs"
    using cvs_bounds by simp
  have "sqrt cvs \<le> sqrt 9"
    using cvs_bounds by (intro real_sqrt_le_mono) simp
  also have "sqrt 9 = (3::real)"
    using real_sqrt_abs [of 3] by simp
  finally show "sqrt cvs \<le> 3" .
qed

lemma vc_bounds: "0 \<le> vc" "vc \<le> 3"
  unfolding vc_def using sqrt_cvs_bounds by (intro rne_bounds [of 0 3]; simp)+

lemma rnd_sqrt_cvs: "rnd (sqrt cvs) = Fin vc"
proof -
  have "\<bar>sqrt cvs\<bar> \<le> 3"
    using sqrt_cvs_bounds by simp
  then show ?thesis
    unfolding vc_def by (intro rnd_bounded [of 3]) simp_all
qed

lemma math_sqrt_cvs: "math_sqrt (Fin cvs) = Inr (Fin vc)"
  using cvs_bounds by (simp add: rnd_sqrt_cvs)

lemma t_drop_eq:
  "t_drop e =
     ebind (if fgt (ball_alpha e) (Fin 0) \<and> fgt (ball_omega e) (Fin vc)
            then fdiv (fsub (ball_omega e) (Fin vc)) (ball_alpha e)
            else Inr (Fin 3)) (\<lambda>t0. Inr (clamp_t t0))"
  unfolding t_drop_def critical_velocity_squared_eq ebind_Inr math_sqrt_cvs
  by (simp add: clamp_t_def Let_def)

lemma t_drop_returns: "\<exists>t. t_drop e = Inr t"
proof (cases "fgt (ball_alpha e) (Fin 0) \<and> fgt (ball_omega e) (Fin vc)")
  case True
  then have "ball_alpha e \<noteq> Fin 0" by (auto simp: fgt_zero_iff)
  then obtain q where "fdiv (fsub (ball_omega e) (Fin vc)) (ball_alpha e) = Inr q"
    using fdiv_ok by blast
  with True show ?thesis by (simp add: t_drop_eq)
next
  case False
  then show ?thesis by (auto simp add: t_drop_eq)
qed

subsection \<open>From the travel angles to the pocket\<close>

lemma six_pi: "fmul (fmul (Fin 2) math_pi) (Fin 3) = Fin (2652839157010665 / 140737488355328)"
  unfolding two_pi
  using rnd_representable [of 2652839157010665 "- 47"]
  by (simp add: pow2_def)

lemma four_pi: "fmul (fmul (Fin 2) math_pi) (Fin 2) = Fin (884279719003555 / 70368744177664)"
  unfolding two_pi
  using rnd_representable [of 884279719003555 "- 46"]
  by (simp add: pow2_def)

lemma theta_ball_finite: "\<exists>r. theta_ball e t = Fin r"
proof (cases "isfinite (travel (ball_omega e) (ball_alpha e) t)")
  case True
  then show ?thesis
    by (cases "travel (ball_omega e) (ball_alpha e) t") (simp_all add: theta_ball_def)
next
  case False
  then have "theta_ball e t = Fin (2652839157010665 / 140737488355328)"
    by (simp add: theta_ball_def six_pi)
  then show ?thesis
    by (rule exI)
qed

lemma theta_wheel_finite: "\<exists>r. theta_wheel e t = Fin r"
proof (cases "isfinite (travel (wheel_omega e) (wheel_alpha e) t)")
  case True
  then show ?thesis
    by (cases "travel (wheel_omega e) (wheel_alpha e) t") (simp_all add: theta_wheel_def)
next
  case False
  then have "theta_wheel e t = Fin (884279719003555 / 70368744177664)"
    by (simp add: theta_wheel_def four_pi)
  then show ?thesis
    by (rule exI)
qed

lemma fdiv_two_pi:
  "fdiv x (fmul (Fin 2) math_pi) =
     Inr (case x of Fin s \<Rightarrow> rnd (s / (884279719003555 / 140737488355328)) | other \<Rightarrow> other)"
  by (cases x) (simp_all add: two_pi inf_signed_def)

lemma relative_angle_not_NaN:
  "\<exists>rel. relative_angle d (Fin a) (Fin b) = Inr rel \<and> rel \<noteq> NaN"
proof -
  have "fadd (Fin a) (Fin b) \<noteq> NaN" "fsub (Fin a) (Fin b) \<noteq> NaN"
    by (simp_all add: fsub_def)
  then show ?thesis
    unfolding relative_angle_def fdiv_two_pi
    by (cases "fadd (Fin a) (Fin b)"; cases "fsub (Fin a) (Fin b)") simp_all
qed

lemma fmul_fabs_37:
  assumes "rel \<noteq> NaN"
  shows "fmul (fabs rel) (Fin 37) = PInf \<or> (\<exists>p. fmul (fabs rel) (Fin 37) = Fin p \<and> 0 \<le> p)"
proof (cases rel)
  case (Fin r)
  then show ?thesis
    using rnd_nonneg [of "\<bar>r\<bar> * 37"] by simp
qed (use assms in \<open>simp_all add: inf_signed_def\<close>)

lemma final_pocket_index_cases:
  assumes "rel \<noteq> NaN"
  shows "final_pocket_index rel doff = Inl OverflowError
       \<or> (\<exists>idx. final_pocket_index rel doff = Inr idx \<and> 0 \<le> idx \<and> idx < 37)"
  using fmul_fabs_37 [OF assms] by (auto simp: final_pocket_index_def Let_def)

lemma getitem_ROULETTE_SEQUENCE:
  assumes "0 \<le> idx" "idx < 37"
  shows "getitem ROULETTE_SEQUENCE idx = Inr (ROULETTE_SEQUENCE ! nat idx)"
    and "ROULETTE_SEQUENCE ! nat idx \<in> set ROULETTE_SEQUENCE"
proof -
  have len: "length ROULETTE_SEQUENCE = 37" by (simp add: ROULETTE_SEQUENCE_def)
  show "getitem ROULETTE_SEQUENCE idx = Inr (ROULETTE_SEQUENCE ! nat idx)"
    using assms by (simp add: getitem_def len)
  show "ROULETTE_SEQUENCE ! nat idx \<in> set ROULETTE_SEQUENCE"
    using assms by (intro nth_mem) (simp add: len)
qed

lemma predict_for_direction_cases:
  "predict_for_direction wts bts d = Inl OverflowError
   \<or> (\<exists>v. predict_for_direction wts bts d = Inr v \<and> v \<in> set ROULETTE_SEQUENCE)"
proof -
  obtain e0 where e0: "raw_estimates wts bts = Inr e0" using raw_estimates_returns by blast
  define e where "e = apply_defaults e0"
  obtain t where t: "t_drop e = Inr t" using t_drop_returns by blast
  obtain a b where th: "theta_ball e t = Fin a" "theta_wheel e t = Fin b"
    using theta_ball_finite theta_wheel_finite by blast
  obtain rel where rel: "relative_angle d (Fin a) (Fin b) = Inr rel" "rel \<noteq> NaN"
    using relative_angle_not_NaN by blast
  have pfd: "predict_for_direction wts bts d =
      ebind (final_pocket_index rel (direction_offset d)) (getitem ROULETTE_SEQUENCE)"
    using e0 t th rel by (simp add: predict_for_direction_def Let_def e_def [symmetric])
  from final_pocket_index_cases [OF rel(2), of "direction_offset d"] show ?thesis
  proof
    assume "final_pocket_index rel (direction_offset d) = Inl OverflowError"
    then show ?thesis by (simp add: pfd)
  next
    assume "\<exists>idx. final_pocket_index rel (direction_offset d) = Inr idx \<and> 0 \<le> idx \<and> idx < 37"
    then obtain idx where i: "final_pocket_index rel (direction_offset d) = Inr idx" "0 \<le> idx" "idx < 37"
      by blast
    then show ?thesis using getitem_ROULETTE_SEQUENCE [OF i(2,3)] by (simp add: pfd)
  qed
qed

lemma predict_for_direction_angles:
  "predict_for_direction wts bts d =
     ebind (angles wts bts) (\<lambda>(thb, thw).
       ebind (relative_angle d thb thw) (\<lambda>rel.
         ebind (final_pocket_index rel (direction_offset d)) (getitem ROULETTE_SEQUENCE)))"
  by (cases "raw_estimates wts bts")
     (auto simp: predict_for_direction_def angles_def Let_def ebind_def split: sum.splits)

lemma angles_finite: "\<exists>thb thw. angles wts bts = Inr (Fin thb, Fin thw)"
proof -
  obtain e0 where e0: "raw_estimates wts bts = Inr e0"
    using raw_estimates_returns by blast
  obtain t where t: "t_drop (apply_defaults e0) = Inr t"
    using t_drop_returns by blast
  obtain a b where "theta_ball (apply_defaults e0) t = Fin a" "theta_wheel (apply_defaults e0) t = Fin b"
    using theta_ball_finite theta_wheel_finite by blast
  with e0 t show ?thesis
    by (simp add: angles_def Let_def)
qed

section \<open>Two timestamps per sequence\<close>

lemma periods_of_pair: "periods_of [x, y] = [fsub y x]"
  by (simp add: periods_of_def upt_rec)

lemma calculate_angular_velocity_pair:
  assumes "representable p" "0 < p"
  shows "calculate_angular_velocity [Fin 0, Fin p] = Inr (rnd (1 / p))"
proof -
  have r: "rnd p = Fin p"
    using assms(1) by (simp add: representable_def)
  have one: "float_of_nat (Suc 0) = Fin 1"
    using float_of_nat_exact [of 1] by simp
  show ?thesis
    using assms(2) r one
    by (simp add: calculate_angular_velocity_def periods_of_pair py_sum_def fsub_def fgt_def)
qed

lemma calculate_deceleration_short:
  "length tms < 3 \<Longrightarrow> calculate_deceleration tms = Inr (Fin 0)"
  by (simp add: calculate_deceleration_def)

lemma tenth: "rnd (1 / 10) = Fin (3602879701896397 / 36028797018963968)"
  using rnd_nearest [of "- 4" "1 / 10" 7205759403792794] by (simp add: pow2_def)

lemma raw_estimates_pairs:
  assumes "representable pw" "0 < pw" "representable pb" "0 < pb"
  shows "raw_estimates [Fin 0, Fin pw] [Fin 0, Fin pb] =
     Inr \<lparr>wheel_omega = fmul (Fin (884279719003555 / 140737488355328)) (rnd (1 / pw)),
          ball_omega = fmul (Fin (884279719003555 / 140737488355328)) (rnd (1 / pb)),
          wheel_alpha = Fin 0, ball_alpha = Fin 0\<rparr>"
  using assms
  by (simp add: raw_estimates_def calculate_angular_velocity_pair calculate_deceleration_short two_pi)

lemma apply_defaults_fields:
  "wheel_alpha (apply_defaults e) = (if fle (wheel_alpha e) (Fin 0) then rnd (1 / 10) else wheel_alpha e)"
  "ball_alpha (apply_defaults e) = (if fle (ball_alpha e) (Fin 0) then rnd (1 / 10) else ball_alpha e)"
  "wheel_omega (apply_defaults e) = (if fle (wheel_omega e) (Fin 0) then Fin 1 else wheel_omega e)"
  "ball_omega (apply_defaults e) = (if fle (ball_omega e) (Fin 0) then Fin 2 else ball_omega e)"
  by (simp_all add: apply_defaults_def Let_def)

lemma apply_defaults_pairs:
  assumes "0 < wo" "0 < bo"
  shows "apply_defaults \<lparr>wheel_omega = Fin wo, ball_omega = Fin bo, wheel_alpha = Fin 0, ball_alpha = Fin 0\<rparr>
    = \<lparr>wheel_omega = Fin wo, ball_omega = Fin bo,
       wheel_alpha = Fin (3602879701896397 / 36028797018963968),
       ball_alpha = Fin (3602879701896397 / 36028797018963968)\<rparr>"
  using assms by (simp add: apply_defaults_def Let_def fle_def tenth)

text \<open>A ball faster than 5 rad/s with a deceleration of at most 1/8 has a raw drop time
  above 10 s, which the clamp replaces by 5.0.\<close>

lemma t_drop_five:
  assumes "ball_alpha e = Fin a" "0 < a" "a \<le> 1 / 8" "ball_omega e = Fin w" "5 \<le> w"
  shows "t_drop e = Inr (Fin 5)"
proof -
  have gt: "fgt (ball_alpha e) (Fin 0)" "fgt (ball_omega e) (Fin vc)"
    using assms vc_bounds by (simp_all add: fgt_def)
  have "2 \<le> w + - vc"
    using assms(5) vc_bounds by linarith
  then have s: "rnd (w + - vc) = PInf \<or> (\<exists>r. rnd (w + - vc) = Fin r \<and> 2 \<le> r)"
    by (intro rnd_ge) simp_all
  have r16: "representable 16"
    using representable_of_int [of 16] by simp
  have "\<exists>t0. fdiv (rnd (w + - vc)) (Fin a) = Inr t0 \<and> clamp_t t0 = Fin 5"
    using s
  proof
    assume "rnd (w + - vc) = PInf"
    then show ?thesis
      using assms(2) by (simp add: inf_signed_def clamp_t_def fgt_def Let_def)
  next
    assume "\<exists>r. rnd (w + - vc) = Fin r \<and> 2 \<le> r"
    then obtain r where r: "rnd (w + - vc) = Fin r" "2 \<le> r"
      by blast
    have "2 * 8 \<le> r * (1 / a)"
      using r(2) assms(2,3) by (intro mult_mono) (simp_all add: field_simps)
    then have "16 \<le> r / a"
      by simp
    then have "rnd (r / a) = PInf \<or> (\<exists>q. rnd (r / a) = Fin q \<and> 16 \<le> q)"
      using r16 by (intro rnd_ge)
    then show ?thesis
      using r(1) assms(2) by (auto simp: clamp_t_def fgt_def Let_def)
  qed
  then show ?thesis
    using gt assms(1,4) by (auto simp: t_drop_eq fsub_def)
qed

lemma angles_pairs:
  assumes "representable pw" "0 < pw" "representable pb" "0 < pb"
    and "fmul (Fin (884279719003555 / 140737488355328)) (rnd (1 / pw)) = Fin wo" "0 < wo"
    and "fmul (Fin (884279719003555 / 140737488355328)) (rnd (1 / pb)) = Fin bo" "5 \<le> bo"
  shows "angles [Fin 0, Fin pw] [Fin 0, Fin pb] =
     Inr (theta_ball \<lparr>wheel_omega = Fin wo, ball_omega = Fin bo,
            wheel_alpha = Fin (3602879701896397 / 36028797018963968),
            ball_alpha = Fin (3602879701896397 / 36028797018963968)\<rparr> (Fin 5),
          theta_wheel \<lparr>wheel_omega = Fin wo, ball_omega = Fin bo,
            wheel_alpha = Fin (3602879701896397 / 36028797018963968),
            ball_alpha = Fin (3602879701896397 / 36028797018963968)\<rparr> (Fin 5))"
proof -
  let ?e = "\<lparr>wheel_omega = Fin wo, ball_omega = Fin bo,
            wheel_alpha = Fin (3602879701896397 / 36028797018963968),
            ball_alpha = Fin (3602879701896397 / 36028797018963968)\<rparr>"
  have raw: "raw_estimates [Fin 0, Fin pw] [Fin 0, Fin pb] =
     Inr \<lparr>wheel_omega = Fin wo, ball_omega = Fin bo, wheel_alpha = Fin 0, ball_alpha = Fin 0\<rparr>"
    using raw_estimates_pairs [OF assms(1-4)] assms(5,7) by simp
  have d: "apply_defaults \<lparr>wheel_omega = Fin wo, ball_omega = Fin bo, wheel_alpha = Fin 0,
      ball_alpha = Fin 0\<rparr> = ?e"
    using assms(6,8) by (intro apply_defaults_pairs) simp_all
  have t: "t_drop ?e = Inr (Fin 5)"
    using assms(8) by (intro t_drop_five [where a = "3602879701896397 / 36028797018963968" and w = bo]) simp_all
  show ?thesis
    unfolding angles_def raw ebind_Inr Let_def d t by (rule refl)
qed

text \<open>The deceleration term \<open>0.5 * 0.1 * 5.0 * 5.0\<close> of the travel angles is exactly 1.25:
  \<open>0.05 * 5.0\<close> rounds to 0.25.\<close>

lemma travel_tenth_five:
  "travel (Fin w) (Fin (3602879701896397 / 36028797018963968)) (Fin 5) = fsub (rnd (w * 5)) (Fin (5 / 4))"
proof -
  have r1: "rnd (3602879701896397 / 72057594037927936) = Fin (3602879701896397 / 72057594037927936)"
    using rnd_representable [of 3602879701896397 "- 56"] by (simp add: pow2_def)
  have r2: "rnd (18014398509481985 / 72057594037927936) = Fin (1 / 4)"
    using rnd_nearest [of "- 2" "18014398509481985 / 72057594037927936" 4503599627370496]
    by (simp add: pow2_def)
  have r3: "rnd (5 / 4) = Fin (5 / 4)"
    using rnd_representable [of 5 "- 2"] by (simp add: pow2_def)
  show ?thesis
    using r1 r2 r3 by (simp add: travel_def)
qed

lemma theta_wheel_one_turn:
  "travel (Fin (884279719003555 / 140737488355328)) (Fin (3602879701896397 / 36028797018963968)) (Fin 5)
     = Fin (4245476734573615 / 140737488355328)"
proof -
  have r1: "rnd (4421398595017775 / 140737488355328) = Fin (4421398595017775 / 140737488355328)"
    using rnd_representable [of 4421398595017775 "- 47"] by (simp add: pow2_def)
  have r2: "rnd (4245476734573615 / 140737488355328) = Fin (4245476734573615 / 140737488355328)"
    using rnd_representable [of 4245476734573615 "- 47"] by (simp add: pow2_def)
  show ?thesis
    using r1 r2 by (simp add: travel_tenth_five fsub_def)
qed

subsection \<open>Worked inputs\<close>

text \<open>Wheel marks at 0 s and 1 s, ball marks at 0 s and 0.5 s.\<close>

lemma angles_half:
  "angles [Fin 0, Fin 1] [Fin 0, Fin (1 / 2)] =
     Inr (Fin (4333437664795695 / 70368744177664), Fin (4245476734573615 / 140737488355328))"
proof -
  have p1: "rnd 1 = Fin 1"
    using rnd_representable [of 1 0] by (simp add: pow2_def)
  have p2: "rnd (1 / 2) = Fin (1 / 2)"
    using rnd_representable [of 1 "- 1"] by (simp add: pow2_def)
  have v1: "rnd 1 = Fin 1"
    using rnd_representable [of 1 0] by (simp add: pow2_def)
  have v2: "rnd (884279719003555 / 140737488355328) = Fin (884279719003555 / 140737488355328)"
    using rnd_representable [of 884279719003555 "- 47"] by (simp add: pow2_def)
  have v3: "rnd 2 = Fin 2"
    using rnd_representable [of 1 1] by (simp add: pow2_def)
  have v4: "rnd (884279719003555 / 70368744177664) = Fin (884279719003555 / 70368744177664)"
    using rnd_representable [of 884279719003555 "- 46"] by (simp add: pow2_def)
  have r1: "rnd (4421398595017775 / 70368744177664) = Fin (4421398595017775 / 70368744177664)"
    using rnd_representable [of 4421398595017775 "- 46"] by (simp add: pow2_def)
  have r2: "rnd (4333437664795695 / 70368744177664) = Fin (4333437664795695 / 70368744177664)"
    using rnd_representable [of 4333437664795695 "- 46"] by (simp add: pow2_def)
  have r3: "rnd (4421398595017775 / 140737488355328) = Fin (4421398595017775 / 140737488355328)"
    using rnd_representable [of 4421398595017775 "- 47"] by (simp add: pow2_def)
  have r4: "rnd (4245476734573615 / 140737488355328) = Fin (4245476734573615 / 140737488355328)"
    using rnd_representable [of 4245476734573615 "- 47"] by (simp add: pow2_def)
  have a: "angles [Fin 0, Fin 1] [Fin 0, Fin (1 / 2)] =
     Inr (theta_ball \<lparr>wheel_omega = Fin (884279719003555 / 140737488355328), ball_omega = Fin (884279719003555 / 70368744177664),
       wheel_alpha = Fin (3602879701896397 / 36028797018963968),
       ball_alpha = Fin (3602879701896397 / 36028797018963968)\<rparr> (Fin 5),
          theta_wheel \<lparr>wheel_omega = Fin (884279719003555 / 140737488355328), ball_omega = Fin (884279719003555 / 70368744177664),
       wheel_alpha = Fin (3602879701896397 / 36028797018963968),
       ball_alpha = Fin (3602879701896397 / 36028797018963968)\<rparr> (Fin 5))"
    using p1 p2 v1 v2 v3 v4 by (intro angles_pairs) (simp_all add: representable_def)
  show ?thesis
    unfolding a using r1 r2 r3 r4
    by (simp add: theta_ball_def theta_wheel_def travel_tenth_five fsub_def)
qed

lemma predict_half_left:
  "predict_for_direction [Fin 0, Fin 1] [Fin 0, Fin (1 / 2)] ''left'' = Inr 15"
proof -
  have r1: "rnd (12912352064165005 / 140737488355328) = Fin (3228088016041251 / 35184372088832)"
    using rnd_tie [of 6 "12912352064165005 / 140737488355328" 6456176032082502 6456176032082502] by (simp add: pow2_def)
  have r2: "rnd (12912352064165004 / 884279719003555) = Fin (4110129315909397 / 281474976710656)"
    using rnd_nearest [of 3 "12912352064165004 / 884279719003555" 8220258631818794] by (simp add: pow2_def)
  have r3: "rnd (152074784688647689 / 281474976710656) = Fin (297021063845015 / 549755813888)"
    using rnd_nearest [of 9 "152074784688647689 / 281474976710656" 4752337021520240] by (simp add: pow2_def)
  have f: "\<lfloor>297021063845015 / 549755813888 :: real\<rfloor> = 540"
    by (rule floor_unique) simp_all
  show ?thesis
    unfolding predict_for_direction_angles angles_half using r1 r2 r3 f
    by (simp add: relative_angle_def fsub_def fdiv_two_pi final_pocket_index_def scatter_offset_def
        direction_offset_def getitem_def ROULETTE_SEQUENCE_def)
qed

lemma predict_half_right:
  "predict_for_direction [Fin 0, Fin 1] [Fin 0, Fin (1 / 2)] ''right'' = Inr 21"
proof -
  have r1: "rnd (4421398595017775 / 140737488355328) = Fin (4421398595017775 / 140737488355328)"
    using rnd_representable [of 4421398595017775 "- 47"] by (simp add: pow2_def)
  have r2: "rnd 5 = Fin 5"
    using rnd_representable [of 5 0] by (simp add: pow2_def)
  have r3: "rnd 185 = Fin 185"
    using rnd_representable [of 185 0] by (simp add: pow2_def)
  have f: "\<lfloor>185 :: real\<rfloor> = 185"
    by (rule floor_unique) simp_all
  show ?thesis
    unfolding predict_for_direction_angles angles_half using r1 r2 r3 f
    by (simp add: relative_angle_def fsub_def fdiv_two_pi final_pocket_index_def scatter_offset_def
        direction_offset_def getitem_def ROULETTE_SEQUENCE_def)
qed

text \<open>Wheel marks at 0 s and 1 s, ball marks at 0 s and 0.25 s: the relative angle for
  "right" is \<open>14.999999999999998\<close>, just below 15, and \<open>int()\<close> yields 554.\<close>

lemma angles_quarter:
  "angles [Fin 0, Fin 1] [Fin 0, Fin (1 / 4)] =
     Inr (Fin (4377418129906735 / 35184372088832), Fin (4245476734573615 / 140737488355328))"
proof -
  have p1: "rnd 1 = Fin 1"
    using rnd_representable [of 1 0] by (simp add: pow2_def)
  have p2: "rnd (1 / 4) = Fin (1 / 4)"
    using rnd_representable [of 1 "- 2"] by (simp add: pow2_def)
  have v1: "rnd 1 = Fin 1"
    using rnd_representable [of 1 0] by (simp add: pow2_def)
  have v2: "rnd (884279719003555 / 140737488355328) = Fin (884279719003555 / 140737488355328)"
    using rnd_representable [of 884279719003555 "- 47"] by (simp add: pow2_def)
  have v3: "rnd 4 = Fin 4"
    using rnd_representable [of 1 2] by (simp add: pow2_def)
  have v4: "rnd (884279719003555 / 35184372088832) = Fin (884279719003555 / 35184372088832)"
    using rnd_representable [of 884279719003555 "- 45"] by (simp add: pow2_def)
  have r1: "rnd (4421398595017775 / 35184372088832) = Fin (4421398595017775 / 35184372088832)"
    using rnd_representable [of 4421398595017775 "- 45"] by (simp add: pow2_def)
  have r2: "rnd (4377418129906735 / 35184372088832) = Fin (4377418129906735 / 35184372088832)"
    using rnd_representable [of 4377418129906735 "- 45"] by (simp add: pow2_def)
  have r3: "rnd (4421398595017775 / 140737488355328) = Fin (4421398595017775 / 140737488355328)"
    using rnd_representable [of 4421398595017775 "- 47"] by (simp add: pow2_def)
  have r4: "rnd (4245476734573615 / 140737488355328) = Fin (4245476734573615 / 140737488355328)"
    using rnd_representable [of 4245476734573615 "- 47"] by (simp add: pow2_def)
  have a: "angles [Fin 0, Fin 1] [Fin 0, Fin (1 / 4)] =
     Inr (theta_ball \<lparr>wheel_omega = Fin (884279719003555 / 140737488355328), ball_omega = Fin (884279719003555 / 35184372088832),
       wheel_alpha = Fin (3602879701896397 / 36028797018963968),
       ball_alpha = Fin (3602879701896397 / 36028797018963968)\<rparr> (Fin 5),
          theta_wheel \<lparr>wheel_omega = Fin (884279719003555 / 140737488355328), ball_omega = Fin (884279719003555 / 35184372088832),
       wheel_alpha = Fin (3602879701896397 / 36028797018963968),
       ball_alpha = Fin (3602879701896397 / 36028797018963968)\<rparr> (Fin 5))"
    using p1 p2 v1 v2 v3 v4 by (intro angles_pairs) (simp_all add: representable_def)
  show ?thesis
    unfolding a using r1 r2 r3 r4
    by (simp add: theta_ball_def theta_wheel_def travel_tenth_five fsub_def)
qed

lemma predict_quarter_left:
  "predict_for_direction [Fin 0, Fin 1] [Fin 0, Fin (1 / 4)] ''left'' = Inr 15"
proof -
  have r1: "rnd (21755149254200555 / 140737488355328) = Fin (5438787313550139 / 35184372088832)"
    using rnd_nearest [of 7 "21755149254200555 / 140737488355328" 5438787313550139] by (simp add: pow2_def)
  have r2: "rnd (21755149254200556 / 884279719003555) = Fin (3462439541507979 / 140737488355328)"
    using rnd_nearest [of 4 "21755149254200556 / 884279719003555" 6924879083015958] by (simp add: pow2_def)
  have r3: "rnd (128110263035795223 / 140737488355328) = Fin (8006891439737201 / 8796093022208)"
    using rnd_nearest [of 9 "128110263035795223 / 140737488355328" 8006891439737201] by (simp add: pow2_def)
  have f: "\<lfloor>8006891439737201 / 8796093022208 :: real\<rfloor> = 910"
    by (rule floor_unique) simp_all
  show ?thesis
    unfolding predict_for_direction_angles angles_quarter using r1 r2 r3 f
    by (simp add: relative_angle_def fsub_def fdiv_two_pi final_pocket_index_def scatter_offset_def
        direction_offset_def getitem_def ROULETTE_SEQUENCE_def)
qed

lemma predict_quarter_right:
  "predict_for_direction [Fin 0, Fin 1] [Fin 0, Fin (1 / 4)] ''right'' = Inr 4"
proof -
  have r1: "rnd (13264195785053325 / 140737488355328) = Fin (3316048946263331 / 35184372088832)"
    using rnd_tie [of 6 "13264195785053325 / 140737488355328" 6632097892526662 6632097892526662] by (simp add: pow2_def)
  have r2: "rnd (13264195785053324 / 884279719003555) = Fin (8444249301319679 / 562949953421312)"
    using rnd_nearest [of 3 "13264195785053324 / 884279719003555" 8444249301319679] by (simp add: pow2_def)
  have r3: "rnd (312437224148828123 / 562949953421312) = Fin (4881831627325439 / 8796093022208)"
    using rnd_nearest [of 9 "312437224148828123 / 562949953421312" 4881831627325439] by (simp add: pow2_def)
  have f: "\<lfloor>4881831627325439 / 8796093022208 :: real\<rfloor> = 554"
    by (rule floor_unique) simp_all
  show ?thesis
    unfolding predict_for_direction_angles angles_quarter using r1 r2 r3 f
    by (simp add: relative_angle_def fsub_def fdiv_two_pi final_pocket_index_def scatter_offset_def
        direction_offset_def getitem_def ROULETTE_SEQUENCE_def)
qed

text \<open>Wheel marks at 0 s and 1 s, ball marks at 0 s and \<open>2^-1018\<close> s (about 3.56e-307, a
  normal binary64 number).\<close>

lemma angles_tiny_period:
  "angles [Fin 0, Fin 1] [Fin 0, Fin (1 / 2 ^ 1018)] =
     Inr (Fin 88244055404566513404781305808696082442266734836321600083357568244332208116610510859450715570325255994798902635376379443738994411435696714038367769777198158303292404112741478147159713223537071151980601119795319428760339029654641820484500617662370296708966070650552826762000019069379501291145352708183241523200, Fin (4245476734573615 / 140737488355328))"
proof -
  have p1: "rnd 1 = Fin 1"
    using rnd_representable [of 1 0] by (simp add: pow2_def)
  have p2: "rnd (1 / 2808895523222368605827039360607851146278089029597354019897345018089573059460952548948569958162617750330001779372990521213418590137725259726450741103741783193402623334763523207442222181269470220616454421126328215138096104411600982523029892352200425580677351729446660909999175717788745567263052442650378502144) = Fin (1 / 2808895523222368605827039360607851146278089029597354019897345018089573059460952548948569958162617750330001779372990521213418590137725259726450741103741783193402623334763523207442222181269470220616454421126328215138096104411600982523029892352200425580677351729446660909999175717788745567263052442650378502144)"
    using rnd_representable [of 1 "- 1018"] by (simp add: pow2_def)
  have v1: "rnd 1 = Fin 1"
    using rnd_representable [of 1 0] by (simp add: pow2_def)
  have v2: "rnd (884279719003555 / 140737488355328) = Fin (884279719003555 / 140737488355328)"
    using rnd_representable [of 884279719003555 "- 47"] by (simp add: pow2_def)
  have v3: "rnd 2808895523222368605827039360607851146278089029597354019897345018089573059460952548948569958162617750330001779372990521213418590137725259726450741103741783193402623334763523207442222181269470220616454421126328215138096104411600982523029892352200425580677351729446660909999175717788745567263052442650378502144 = Fin 2808895523222368605827039360607851146278089029597354019897345018089573059460952548948569958162617750330001779372990521213418590137725259726450741103741783193402623334763523207442222181269470220616454421126328215138096104411600982523029892352200425580677351729446660909999175717788745567263052442650378502144"
    using rnd_representable [of 140737488355328 971] by (simp add: pow2_def)
  have v4: "rnd 17648811080913302680956261161739216488453346967264320016671513648866441623322102171890143114065051198959780527075275888747798882287139342807673553955439631660658480822548295629431942644707414230396120223959063885752067805930928364096900123532474059341793214130110565352400003813875900258229070541636648304640 = Fin 17648811080913302680956261161739216488453346967264320016671513648866441623322102171890143114065051198959780527075275888747798882287139342807673553955439631660658480822548295629431942644707414230396120223959063885752067805930928364096900123532474059341793214130110565352400003813875900258229070541636648304640"
    using rnd_representable [of 884279719003555 971] by (simp add: pow2_def)
  have r1: "rnd 88244055404566513404781305808696082442266734836321600083357568244332208116610510859450715570325255994798902635376379443738994411435696714038367769777198158303292404112741478147159713223537071151980601119795319428760339029654641820484500617662370296708966070650552826762000019069379501291145352708183241523200 = Fin 88244055404566513404781305808696082442266734836321600083357568244332208116610510859450715570325255994798902635376379443738994411435696714038367769777198158303292404112741478147159713223537071151980601119795319428760339029654641820484500617662370296708966070650552826762000019069379501291145352708183241523200"
    using rnd_representable [of 4421398595017775 971] by (simp add: pow2_def)
  have r2: "rnd (352976221618266053619125223234784329769066939345286400333430272977328832466442043437802862281301023979195610541505517774955977645742786856153471079108792633213169616450965912588638852894148284607922404479181277715041356118618567281938002470649481186835864282602211307048000076277518005164581410832732966092795 / 4) = Fin 88244055404566513404781305808696082442266734836321600083357568244332208116610510859450715570325255994798902635376379443738994411435696714038367769777198158303292404112741478147159713223537071151980601119795319428760339029654641820484500617662370296708966070650552826762000019069379501291145352708183241523200"
    using rnd_nearest [of 1022 "352976221618266053619125223234784329769066939345286400333430272977328832466442043437802862281301023979195610541505517774955977645742786856153471079108792633213169616450965912588638852894148284607922404479181277715041356118618567281938002470649481186835864282602211307048000076277518005164581410832732966092795 / 4" 8842797190035550] by (simp add: pow2_def)
  have r3: "rnd (4421398595017775 / 140737488355328) = Fin (4421398595017775 / 140737488355328)"
    using rnd_representable [of 4421398595017775 "- 47"] by (simp add: pow2_def)
  have r4: "rnd (4245476734573615 / 140737488355328) = Fin (4245476734573615 / 140737488355328)"
    using rnd_representable [of 4245476734573615 "- 47"] by (simp add: pow2_def)
  have a: "angles [Fin 0, Fin 1] [Fin 0, Fin (1 / 2 ^ 1018)] =
     Inr (theta_ball \<lparr>wheel_omega = Fin (884279719003555 / 140737488355328), ball_omega = Fin 17648811080913302680956261161739216488453346967264320016671513648866441623322102171890143114065051198959780527075275888747798882287139342807673553955439631660658480822548295629431942644707414230396120223959063885752067805930928364096900123532474059341793214130110565352400003813875900258229070541636648304640,
       wheel_alpha = Fin (3602879701896397 / 36028797018963968),
       ball_alpha = Fin (3602879701896397 / 36028797018963968)\<rparr> (Fin 5),
          theta_wheel \<lparr>wheel_omega = Fin (884279719003555 / 140737488355328), ball_omega = Fin 17648811080913302680956261161739216488453346967264320016671513648866441623322102171890143114065051198959780527075275888747798882287139342807673553955439631660658480822548295629431942644707414230396120223959063885752067805930928364096900123532474059341793214130110565352400003813875900258229070541636648304640,
       wheel_alpha = Fin (3602879701896397 / 36028797018963968),
       ball_alpha = Fin (3602879701896397 / 36028797018963968)\<rparr> (Fin 5))"
    using p1 p2 v1 v2 v3 v4 by (intro angles_pairs) (simp_all add: representable_def)
  show ?thesis
    unfolding a using r1 r2 r3 r4
    by (simp add: theta_ball_def theta_wheel_def travel_tenth_five fsub_def)
qed

lemma predict_tiny_period_left:
  "predict_for_direction [Fin 0, Fin 1] [Fin 0, Fin (1 / 2 ^ 1018)] ''left'' = Inl OverflowError"
proof -
  have r1: "rnd (12419246719927098544301058243969827028757886868871747511792816274915163216947049218414794371836967733837471184179356053069681556096387835290237457544430331377223982277900387796410356320954956449099996444620943365255956331044505544083860128653367063157369264649592826601902691367464511506293033017803802342770042042290183215 / 140737488355328) = Fin 88244055404566513404781305808696082442266734836321600083357568244332208116610510859450715570325255994798902635376379443738994411435696714038367769777198158303292404112741478147159713223537071151980601119795319428760339029654641820484500617662370296708966070650552826762000019069379501291145352708183241523200"
    using rnd_nearest [of 1022 "12419246719927098544301058243969827028757886868871747511792816274915163216947049218414794371836967733837471184179356053069681556096387835290237457544430331377223982277900387796410356320954956449099996444620943365255956331044505544083860128653367063157369264649592826601902691367464511506293033017803802342770042042290183215 / 140737488355328" 8842797190035550] by (simp add: pow2_def)
  have r2: "rnd 14044477616111843029135196803039255731390445147986770099486725090447865297304762744742849790813088751650008896864952606067092950688626298632253705518708915967013116673817616037211110906347351103082272105631641075690480522058004912615149461761002127903386758647233304549995878588943727836315262213251892510720 = Fin 14044477616111843029135196803039255731390445147986770099486725090447865297304762744742849790813088751650008896864952606067092950688626298632253705518708915967013116673817616037211110906347351103082272105631641075690480522058004912615149461761002127903386758647233304549995878588943727836315262213251892510720"
    using rnd_representable [of 703687441776640 971] by (simp add: pow2_def)
  have r3: "rnd 519645671796138192078002281712452462061446470475510493681008828346571016000276221555485442260084283811050329184003246424482439175479173049393387104192229890779485316931251793376811103534851990814044067908370719800547779316146181766760530085157078732425310069947632268349847507790917929943664701890320022896640 = PInf"
    by (rule rnd_overflow) simp
  show ?thesis
    unfolding predict_for_direction_angles angles_tiny_period using r1 r2 r3
    by (simp add: relative_angle_def fsub_def fdiv_two_pi final_pocket_index_def)
qed

lemma predict_tiny_period_right:
  "predict_for_direction [Fin 0, Fin 1] [Fin 0, Fin (1 / 2 ^ 1018)] ''right'' = Inl OverflowError"
proof -
  have r1: "rnd (12419246719927098544301058243969827028757886868871747511792816274915163216947049218414794371836967733837471184179356053069681556096387835290237457544430331377223982277900387796410356320954956449099996444620943365255956331044505544083860128653367063157369264649592826601902691367464511506293033017803802342761551088821035985 / 140737488355328) = Fin 88244055404566513404781305808696082442266734836321600083357568244332208116610510859450715570325255994798902635376379443738994411435696714038367769777198158303292404112741478147159713223537071151980601119795319428760339029654641820484500617662370296708966070650552826762000019069379501291145352708183241523200"
    using rnd_nearest [of 1022 "12419246719927098544301058243969827028757886868871747511792816274915163216947049218414794371836967733837471184179356053069681556096387835290237457544430331377223982277900387796410356320954956449099996444620943365255956331044505544083860128653367063157369264649592826601902691367464511506293033017803802342761551088821035985 / 140737488355328" 8842797190035550] by (simp add: pow2_def)
  have r2: "rnd 14044477616111843029135196803039255731390445147986770099486725090447865297304762744742849790813088751650008896864952606067092950688626298632253705518708915967013116673817616037211110906347351103082272105631641075690480522058004912615149461761002127903386758647233304549995878588943727836315262213251892510720 = Fin 14044477616111843029135196803039255731390445147986770099486725090447865297304762744742849790813088751650008896864952606067092950688626298632253705518708915967013116673817616037211110906347351103082272105631641075690480522058004912615149461761002127903386758647233304549995878588943727836315262213251892510720"
    using rnd_representable [of 703687441776640 971] by (simp add: pow2_def)
  have r3: "rnd 519645671796138192078002281712452462061446470475510493681008828346571016000276221555485442260084283811050329184003246424482439175479173049393387104192229890779485316931251793376811103534851990814044067908370719800547779316146181766760530085157078732425310069947632268349847507790917929943664701890320022896640 = PInf"
    by (rule rnd_overflow) simp
  show ?thesis
    unfolding predict_for_direction_angles angles_tiny_period using r1 r2 r3
    by (simp add: relative_angle_def fsub_def fdiv_two_pi final_pocket_index_def)
qed

section \<open>The angular velocity estimate\<close>

lemma periods_of_zip:
  "periods_of tms = map (\<lambda>(earlier, later). fsub later earlier) (zip tms (tl tms))"
proof (rule nth_equalityI)
  show "length (periods_of tms) = length (map (\<lambda>(earlier, later). fsub later earlier) (zip tms (tl tms)))"
    by simp
next
  fix i
  assume "i < length (periods_of tms)"
  then have i: "i < length tms - 1"
    by simp
  then have "periods_of tms ! i = fsub (tms ! Suc i) (tms ! i)"
    by (simp add: periods_of_def)
  moreover have "map (\<lambda>(earlier, later). fsub later earlier) (zip tms (tl tms)) ! i
      = fsub (tms ! Suc i) (tms ! i)"
    using i by (simp add: nth_tl)
  ultimately show "periods_of tms ! i = map (\<lambda>(earlier, later). fsub later earlier) (zip tms (tl tms)) ! i"
    by simp
qed

lemma calculate_angular_velocity_average:
  assumes "2 \<le> length tms"
  shows "\<exists>avg. average_period tms = Inr avg \<and>
           calculate_angular_velocity tms =
             (if fgt avg (Fin 0) then fdiv (Fin 1) avg else Inr (Fin 0))"
proof -
  have "float_of_nat (length tms - 1) \<noteq> Fin 0"
    using assms by (intro float_of_nat_nonzero) simp
  then obtain avg where avg: "average_period tms = Inr avg"
    unfolding average_period_def using fdiv_ok by blast
  then have "calculate_angular_velocity tms =
      (if fgt avg (Fin 0) then fdiv (Fin 1) avg else Inr (Fin 0))"
    using assms
    by (simp add: calculate_angular_velocity_def Let_def average_period_def periods_of_zip [symmetric])
  with avg show ?thesis
    by blast
qed

lemma periods_of_uniform:
  assumes "representable p"
  shows "periods_of (uniform_times t0 p n) = replicate (n - 1) (Fin p)"
proof (rule nth_equalityI)
  show "length (periods_of (uniform_times t0 p n)) = length (replicate (n - 1) (Fin p))"
    by (simp add: uniform_times_def)
next
  fix i
  assume "i < length (periods_of (uniform_times t0 p n))"
  then have i: "i < n - 1"
    by (simp add: uniform_times_def)
  have "t0 + (1 + real i) * p + - (t0 + real i * p) = p"
    by (simp add: algebra_simps)
  then have "rnd (t0 + (1 + real i) * p + - (t0 + real i * p)) = Fin p"
    using assms by (simp add: representable_def)
  then have "periods_of (uniform_times t0 p n) ! i = Fin p"
    using i by (simp add: periods_of_def uniform_times_def fsub_def)
  then show "periods_of (uniform_times t0 p n) ! i = replicate (n - 1) (Fin p) ! i"
    using i by simp
qed

lemma foldl_fadd_replicate:
  assumes "\<forall>k\<in>{1..m}. representable (real (j + k) * p)"
  shows "foldl fadd (Fin (real j * p)) (replicate m (Fin p)) = Fin (real (j + m) * p)"
  using assms
proof (induction m arbitrary: j)
  case 0
  then show ?case
    by simp
next
  case (Suc m)
  have "(1::nat) \<in> {1..Suc m}"
    by simp
  then have "representable (real (j + 1) * p)"
    using Suc.prems by blast
  moreover have "real j * p + p = real (j + 1) * p"
    by (simp add: algebra_simps)
  ultimately have step: "rnd (real j * p + p) = Fin (real (Suc j) * p)"
    by (simp add: representable_def)
  have "\<forall>k\<in>{1..m}. representable (real (Suc j + k) * p)"
  proof
    fix k
    assume "k \<in> {1..m}"
    then have "Suc k \<in> {1..Suc m}"
      by simp
    then have "representable (real (j + Suc k) * p)"
      using Suc.prems by blast
    then show "representable (real (Suc j + k) * p)"
      by simp
  qed
  then have "foldl fadd (Fin (real (Suc j) * p)) (replicate m (Fin p)) = Fin (real (Suc j + m) * p)"
    by (rule Suc.IH)
  then show ?case
    by (simp add: step)
qed

lemma calculate_angular_velocity_uniform:
  assumes "2 \<le> n" "n \<le> 2 ^ 53" "0 < p" "\<forall>k\<in>{1..n - 1}. representable (real k * p)"
  shows "calculate_angular_velocity (uniform_times t0 p n) = Inr (rnd (1 / p))"
proof -
  have m: "0 < real (n - 1)"
    using assms(1) by simp
  have "(1::nat) \<in> {1..n - 1}"
    using assms(1) by simp
  then have "representable (real 1 * p)"
    using assms(4) by blast
  then have p: "representable p"
    by simp
  have per: "periods_of (uniform_times t0 p n) = replicate (n - 1) (Fin p)"
    using p by (rule periods_of_uniform)
  have "foldl fadd (Fin (real 0 * p)) (replicate (n - 1) (Fin p)) = Fin (real (0 + (n - 1)) * p)"
    using assms(4) by (intro foldl_fadd_replicate) simp
  then have sum: "py_sum (replicate (n - 1) (Fin p)) = Fin (real (n - 1) * p)"
    by (simp add: py_sum_def)
  have "n - 1 < 2 ^ 53"
    using assms(1,2) by simp
  then have cnt: "float_of_nat (n - 1) = Fin (real (n - 1))"
    by (rule float_of_nat_exact)
  have "real (n - 1) * p / real (n - 1) = p"
    using m by simp
  then have avg: "fdiv (Fin (real (n - 1) * p)) (Fin (real (n - 1))) = Inr (Fin p)"
    using m p by (simp add: representable_def)
  have len: "length (uniform_times t0 p n) = n"
    by (simp add: uniform_times_def)
  have nlt: "\<not> n < 2"
    using assms(1) by simp
  have fg: "fgt (Fin p) (Fin 0)"
    using assms(3) by (simp add: fgt_def)
  have fd: "fdiv (Fin 1) (Fin p) = Inr (rnd (1 / p))"
    using assms(3) by simp
  show ?thesis
    unfolding calculate_angular_velocity_def Let_def len per length_replicate sum cnt avg
    using nlt fg fd by (simp only: if_False if_True ebind_Inr)
qed

subsection \<open>Worked inputs\<close>

lemma average_period_three:
  "average_period [Fin 0, Fin (1 / 2), Fin 1] = Inr (Fin (1 / 2))"
proof -
  have r1: "rnd (1 / 2) = Fin (1 / 2)"
    using rnd_representable [of 1 "- 1"] by (simp add: pow2_def)
  have r2: "rnd 1 = Fin 1"
    using rnd_representable [of 1 0] by (simp add: pow2_def)
  have r3: "rnd 2 = Fin 2"
    using rnd_representable [of 1 1] by (simp add: pow2_def)
  show ?thesis
    using r1 r2 r3
    by (simp add: average_period_def py_sum_def fsub_def float_of_nat_def)
qed

lemma calculate_angular_velocity_three:
  "calculate_angular_velocity [Fin 0, Fin (1 / 2), Fin 1] = Inr (Fin 2)"
proof -
  have r1: "rnd (1 / 2) = Fin (1 / 2)"
    using rnd_representable [of 1 "- 1"] by (simp add: pow2_def)
  have r2: "rnd 1 = Fin 1"
    using rnd_representable [of 1 0] by (simp add: pow2_def)
  have r3: "rnd 2 = Fin 2"
    using rnd_representable [of 1 1] by (simp add: pow2_def)
  have idx: "[1..<3] = [1, 2::nat]"
    by (simp add: upt_rec)
  show ?thesis
    using r1 r2 r3
    by (simp add: calculate_angular_velocity_def periods_of_def idx py_sum_def fsub_def fgt_def
        float_of_nat_def inf_signed_def)
qed

lemma average_period_same:
  "average_period [Fin 1, Fin 1] = Inr (Fin 0)"
proof -
  have r1: "rnd 1 = Fin 1"
    using rnd_representable [of 1 0] by (simp add: pow2_def)
  show ?thesis
    using r1
    by (simp add: average_period_def py_sum_def fsub_def float_of_nat_def)
qed

text \<open>The smallest positive float \<open>2^-1074\<close> (5e-324) as the only non-zero period: the
  average \<open>2^-1074 / 2\<close> underflows to zero.\<close>

lemma average_period_underflow:
  "average_period [Fin 0, Fin (1 / 2 ^ 1074), Fin (1 / 2 ^ 1074)] = Inr (Fin 0)"
proof -
  have r1: "rnd (1 / 202402253307310618352495346718917307049556649764142118356901358027430339567995346891960383701437124495187077864316811911389808737385793476867013399940738509921517424276566361364466907742093216341239767678472745068562007483424692698618103355649159556340810056512358769552333414615230502532186327508646006263307707741093494784) = Fin (1 / 202402253307310618352495346718917307049556649764142118356901358027430339567995346891960383701437124495187077864316811911389808737385793476867013399940738509921517424276566361364466907742093216341239767678472745068562007483424692698618103355649159556340810056512358769552333414615230502532186327508646006263307707741093494784)"
    using rnd_representable [of 1 "- 1074"] by (simp add: pow2_def)
  have r2: "rnd 2 = Fin 2"
    using rnd_representable [of 1 1] by (simp add: pow2_def)
  have r3: "rnd (1 / 404804506614621236704990693437834614099113299528284236713802716054860679135990693783920767402874248990374155728633623822779617474771586953734026799881477019843034848553132722728933815484186432682479535356945490137124014966849385397236206711298319112681620113024717539104666829230461005064372655017292012526615415482186989568) = Fin 0"
    using rnd_tie_subnormal [of "1 / 404804506614621236704990693437834614099113299528284236713802716054860679135990693783920767402874248990374155728633623822779617474771586953734026799881477019843034848553132722728933815484186432682479535356945490137124014966849385397236206711298319112681620113024717539104666829230461005064372655017292012526615415482186989568" 0 0] by (simp add: pow2_def)
  show ?thesis
    using r1 r2 r3
    by (simp add: average_period_def py_sum_def fsub_def float_of_nat_def)
qed

lemma calculate_angular_velocity_underflow:
  "calculate_angular_velocity [Fin 0, Fin (1 / 2 ^ 1074), Fin (1 / 2 ^ 1074)] = Inr (Fin 0)"
proof -
  have r1: "rnd (1 / 202402253307310618352495346718917307049556649764142118356901358027430339567995346891960383701437124495187077864316811911389808737385793476867013399940738509921517424276566361364466907742093216341239767678472745068562007483424692698618103355649159556340810056512358769552333414615230502532186327508646006263307707741093494784) = Fin (1 / 202402253307310618352495346718917307049556649764142118356901358027430339567995346891960383701437124495187077864316811911389808737385793476867013399940738509921517424276566361364466907742093216341239767678472745068562007483424692698618103355649159556340810056512358769552333414615230502532186327508646006263307707741093494784)"
    using rnd_representable [of 1 "- 1074"] by (simp add: pow2_def)
  have r2: "rnd 2 = Fin 2"
    using rnd_representable [of 1 1] by (simp add: pow2_def)
  have r3: "rnd (1 / 404804506614621236704990693437834614099113299528284236713802716054860679135990693783920767402874248990374155728633623822779617474771586953734026799881477019843034848553132722728933815484186432682479535356945490137124014966849385397236206711298319112681620113024717539104666829230461005064372655017292012526615415482186989568) = Fin 0"
    using rnd_tie_subnormal [of "1 / 404804506614621236704990693437834614099113299528284236713802716054860679135990693783920767402874248990374155728633623822779617474771586953734026799881477019843034848553132722728933815484186432682479535356945490137124014966849385397236206711298319112681620113024717539104666829230461005064372655017292012526615415482186989568" 0 0] by (simp add: pow2_def)
  have idx: "[1..<3] = [1, 2::nat]"
    by (simp add: upt_rec)
  show ?thesis
    using r1 r2 r3
    by (simp add: calculate_angular_velocity_def periods_of_def idx py_sum_def fsub_def fgt_def
        float_of_nat_def inf_signed_def)
qed

text \<open>Marks every 0.7 s, at -0.7, 0.0, 0.7 and 1.4 s: the sum of the three periods is
  rounded, the average is one unit in the last place above 0.7, and the result is
  \<open>1.4285714285714288\<close> where \<open>1.0 / 0.7\<close> is \<open>1.4285714285714286\<close>.\<close>

lemma calculate_angular_velocity_seven_tenths:
  "calculate_angular_velocity [Fin (- (3152519739159347 / 4503599627370496)), Fin 0, Fin (3152519739159347 / 4503599627370496), Fin (3152519739159347 / 2251799813685248)] = Inr (Fin (804214219173303 / 562949953421312))"
proof -
  have r1: "rnd (3152519739159347 / 4503599627370496) = Fin (3152519739159347 / 4503599627370496)"
    using rnd_representable [of 3152519739159347 "- 52"] by (simp add: pow2_def)
  have r2: "rnd (3152519739159347 / 2251799813685248) = Fin (3152519739159347 / 2251799813685248)"
    using rnd_representable [of 3152519739159347 "- 51"] by (simp add: pow2_def)
  have r3: "rnd (9457559217478041 / 4503599627370496) = Fin (1182194902184755 / 562949953421312)"
    using rnd_tie [of 1 "9457559217478041 / 4503599627370496" 4728779608739020 4728779608739020] by (simp add: pow2_def)
  have r4: "rnd 3 = Fin 3"
    using rnd_representable [of 3 0] by (simp add: pow2_def)
  have r5: "rnd (1182194902184755 / 1688849860263936) = Fin (6305039478318693 / 9007199254740992)"
    using rnd_nearest [of "- 1" "1182194902184755 / 1688849860263936" 6305039478318693] by (simp add: pow2_def)
  have r6: "rnd (9007199254740992 / 6305039478318693) = Fin (804214219173303 / 562949953421312)"
    using rnd_nearest [of 0 "9007199254740992 / 6305039478318693" 6433713753386424] by (simp add: pow2_def)
  have idx: "[1..<4] = [1, 2, 3::nat]"
    by (simp add: upt_rec)
  show ?thesis
    using r1 r2 r3 r4 r5 r6
    by (simp add: calculate_angular_velocity_def periods_of_def idx py_sum_def fsub_def fgt_def
        float_of_nat_def inf_signed_def)
qed

lemma reciprocal_seven_tenths:
  "rnd (4503599627370496 / 3152519739159347) = Fin (6433713753386423 / 4503599627370496)"
  using rnd_nearest [of 0 "4503599627370496 / 3152519739159347" 6433713753386423] by (simp add: pow2_def)

lemma seven_tenths:
  "rnd (7 / 10) = Fin (3152519739159347 / 4503599627370496)"
  using rnd_nearest [of "- 1" "7 / 10" 6305039478318694] by (simp add: pow2_def)

section \<open>The drop time\<close>

lemma t_drop_spec_eq:
  "t_drop_spec e =
     ebind (if fgt (ball_omega e) (Fin vc)
            then fdiv (fsub (ball_omega e) (Fin vc)) (ball_alpha e)
            else Inr (Fin 3)) (\<lambda>t0. Inr (clamp_t t0))"
  unfolding t_drop_spec_def critical_velocity_squared_eq ebind_Inr math_sqrt_cvs
  by (simp add: clamp_t_def Let_def)

lemma ball_alpha_default_positive:
  "ball_alpha e \<noteq> NaN \<Longrightarrow> fgt (ball_alpha (apply_defaults e)) (Fin 0)"
  by (cases "ball_alpha e") (auto simp: apply_defaults_fields fle_def fgt_def tenth)

lemma t_drop_after_defaults:
  "t_drop (apply_defaults e) =
     (if ball_alpha e = NaN then Inr (Fin 3) else t_drop_spec (apply_defaults e))"
proof (cases "ball_alpha e = NaN")
  case True
  then have "ball_alpha (apply_defaults e) = NaN"
    by (simp add: apply_defaults_fields fle_def)
  then show ?thesis
    using True by (simp add: t_drop_eq fgt_def clamp_t_def)
next
  case False
  then show ?thesis
    using ball_alpha_default_positive [OF False] by (simp add: t_drop_eq t_drop_spec_eq)
qed

text \<open>Three ball marks whose first gap \<open>2^-1030\<close> s is so small that \<open>2\<pi> / dt\<close> overflows: the
  first velocity sample is infinite and the fitted slope is \<open>inf - inf\<close>.\<close>

lemma calculate_deceleration_tiny_gap:
  "calculate_deceleration [Fin 0, Fin (1 / 2 ^ 1030), Fin 1] = Inr (NaN)"
proof -
  have r1: "rnd (1 / 11505236063118821809467553221049758295155052665230762065499525194094891251552061640493342548634082305351687288311769174890162545204122663839542235560926343960177145179191391057683342054479750023644997308933440369205641643669917624414330439074612943178454432683813523087356623740062701843509462805095950344781824) = Fin (1 / 11505236063118821809467553221049758295155052665230762065499525194094891251552061640493342548634082305351687288311769174890162545204122663839542235560926343960177145179191391057683342054479750023644997308933440369205641643669917624414330439074612943178454432683813523087356623740062701843509462805095950344781824)"
    using rnd_representable [of 1 "- 1030"] by (simp add: pow2_def)
  have r2: "rnd 72289530187420887781196845718483830736704909177914654788286519905756944889127330496062026195210449710939261038900330040310984221848122748140230877001480731282057137449157818898153237072721568687702508437336325676040469733093082579340902905989013747063985005076932875683430415621635687457706272938543711455805440 = PInf"
    by (rule rnd_overflow) simp
  have r3: "rnd (1 / 23010472126237643618935106442099516590310105330461524130999050388189782503104123280986685097268164610703374576623538349780325090408245327679084471121852687920354290358382782115366684108959500047289994617866880738411283287339835248828660878149225886356908865367627046174713247480125403687018925610191900689563648) = Fin (1 / 23010472126237643618935106442099516590310105330461524130999050388189782503104123280986685097268164610703374576623538349780325090408245327679084471121852687920354290358382782115366684108959500047289994617866880738411283287339835248828660878149225886356908865367627046174713247480125403687018925610191900689563648)"
    using rnd_representable [of 1 "- 1031"] by (simp add: pow2_def)
  have r4: "rnd (11505236063118821809467553221049758295155052665230762065499525194094891251552061640493342548634082305351687288311769174890162545204122663839542235560926343960177145179191391057683342054479750023644997308933440369205641643669917624414330439074612943178454432683813523087356623740062701843509462805095950344781823 / 11505236063118821809467553221049758295155052665230762065499525194094891251552061640493342548634082305351687288311769174890162545204122663839542235560926343960177145179191391057683342054479750023644997308933440369205641643669917624414330439074612943178454432683813523087356623740062701843509462805095950344781824) = Fin 1"
    using rnd_nearest [of "- 1" "11505236063118821809467553221049758295155052665230762065499525194094891251552061640493342548634082305351687288311769174890162545204122663839542235560926343960177145179191391057683342054479750023644997308933440369205641643669917624414330439074612943178454432683813523087356623740062701843509462805095950344781823 / 11505236063118821809467553221049758295155052665230762065499525194094891251552061640493342548634082305351687288311769174890162545204122663839542235560926343960177145179191391057683342054479750023644997308933440369205641643669917624414330439074612943178454432683813523087356623740062701843509462805095950344781824" 9007199254740992] by (simp add: pow2_def)
  have r5: "rnd (884279719003555 / 140737488355328) = Fin (884279719003555 / 140737488355328)"
    using rnd_representable [of 884279719003555 "- 47"] by (simp add: pow2_def)
  have r6: "rnd (11505236063118821809467553221049758295155052665230762065499525194094891251552061640493342548634082305351687288311769174890162545204122663839542235560926343960177145179191391057683342054479750023644997308933440369205641643669917624414330439074612943178454432683813523087356623740062701843509462805095950344781825 / 11505236063118821809467553221049758295155052665230762065499525194094891251552061640493342548634082305351687288311769174890162545204122663839542235560926343960177145179191391057683342054479750023644997308933440369205641643669917624414330439074612943178454432683813523087356623740062701843509462805095950344781824) = Fin 1"
    using rnd_nearest [of 0 "11505236063118821809467553221049758295155052665230762065499525194094891251552061640493342548634082305351687288311769174890162545204122663839542235560926343960177145179191391057683342054479750023644997308933440369205641643669917624414330439074612943178454432683813523087356623740062701843509462805095950344781825 / 11505236063118821809467553221049758295155052665230762065499525194094891251552061640493342548634082305351687288311769174890162545204122663839542235560926343960177145179191391057683342054479750023644997308933440369205641643669917624414330439074612943178454432683813523087356623740062701843509462805095950344781824" 4503599627370496] by (simp add: pow2_def)
  have r7: "rnd (1 / 2) = Fin (1 / 2)"
    using rnd_representable [of 1 "- 1"] by (simp add: pow2_def)
  have r8: "rnd 2 = Fin 2"
    using rnd_representable [of 1 1] by (simp add: pow2_def)
  have r9: "rnd (11505236063118821809467553221049758295155052665230762065499525194094891251552061640493342548634082305351687288311769174890162545204122663839542235560926343960177145179191391057683342054479750023644997308933440369205641643669917624414330439074612943178454432683813523087356623740062701843509462805095950344781825 / 23010472126237643618935106442099516590310105330461524130999050388189782503104123280986685097268164610703374576623538349780325090408245327679084471121852687920354290358382782115366684108959500047289994617866880738411283287339835248828660878149225886356908865367627046174713247480125403687018925610191900689563648) = Fin (1 / 2)"
    using rnd_nearest [of "- 1" "11505236063118821809467553221049758295155052665230762065499525194094891251552061640493342548634082305351687288311769174890162545204122663839542235560926343960177145179191391057683342054479750023644997308933440369205641643669917624414330439074612943178454432683813523087356623740062701843509462805095950344781825 / 23010472126237643618935106442099516590310105330461524130999050388189782503104123280986685097268164610703374576623538349780325090408245327679084471121852687920354290358382782115366684108959500047289994617866880738411283287339835248828660878149225886356908865367627046174713247480125403687018925610191900689563648" 4503599627370496] by (simp add: pow2_def)
  have r10: "rnd (884279719003555 / 281474976710656) = Fin (884279719003555 / 281474976710656)"
    using rnd_representable [of 884279719003555 "- 48"] by (simp add: pow2_def)
  have r11: "rnd (1 / 529481827472359543614912539667168492919916178140618490382423579484563949795211524394142947926391414189075955071744377151391654857121643251221924288699568670648416294785859519967235239942384060117746608347284563038646963710240682084955555337641593576990009685639762821822670043407008822208226138507246475436391044438256326122220502626903073906603723588162786460599546767922479533141335413787037836785486677880437860003323279070946891385279310166497750181695214177996425227218302078316136973954694042803727213241641479338967793619244695529688523164326124541305546377386938033842508897953463535996003219105563600424643067904) = Fin 0"
    using rnd_nearest_subnormal [of "1 / 529481827472359543614912539667168492919916178140618490382423579484563949795211524394142947926391414189075955071744377151391654857121643251221924288699568670648416294785859519967235239942384060117746608347284563038646963710240682084955555337641593576990009685639762821822670043407008822208226138507246475436391044438256326122220502626903073906603723588162786460599546767922479533141335413787037836785486677880437860003323279070946891385279310166497750181695214177996425227218302078316136973954694042803727213241641479338967793619244695529688523164326124541305546377386938033842508897953463535996003219105563600424643067904" 0] by (simp add: pow2_def)
  have r12: "rnd (1 / 4) = Fin (1 / 4)"
    using rnd_representable [of 1 "- 2"] by (simp add: pow2_def)
  have idx: "[1..<3] = [1, 2::nat]"
    by (simp add: upt_rec)
  show ?thesis
    using r1 r2 r3 r4 r5 r6 r7 r8 r9 r10 r11 r12
    by (simp add: calculate_deceleration_def idx Let_def py_sum_def fsub_def fle_def fgt_def
        float_of_nat_def inf_signed_def two_pi rnd_minus)
qed

lemma calculate_angular_velocity_tiny_gap:
  "calculate_angular_velocity [Fin 0, Fin (1 / 2 ^ 1030), Fin 1] = Inr (Fin 2)"
proof -
  have r1: "rnd (1 / 11505236063118821809467553221049758295155052665230762065499525194094891251552061640493342548634082305351687288311769174890162545204122663839542235560926343960177145179191391057683342054479750023644997308933440369205641643669917624414330439074612943178454432683813523087356623740062701843509462805095950344781824) = Fin (1 / 11505236063118821809467553221049758295155052665230762065499525194094891251552061640493342548634082305351687288311769174890162545204122663839542235560926343960177145179191391057683342054479750023644997308933440369205641643669917624414330439074612943178454432683813523087356623740062701843509462805095950344781824)"
    using rnd_representable [of 1 "- 1030"] by (simp add: pow2_def)
  have r2: "rnd (11505236063118821809467553221049758295155052665230762065499525194094891251552061640493342548634082305351687288311769174890162545204122663839542235560926343960177145179191391057683342054479750023644997308933440369205641643669917624414330439074612943178454432683813523087356623740062701843509462805095950344781823 / 11505236063118821809467553221049758295155052665230762065499525194094891251552061640493342548634082305351687288311769174890162545204122663839542235560926343960177145179191391057683342054479750023644997308933440369205641643669917624414330439074612943178454432683813523087356623740062701843509462805095950344781824) = Fin 1"
    using rnd_nearest [of "- 1" "11505236063118821809467553221049758295155052665230762065499525194094891251552061640493342548634082305351687288311769174890162545204122663839542235560926343960177145179191391057683342054479750023644997308933440369205641643669917624414330439074612943178454432683813523087356623740062701843509462805095950344781823 / 11505236063118821809467553221049758295155052665230762065499525194094891251552061640493342548634082305351687288311769174890162545204122663839542235560926343960177145179191391057683342054479750023644997308933440369205641643669917624414330439074612943178454432683813523087356623740062701843509462805095950344781824" 9007199254740992] by (simp add: pow2_def)
  have r3: "rnd (11505236063118821809467553221049758295155052665230762065499525194094891251552061640493342548634082305351687288311769174890162545204122663839542235560926343960177145179191391057683342054479750023644997308933440369205641643669917624414330439074612943178454432683813523087356623740062701843509462805095950344781825 / 11505236063118821809467553221049758295155052665230762065499525194094891251552061640493342548634082305351687288311769174890162545204122663839542235560926343960177145179191391057683342054479750023644997308933440369205641643669917624414330439074612943178454432683813523087356623740062701843509462805095950344781824) = Fin 1"
    using rnd_nearest [of 0 "11505236063118821809467553221049758295155052665230762065499525194094891251552061640493342548634082305351687288311769174890162545204122663839542235560926343960177145179191391057683342054479750023644997308933440369205641643669917624414330439074612943178454432683813523087356623740062701843509462805095950344781825 / 11505236063118821809467553221049758295155052665230762065499525194094891251552061640493342548634082305351687288311769174890162545204122663839542235560926343960177145179191391057683342054479750023644997308933440369205641643669917624414330439074612943178454432683813523087356623740062701843509462805095950344781824" 4503599627370496] by (simp add: pow2_def)
  have r4: "rnd 2 = Fin 2"
    using rnd_representable [of 1 1] by (simp add: pow2_def)
  have r5: "rnd (1 / 2) = Fin (1 / 2)"
    using rnd_representable [of 1 "- 1"] by (simp add: pow2_def)
  have idx: "[1..<3] = [1, 2::nat]"
    by (simp add: upt_rec)
  show ?thesis
    using r1 r2 r3 r4 r5
    by (simp add: calculate_angular_velocity_def periods_of_def idx py_sum_def fsub_def fgt_def
        float_of_nat_def inf_signed_def)
qed

lemma two_pi_one: "fmul (fmul (Fin 2) math_pi) (Fin 1) = Fin (884279719003555 / 140737488355328)"
  unfolding two_pi
  using rnd_representable [of 884279719003555 "- 47"]
  by (simp add: pow2_def)

lemma calculate_angular_velocity_unit: "calculate_angular_velocity [Fin 0, Fin 1] = Inr (Fin 1)"
proof -
  have "rnd 1 = Fin 1"
    using representable_1 by (simp add: representable_def)
  then show ?thesis
    using calculate_angular_velocity_pair [of 1] by simp
qed

lemma raw_estimates_tiny_gap:
  "raw_estimates [Fin 0, Fin 1] [Fin 0, Fin (1 / 2 ^ 1030), Fin 1] =
     Inr \<lparr>wheel_omega = fmul (fmul (Fin 2) math_pi) (Fin 1),
          ball_omega = fmul (fmul (Fin 2) math_pi) (Fin 2),
          wheel_alpha = Fin 0, ball_alpha = NaN\<rparr>"
proof -
  have "calculate_deceleration [Fin 0, Fin 1] = Inr (Fin 0)"
    by (rule calculate_deceleration_short) simp
  then show ?thesis
    by (simp only: raw_estimates_def calculate_angular_velocity_unit ebind_Inr
        calculate_angular_velocity_tiny_gap calculate_deceleration_tiny_gap)
qed

lemma nan_estimates_drop_times:
  assumes "wheel_omega e = Fin a" "ball_omega e = Fin b" "3 < b" "ball_alpha e = NaN"
  shows "t_drop (apply_defaults e) = Inr (Fin 3)" "t_drop_spec (apply_defaults e) = Inr NaN"
proof -
  have f: "ball_alpha (apply_defaults e) = NaN" "ball_omega (apply_defaults e) = Fin b"
    using assms by (simp_all add: apply_defaults_fields fle_def)
  show "t_drop (apply_defaults e) = Inr (Fin 3)"
    by (simp add: t_drop_eq f fgt_def clamp_t_def)
  have "vc < b"
    using vc_bounds assms(3) by linarith
  then show "t_drop_spec (apply_defaults e) = Inr NaN"
    by (simp add: t_drop_spec_eq f fgt_def clamp_t_def)
qed

lemma plain_estimates_drop_times:
  assumes "ball_omega e = Fin b" "5 \<le> b" "ball_alpha e = Fin 0"
  shows "t_drop (apply_defaults e) = Inr (Fin 5)"
proof (rule t_drop_five)
  show "ball_alpha (apply_defaults e) = Fin (3602879701896397 / 36028797018963968)"
    using assms by (simp add: apply_defaults_fields fle_def tenth)
  show "ball_omega (apply_defaults e) = Fin b"
    using assms by (simp add: apply_defaults_fields fle_def)
  show "5 \<le> b"
    by (rule assms(2))
qed simp_all

section \<open>The deceleration estimate\<close>

lemma kept_samples_returns: "\<exists>samples. kept_samples tms = Inr samples"
proof (induction tms rule: kept_samples.induct)
  case (1 earlier later rest)
  let ?dt = "fsub later earlier"
  show ?case
  proof (cases "fle ?dt (Fin 0)")
    case True
    then show ?thesis
      using "1.IH"(1) [OF refl True] by (simp add: Let_def)
  next
    case False
    then have "?dt \<noteq> Fin 0"
      by (auto simp: fle_zero_iff)
    then obtain v where v: "fdiv (fmul (Fin 2) math_pi) ?dt = Inr v"
      using fdiv_ok by blast
    obtain m where m: "fdiv (fadd later earlier) (Fin 2) = Inr m"
      using fdiv_ok [of "Fin 2"] by auto
    obtain ss where "kept_samples (later # rest) = Inr ss"
      using "1.IH"(2) [OF refl False] by blast
    then show ?thesis
      using False v m by (simp add: Let_def)
  qed
qed simp_all

lemma sample_loop_kept_samples:
  assumes "1 \<le> k" "k \<le> length tms"
  shows "sample_loop tms [k..<length tms] vs ps =
     ebind (kept_samples (drop (k - 1) tms)) (\<lambda>ss. Inr (vs @ map snd ss, ps @ map fst ss))"
  using assms
proof (induction "length tms - k" arbitrary: k vs ps)
  case 0
  then have k: "k = length tms"
    by simp
  have "k - 1 < length tms"
    using k "0.prems"(1) by simp
  then have "drop (k - 1) tms = tms ! (k - 1) # drop (Suc (k - 1)) tms"
    by (simp add: Cons_nth_drop_Suc)
  then have "drop (k - 1) tms = [tms ! (k - 1)]"
    using k "0.prems"(1) by simp
  then show ?case
    by (simp add: k)
next
  case (Suc d)
  then have lt: "k < length tms"
    by simp
  have idx: "[k..<length tms] = k # [Suc k..<length tms]"
    using lt by (rule upt_conv_Cons)
  define x where "x = tms ! (k - 1)"
  define y where "y = tms ! k"
  define rest where "rest = drop (Suc k) tms"
  have d1: "drop k tms = y # rest"
    using lt by (simp add: Cons_nth_drop_Suc y_def rest_def)
  have "k - 1 < length tms"
    using lt by simp
  then have "drop (k - 1) tms = tms ! (k - 1) # drop (Suc (k - 1)) tms"
    by (simp add: Cons_nth_drop_Suc)
  then have d0: "drop (k - 1) tms = x # y # rest"
    using Suc.prems(1) d1 by (simp add: x_def)
  have IH: "sample_loop tms [Suc k..<length tms] vs' ps' =
     ebind (kept_samples (y # rest)) (\<lambda>ss. Inr (vs' @ map snd ss, ps' @ map fst ss))" for vs' ps'
    using Suc.hyps(1) [of "Suc k" vs' ps'] Suc.hyps(2) lt by (simp add: d1)
  have step: "sample_loop tms [k..<length tms] vs ps =
     (if fle (fsub y x) (Fin 0) then sample_loop tms [Suc k..<length tms] vs ps
      else ebind (fdiv (fmul (Fin 2) math_pi) (fsub y x)) (\<lambda>v.
           ebind (fdiv (fadd y x) (Fin 2)) (\<lambda>m.
             sample_loop tms [Suc k..<length tms] (vs @ [v]) (ps @ [m]))))"
    unfolding idx x_def y_def by (simp add: Let_def)
  obtain ss where ss: "kept_samples (y # rest) = Inr ss"
    using kept_samples_returns by blast
  show ?case
  proof (cases "fle (fsub y x) (Fin 0)")
    case True
    have "sample_loop tms [k..<length tms] vs ps = sample_loop tms [Suc k..<length tms] vs ps"
      using True by (simp add: step)
    moreover have "kept_samples (x # y # rest) = kept_samples (y # rest)"
      using True by (simp add: Let_def)
    ultimately show ?thesis
      unfolding d0 by (simp add: IH)
  next
    case False
    then have "fsub y x \<noteq> Fin 0"
      by (auto simp: fle_zero_iff)
    then obtain v where v: "fdiv (fmul (Fin 2) math_pi) (fsub y x) = Inr v"
      using fdiv_ok by blast
    obtain m where m: "fdiv (fadd y x) (Fin 2) = Inr m"
      using fdiv_ok [of "Fin 2"] by auto
    have "sample_loop tms [k..<length tms] vs ps = Inr ((vs @ [v]) @ map snd ss, (ps @ [m]) @ map fst ss)"
      using False v m ss by (simp add: step IH)
    moreover have "kept_samples (x # y # rest) = Inr ((m, v) # ss)"
      using False v m ss by (simp add: Let_def)
    ultimately show ?thesis
      unfolding d0 by simp
  qed
qed

lemma calculate_deceleration_kept_samples:
  assumes "kept_samples tms = Inr samples"
  shows "calculate_deceleration tms =
     (if length tms < 3 \<or> length samples < 2 \<or> feq (regression_denominator samples) (Fin 0)
      then Inr (Fin 0)
      else ebind (least_squares_slope samples) (\<lambda>slope. Inr (fneg slope)))"
proof (cases "length tms < 3")
  case True
  then show ?thesis
    by (simp add: calculate_deceleration_def)
next
  case False
  have "sample_loop tms [1..<length tms] [] [] =
     ebind (kept_samples (drop (1 - 1) tms)) (\<lambda>ss. Inr ([] @ map snd ss, [] @ map fst ss))"
    using False by (intro sample_loop_kept_samples) simp_all
  then have loop: "sample_loop tms [1..<length tms] [] [] = Inr (map snd samples, map fst samples)"
    using assms by simp
  have z: "zip (map fst samples) (map snd samples) = samples"
    by (simp add: zip_map_fst_snd)
  have sq: "map ((\<lambda>x. fmul x x) \<circ> fst) samples = map (\<lambda>(x, y). fmul x x) samples"
    by (simp add: case_prod_unfold comp_def)
  show ?thesis
    using False loop
    by (simp add: calculate_deceleration_def Let_def z sq regression_denominator_def
        least_squares_slope_def)
qed

text \<open>For finite timestamps no gap is NaN, and the pairs kept are the pairs with a
  positive gap.\<close>

lemma fle_iff_not_fgt: "d \<noteq> NaN \<Longrightarrow> fle d (Fin 0) \<longleftrightarrow> \<not> fgt d (Fin 0)"
  by (cases d) (auto simp: fle_def fgt_def)

lemma fsub_Fin_not_NaN [simp]: "fsub (Fin a) (Fin b) \<noteq> NaN"
  by (simp add: fsub_def)

lemma kept_samples_finite:
  "list_all isfinite tms \<Longrightarrow> kept_samples tms = gap_samples tms"
proof (induction tms rule: kept_samples.induct)
  case (1 earlier later rest)
  from "1.prems" obtain a b where ab: "earlier = Fin a" "later = Fin b"
    by (cases earlier; cases later) simp_all
  have nn: "fsub later earlier \<noteq> NaN"
    unfolding ab by (rule fsub_Fin_not_NaN)
  have rest: "list_all isfinite (later # rest)"
    using "1.prems" by simp
  show ?case
  proof (cases "fle (fsub later earlier) (Fin 0)")
    case True
    then show ?thesis
      using "1.IH"(1) [OF refl True rest] nn by (simp add: Let_def fle_iff_not_fgt)
  next
    case False
    then have "fsub later earlier \<noteq> Fin 0"
      by (auto simp: fle_zero_iff)
    then obtain v where v: "fdiv (fmul (Fin 2) math_pi) (fsub later earlier) = Inr v"
      using fdiv_ok by blast
    obtain m where m: "fdiv (fadd later earlier) (Fin 2) = Inr m"
      using fdiv_ok [of "Fin 2"] by auto
    show ?thesis
      using "1.IH"(2) [OF refl False rest] False nn v m
      by (simp add: Let_def fle_iff_not_fgt)
  qed
qed simp_all

text \<open>The least-squares property of the slope formula, over the reals.\<close>

lemma residual_sum:
  "(\<Sum>(x, y)\<leftarrow>pts. y - (a + b * x)) =
     (\<Sum>(x, y)\<leftarrow>pts. y) - real (length pts) * a - b * (\<Sum>(x, y)\<leftarrow>pts. x)"
proof (induction pts)
  case Nil
  show ?case
    by simp
next
  case (Cons p pts)
  then show ?case
    by (cases p) (simp add: algebra_simps)
qed

lemma residual_x_sum:
  fixes a b :: real
  shows "(\<Sum>(x, y)\<leftarrow>pts. (y - (a + b * x)) * x) =
     (\<Sum>(x, y)\<leftarrow>pts. x * y) - a * (\<Sum>(x, y)\<leftarrow>pts. x) - b * (\<Sum>(x, y)\<leftarrow>pts. x * x)"
proof (induction pts)
  case Nil
  show ?case
    by simp
next
  case (Cons p pts)
  then show ?case
    by (cases p) (simp add: algebra_simps)
qed

lemma squared_error_expand:
  "squared_error a' b' pts =
     squared_error a b pts
     - 2 * (a' - a) * (\<Sum>(x, y)\<leftarrow>pts. y - (a + b * x))
     - 2 * (b' - b) * (\<Sum>(x, y)\<leftarrow>pts. (y - (a + b * x)) * x)
     + (\<Sum>(x, y)\<leftarrow>pts. ((a' - a) + (b' - b) * x) * ((a' - a) + (b' - b) * x))"
proof (induction pts)
  case Nil
  show ?case
    by (simp add: squared_error_def)
next
  case (Cons p pts)
  then show ?case
    by (cases p) (simp add: algebra_simps squared_error_def)
qed

lemma sum_list_squares_nonneg:
  "0 \<le> (\<Sum>(x, y)\<leftarrow>pts. (c + d * x) * (c + d * x))" for c d :: real
  by (induction pts) auto

lemma normal_equations:
  fixes n sx sy sxy sxx a b :: real
  assumes "n * sxx - sx * sx \<noteq> 0" "n \<noteq> 0"
    and b: "b = (n * sxy - sx * sy) / (n * sxx - sx * sx)"
    and a: "a = (sy - b * sx) / n"
  shows "sy - n * a - b * sx = 0" "sxy - a * sx - b * sxx = 0"
proof -
  have na: "n * a = sy - b * sx"
    using assms(2) a by simp
  then show "sy - n * a - b * sx = 0"
    by simp
  have bd: "b * (n * sxx - sx * sx) = n * sxy - sx * sy"
    using assms(1) b by simp
  have "n * (sxy - a * sx - b * sxx) = n * sxy - (n * a) * sx - b * (n * sxx)"
    by (simp add: algebra_simps)
  also have "\<dots> = (n * sxy - sx * sy) - b * (n * sxx - sx * sx)"
    unfolding na by (simp add: algebra_simps)
  also have "\<dots> = 0"
    using bd by simp
  finally show "sxy - a * sx - b * sxx = 0"
    using assms(2) by simp
qed

lemma slope_formula_least_squares:
  assumes "real (length pts) * (\<Sum>(x, y)\<leftarrow>pts. x * x) - (\<Sum>(x, y)\<leftarrow>pts. x) * (\<Sum>(x, y)\<leftarrow>pts. x) \<noteq> 0"
  shows "squared_error (intercept_formula pts) (slope_formula pts) pts \<le> squared_error a b pts"
proof -
  have n: "real (length pts) \<noteq> 0"
    using assms by (cases pts) auto
  note ne = normal_equations [OF assms n, of "slope_formula pts" "\<Sum>(x, y)\<leftarrow>pts. x * y"
      "\<Sum>(x, y)\<leftarrow>pts. y" "intercept_formula pts"]
  have r1: "(\<Sum>(x, y)\<leftarrow>pts. y - (intercept_formula pts + slope_formula pts * x)) = 0"
    unfolding residual_sum by (rule ne(1)) (simp_all add: slope_formula_def intercept_formula_def)
  have r2: "(\<Sum>(x, y)\<leftarrow>pts. (y - (intercept_formula pts + slope_formula pts * x)) * x) = 0"
    unfolding residual_x_sum by (rule ne(2)) (simp_all add: slope_formula_def intercept_formula_def)
  show ?thesis
    using squared_error_expand [of a b pts "intercept_formula pts" "slope_formula pts"]
      sum_list_squares_nonneg [of "a - intercept_formula pts" "b - slope_formula pts" pts]
    by (simp add: r1 r2)
qed

text \<open>The float fit is the real fit when no operation rounds.\<close>

lemma foldl_fadd_exact:
  "partial_sums_exact acc xs \<Longrightarrow> foldl fadd (Fin acc) (map Fin xs) = Fin (acc + sum_list xs)"
  by (induction xs arbitrary: acc) (auto simp: representable_def algebra_simps)

lemma py_sum_exact:
  "partial_sums_exact 0 xs \<Longrightarrow> py_sum (map Fin xs) = Fin (sum_list xs)"
  using foldl_fadd_exact [of 0 xs] by (simp add: py_sum_def)

lemma least_squares_slope_exact:
  assumes "fit_exact pts"
    and "real (length pts) * (\<Sum>(x, y)\<leftarrow>pts. x * x) - (\<Sum>(x, y)\<leftarrow>pts. x) * (\<Sum>(x, y)\<leftarrow>pts. x) \<noteq> 0"
  shows "regression_denominator (map (\<lambda>(x, y). (Fin x, Fin y)) pts) =
           Fin (real (length pts) * (\<Sum>(x, y)\<leftarrow>pts. x * x) - (\<Sum>(x, y)\<leftarrow>pts. x) * (\<Sum>(x, y)\<leftarrow>pts. x))"
    and "least_squares_slope (map (\<lambda>(x, y). (Fin x, Fin y)) pts) = Inr (Fin (slope_formula pts))"
proof -
  let ?s = "map (\<lambda>(x, y). (Fin x, Fin y)) pts"
  define n where "n = real (length pts)"
  define sx where "sx = (\<Sum>(x, y)\<leftarrow>pts. x)"
  define sy where "sy = (\<Sum>(x, y)\<leftarrow>pts. y)"
  define sxy where "sxy = (\<Sum>(x, y)\<leftarrow>pts. x * y)"
  define sxx where "sxx = (\<Sum>(x, y)\<leftarrow>pts. x * x)"
  have fit: "list_all (\<lambda>(x, y). representable (x * y) \<and> representable (x * x)) pts"
    "partial_sums_exact 0 (map fst pts)" "partial_sums_exact 0 (map snd pts)"
    "partial_sums_exact 0 (map (\<lambda>(x, y). x * y) pts)"
    "partial_sums_exact 0 (map (\<lambda>(x, y). x * x) pts)"
    "representable n"
    "representable (n * sxy)" "representable (sx * sy)" "representable (n * sxy - sx * sy)"
    "representable (n * sxx)" "representable (sx * sx)" "representable (n * sxx - sx * sx)"
    "representable (slope_formula pts)"
    using assms(1) by (simp_all add: fit_exact_def Let_def n_def sx_def sy_def sxy_def sxx_def)
  have m1: "map fst ?s = map Fin (map fst pts)" "map snd ?s = map Fin (map snd pts)"
    by (simp_all add: case_prod_unfold comp_def)
  have m2: "map (\<lambda>(x, y). fmul x y) ?s = map Fin (map (\<lambda>(x, y). x * y) pts)"
    "map (\<lambda>(x, y). fmul x x) ?s = map Fin (map (\<lambda>(x, y). x * x) pts)"
    using fit(1) by (auto simp: list_all_iff representable_def)
  have f: "map fst pts = map (\<lambda>(x, y). x) pts" "map snd pts = map (\<lambda>(x, y). y) pts"
    by (simp_all add: case_prod_unfold)
  have s: "py_sum (map fst ?s) = Fin sx" "py_sum (map snd ?s) = Fin sy"
    "py_sum (map (\<lambda>(x, y). fmul x y) ?s) = Fin sxy" "py_sum (map (\<lambda>(x, y). fmul x x) ?s) = Fin sxx"
    unfolding m1 m2 sx_def sy_def sxy_def sxx_def f [symmetric]
    by (rule py_sum_exact, rule fit)+
  have r: "rnd (n * sxy) = Fin (n * sxy)" "rnd (sx * sy) = Fin (sx * sy)"
    "rnd (n * sxy - sx * sy) = Fin (n * sxy - sx * sy)"
    "rnd (n * sxx) = Fin (n * sxx)" "rnd (sx * sx) = Fin (sx * sx)"
    "rnd (n * sxx - sx * sx) = Fin (n * sxx - sx * sx)"
    "rnd ((n * sxy - sx * sy) / (n * sxx - sx * sx)) = Fin ((n * sxy - sx * sy) / (n * sxx - sx * sx))"
    using fit(7-13)
    by (simp_all add: representable_def slope_formula_def n_def sx_def sy_def sxy_def sxx_def)
  have len: "float_of_nat (length ?s) = Fin n"
    using fit(6) by (simp add: n_def float_of_nat_def representable_def)
  show d: "regression_denominator ?s =
           Fin (real (length pts) * (\<Sum>(x, y)\<leftarrow>pts. x * x) - (\<Sum>(x, y)\<leftarrow>pts. x) * (\<Sum>(x, y)\<leftarrow>pts. x))"
    unfolding regression_denominator_def s len using r
    by (simp add: fsub_def n_def sx_def sxx_def)
  have nz: "n * sxx - sx * sx \<noteq> 0"
    using assms(2) by (simp add: n_def sx_def sxx_def)
  have "least_squares_slope ?s = Inr (Fin ((n * sxy - sx * sy) / (n * sxx - sx * sx)))"
    unfolding least_squares_slope_def d s len using r nz
    by (simp add: fsub_def n_def [symmetric] sx_def [symmetric] sxx_def [symmetric])
  then show "least_squares_slope ?s = Inr (Fin (slope_formula pts))"
    by (simp add: slope_formula_def n_def sx_def sy_def sxy_def sxx_def)
qed

subsection \<open>Worked inputs\<close>

text \<open>Timestamps \<open>0, inf, inf\<close>: the second gap is \<open>inf - inf\<close>, NaN, which is not \<open><= 0\<close>,
  so the pair is kept although its gap is not positive.\<close>

lemma gap_samples_infinite:
  "gap_samples [Fin 0, PInf, PInf] = Inr [(PInf, Fin 0)]"
proof -
  show ?thesis
    by (simp add: Let_def fsub_def fle_def fgt_def two_pi inf_signed_def)
qed

lemma kept_samples_infinite:
  "kept_samples [Fin 0, PInf, PInf] = Inr [(PInf, Fin 0), (PInf, NaN)]"
proof -
  show ?thesis
    by (simp add: Let_def fsub_def fle_def fgt_def two_pi inf_signed_def)
qed

lemma calculate_deceleration_infinite:
  "calculate_deceleration [Fin 0, PInf, PInf] = Inr (NaN)"
proof -
  have r1: "rnd 2 = Fin 2"
    using rnd_representable [of 1 1] by (simp add: pow2_def)
  have idx: "[1..<3] = [1, 2::nat]"
    by (simp add: upt_rec)
  show ?thesis
    using r1
    by (simp add: calculate_deceleration_def idx Let_def py_sum_def fsub_def fle_def fgt_def
        float_of_nat_def inf_signed_def two_pi rnd_minus)
qed

text \<open>Timestamps 0, 1 and 8 s: no operation of the fit rounds.\<close>

lemma kept_samples_exact_fit:
  "kept_samples [Fin 0, Fin 1, Fin 8] = Inr [(Fin (1 / 2), Fin (884279719003555 / 140737488355328)), (Fin (9 / 2), Fin (126325674143365 / 140737488355328))]"
proof -
  have r1: "rnd 1 = Fin 1"
    using rnd_representable [of 1 0] by (simp add: pow2_def)
  have r2: "rnd (884279719003555 / 140737488355328) = Fin (884279719003555 / 140737488355328)"
    using rnd_representable [of 884279719003555 "- 47"] by (simp add: pow2_def)
  have r3: "rnd (1 / 2) = Fin (1 / 2)"
    using rnd_representable [of 1 "- 1"] by (simp add: pow2_def)
  have r4: "rnd 7 = Fin 7"
    using rnd_representable [of 7 0] by (simp add: pow2_def)
  have r5: "rnd (126325674143365 / 140737488355328) = Fin (126325674143365 / 140737488355328)"
    using rnd_representable [of 126325674143365 "- 47"] by (simp add: pow2_def)
  have r6: "rnd 9 = Fin 9"
    using rnd_representable [of 9 0] by (simp add: pow2_def)
  have r7: "rnd (9 / 2) = Fin (9 / 2)"
    using rnd_representable [of 9 "- 1"] by (simp add: pow2_def)
  show ?thesis
    using r1 r2 r3 r4 r5 r6 r7
    by (simp add: Let_def fsub_def fle_def fgt_def two_pi inf_signed_def)
qed

lemma calculate_deceleration_exact_fit:
  "calculate_deceleration [Fin 0, Fin 1, Fin 8] = Inr (Fin (378977022430095 / 281474976710656))"
proof -
  have r1: "rnd 1 = Fin 1"
    using rnd_representable [of 1 0] by (simp add: pow2_def)
  have r2: "rnd (884279719003555 / 140737488355328) = Fin (884279719003555 / 140737488355328)"
    using rnd_representable [of 884279719003555 "- 47"] by (simp add: pow2_def)
  have r3: "rnd (1 / 2) = Fin (1 / 2)"
    using rnd_representable [of 1 "- 1"] by (simp add: pow2_def)
  have r4: "rnd 7 = Fin 7"
    using rnd_representable [of 7 0] by (simp add: pow2_def)
  have r5: "rnd (126325674143365 / 140737488355328) = Fin (126325674143365 / 140737488355328)"
    using rnd_representable [of 126325674143365 "- 47"] by (simp add: pow2_def)
  have r6: "rnd 9 = Fin 9"
    using rnd_representable [of 9 0] by (simp add: pow2_def)
  have r7: "rnd (9 / 2) = Fin (9 / 2)"
    using rnd_representable [of 9 "- 1"] by (simp add: pow2_def)
  have r8: "rnd 2 = Fin 2"
    using rnd_representable [of 1 1] by (simp add: pow2_def)
  have r9: "rnd 5 = Fin 5"
    using rnd_representable [of 5 0] by (simp add: pow2_def)
  have r10: "rnd (126325674143365 / 17592186044416) = Fin (126325674143365 / 17592186044416)"
    using rnd_representable [of 126325674143365 "- 44"] by (simp add: pow2_def)
  have r11: "rnd (884279719003555 / 281474976710656) = Fin (884279719003555 / 281474976710656)"
    using rnd_representable [of 884279719003555 "- 48"] by (simp add: pow2_def)
  have r12: "rnd (1136931067290285 / 281474976710656) = Fin (1136931067290285 / 281474976710656)"
    using rnd_representable [of 1136931067290285 "- 48"] by (simp add: pow2_def)
  have r13: "rnd (1 / 4) = Fin (1 / 4)"
    using rnd_representable [of 1 "- 2"] by (simp add: pow2_def)
  have r14: "rnd (81 / 4) = Fin (81 / 4)"
    using rnd_representable [of 81 "- 2"] by (simp add: pow2_def)
  have r15: "rnd (41 / 2) = Fin (41 / 2)"
    using rnd_representable [of 41 "- 1"] by (simp add: pow2_def)
  have r16: "rnd 41 = Fin 41"
    using rnd_representable [of 41 0] by (simp add: pow2_def)
  have r17: "rnd 25 = Fin 25"
    using rnd_representable [of 25 0] by (simp add: pow2_def)
  have r18: "rnd 16 = Fin 16"
    using rnd_representable [of 1 4] by (simp add: pow2_def)
  have r19: "rnd (126325674143365 / 8796093022208) = Fin (126325674143365 / 8796093022208)"
    using rnd_representable [of 126325674143365 "- 43"] by (simp add: pow2_def)
  have r20: "rnd (631628370716825 / 17592186044416) = Fin (631628370716825 / 17592186044416)"
    using rnd_representable [of 631628370716825 "- 44"] by (simp add: pow2_def)
  have r21: "rnd (378977022430095 / 17592186044416) = Fin (378977022430095 / 17592186044416)"
    using rnd_representable [of 378977022430095 "- 44"] by (simp add: pow2_def)
  have r22: "rnd (378977022430095 / 281474976710656) = Fin (378977022430095 / 281474976710656)"
    using rnd_representable [of 378977022430095 "- 48"] by (simp add: pow2_def)
  have idx: "[1..<3] = [1, 2::nat]"
    by (simp add: upt_rec)
  show ?thesis
    using r1 r2 r3 r4 r5 r6 r7 r8 r9 r10 r11 r12 r13 r14 r15 r16 r17 r18 r19 r20 r21 r22
    by (simp add: calculate_deceleration_def idx Let_def py_sum_def fsub_def fle_def fgt_def
        float_of_nat_def inf_signed_def two_pi rnd_minus)
qed

text \<open>Timestamps \<open>1e8, 1e8 + 0.5, 1e8 + 1.25, 1e8 + 2.25\<close>: the sums of squares are near
  \<open>4e16\<close>, where floats are 8 apart, and the float regression denominator cancels to
  zero although the midpoints differ.\<close>

lemma calculate_deceleration_cancellation:
  "calculate_deceleration [Fin 100000000, Fin (200000001 / 2), Fin (400000005 / 4), Fin (400000009 / 4)] = Inr (Fin 0)"
proof -
  have r1: "rnd (1 / 2) = Fin (1 / 2)"
    using rnd_representable [of 1 "- 1"] by (simp add: pow2_def)
  have r2: "rnd (884279719003555 / 70368744177664) = Fin (884279719003555 / 70368744177664)"
    using rnd_representable [of 884279719003555 "- 46"] by (simp add: pow2_def)
  have r3: "rnd (400000001 / 2) = Fin (400000001 / 2)"
    using rnd_representable [of 400000001 "- 1"] by (simp add: pow2_def)
  have r4: "rnd (400000001 / 4) = Fin (400000001 / 4)"
    using rnd_representable [of 400000001 "- 2"] by (simp add: pow2_def)
  have r5: "rnd (3 / 4) = Fin (3 / 4)"
    using rnd_representable [of 3 "- 2"] by (simp add: pow2_def)
  have r6: "rnd (884279719003555 / 105553116266496) = Fin (4716158501352293 / 562949953421312)"
    using rnd_nearest [of 3 "884279719003555 / 105553116266496" 4716158501352293] by (simp add: pow2_def)
  have r7: "rnd (800000007 / 4) = Fin (800000007 / 4)"
    using rnd_representable [of 800000007 "- 2"] by (simp add: pow2_def)
  have r8: "rnd (800000007 / 8) = Fin (800000007 / 8)"
    using rnd_representable [of 800000007 "- 3"] by (simp add: pow2_def)
  have r9: "rnd 1 = Fin 1"
    using rnd_representable [of 1 0] by (simp add: pow2_def)
  have r10: "rnd (884279719003555 / 140737488355328) = Fin (884279719003555 / 140737488355328)"
    using rnd_representable [of 884279719003555 "- 47"] by (simp add: pow2_def)
  have r11: "rnd (400000007 / 2) = Fin (400000007 / 2)"
    using rnd_representable [of 400000007 "- 1"] by (simp add: pow2_def)
  have r12: "rnd (400000007 / 4) = Fin (400000007 / 4)"
    using rnd_representable [of 400000007 "- 2"] by (simp add: pow2_def)
  have r13: "rnd 3 = Fin 3"
    using rnd_representable [of 3 0] by (simp add: pow2_def)
  have r14: "rnd (1600000009 / 8) = Fin (1600000009 / 8)"
    using rnd_representable [of 1600000009 "- 3"] by (simp add: pow2_def)
  have r15: "rnd (2400000023 / 8) = Fin (2400000023 / 8)"
    using rnd_representable [of 2400000023 "- 3"] by (simp add: pow2_def)
  have r16: "rnd (11790396253380733 / 562949953421312) = Fin (2947599063345183 / 140737488355328)"
    using rnd_tie [of 4 "11790396253380733 / 562949953421312" 5895198126690366 5895198126690366] by (simp add: pow2_def)
  have r17: "rnd (1915939391174369 / 70368744177664) = Fin (1915939391174369 / 70368744177664)"
    using rnd_representable [of 1915939391174369 "- 46"] by (simp add: pow2_def)
  have r18: "rnd (353711888485701719003555 / 281474976710656) = Fin (1317679466626427 / 1048576)"
    using rnd_nearest [of 30 "353711888485701719003555 / 281474976710656" 5270717866505708] by (simp add: pow2_def)
  have r19: "rnd (3772926834094943909466051 / 4503599627370496) = Fin (7027623865930259 / 8388608)"
    using rnd_nearest [of 29 "3772926834094943909466051 / 4503599627370496" 7027623865930259] by (simp add: pow2_def)
  have r20: "rnd (353711893791380033024885 / 562949953421312) = Fin (1317679486391619 / 2097152)"
    using rnd_nearest [of 29 "353711893791380033024885 / 562949953421312" 5270717945566476] by (simp add: pow2_def)
  have r21: "rnd (1317679466626427 / 1048576) = Fin (1317679466626427 / 1048576)"
    using rnd_representable [of 1317679466626427 "- 20"] by (simp add: pow2_def)
  have r22: "rnd (17569059598941675 / 8388608) = Fin (4392264899735419 / 2097152)"
    using rnd_tie [of 30 "17569059598941675 / 8388608" 8784529799470837 8784529799470838] by (simp add: pow2_def)
  have r23: "rnd (2854972193063519 / 1048576) = Fin (2854972193063519 / 1048576)"
    using rnd_representable [of 2854972193063519 "- 20"] by (simp add: pow2_def)
  have r24: "rnd (160000000800000001 / 16) = Fin 10000000050000000"
    using rnd_nearest [of 53 "160000000800000001 / 16" 5000000025000000] by (simp add: pow2_def)
  have r25: "rnd (640000011200000049 / 64) = Fin 10000000175000000"
    using rnd_nearest [of 53 "640000011200000049 / 64" 5000000087500000] by (simp add: pow2_def)
  have r26: "rnd (160000005600000049 / 16) = Fin 10000000350000004"
    using rnd_nearest [of 53 "160000005600000049 / 16" 5000000175000002] by (simp add: pow2_def)
  have r27: "rnd 10000000050000000 = Fin 10000000050000000"
    using rnd_representable [of 78125000390625 7] by (simp add: pow2_def)
  have r28: "rnd 20000000225000000 = Fin 20000000225000000"
    using rnd_representable [of 312500003515625 6] by (simp add: pow2_def)
  have r29: "rnd 30000000575000004 = Fin 30000000575000004"
    using rnd_representable [of 7500000143750001 2] by (simp add: pow2_def)
  have r30: "rnd 90000001725000012 = Fin 90000001725000016"
    using rnd_nearest [of 56 "90000001725000012" 5625000107812501] by (simp add: pow2_def)
  have r31: "rnd (5760000110400000529 / 64) = Fin 90000001725000016"
    using rnd_nearest [of 56 "5760000110400000529 / 64" 5625000107812501] by (simp add: pow2_def)
  have idx: "[1..<4] = [1, 2, 3::nat]"
    by (simp add: upt_rec)
  show ?thesis
    using r1 r2 r3 r4 r5 r6 r7 r8 r9 r10 r11 r12 r13 r14 r15 r16 r17 r18 r19 r20 r21 r22 r23 r24 r25 r26 r27 r28 r29 r30 r31
    by (simp add: calculate_deceleration_def idx Let_def py_sum_def fsub_def fle_def fgt_def
        float_of_nat_def inf_signed_def two_pi rnd_minus)
qed

section \<open>The claims\<close>

lemma compute_predictions_example:
  "compute_predictions example_request = Inr \<lparr>left_prediction = 15, right_prediction = 21\<rparr>"
  by (simp add: compute_predictions_def example_request_def predict_half_left predict_half_right)

lemma count_list_distinct:
  "distinct xs \<Longrightarrow> x \<in> set xs \<Longrightarrow> count_list xs x = 1"
  by (induction xs) auto

lemma compute_predictions_left_error:
  assumes "2 \<le> length (wheel_times req)" "2 \<le> length (ball_times req)"
    and "predict_for_direction (wheel_times req) (ball_times req) ''left'' = Inl err"
  shows "compute_predictions req = Inl err"
  using assms by (simp add: compute_predictions_def)

lemma predict_for_direction_error:
  "predict_for_direction wts bts d = Inl err \<Longrightarrow> err = OverflowError"
  using predict_for_direction_cases [of wts bts d] by auto

lemma final_pocket_index_five: "final_pocket_index (Fin 5) 0 = Inr 5"
proof -
  have "rnd 185 = Fin 185"
    using rnd_representable [of 185 0] by (simp add: pow2_def)
  then show ?thesis
    by (simp add: final_pocket_index_def scatter_offset_def)
qed

text \<open>
  C1. Whenever \<open>compute_predictions\<close> returns a response, both of its integers are members
  of the fixed 37-element pocket sequence; and whenever the final pocket index of
  \<open>predict_for_direction\<close> is computed, it lies in \<open>[0, 36]\<close>. (That a response is
  returned at all is the subject of C3.)
\<close>

theorem compute_predictions_in_pocket_sequence:
  "(compute_predictions req = Inr resp \<longrightarrow>
      left_prediction resp \<in> set ROULETTE_SEQUENCE \<and>
      right_prediction resp \<in> set ROULETTE_SEQUENCE \<and>
      set ROULETTE_SEQUENCE =
        {0, 32, 15, 19, 4, 21, 2, 25, 17, 34, 6, 27, 13, 36, 11, 30, 8, 23, 10, 5, 24, 16, 33,
         1, 20, 14, 31, 9, 22, 18, 29, 7, 28, 12, 35, 3, 26}) \<and>
   (final_pocket_index rel doff = Inr idx \<longrightarrow> 0 \<le> idx \<and> idx \<le> 36)"
proof (intro conjI impI)
  assume r: "compute_predictions req = Inr resp"
  let ?w = "wheel_times req" and ?b = "ball_times req"
  from r have long: "\<not> (length ?w < 2 \<or> length ?b < 2)"
    by (auto simp: compute_predictions_def split: if_splits)
  from predict_for_direction_cases [of ?w ?b "''left''"]
  obtain l where l: "predict_for_direction ?w ?b ''left'' = Inr l" "l \<in> set ROULETTE_SEQUENCE"
    using r long by (auto simp: compute_predictions_def)
  from predict_for_direction_cases [of ?w ?b "''right''"]
  obtain r' where r': "predict_for_direction ?w ?b ''right'' = Inr r'" "r' \<in> set ROULETTE_SEQUENCE"
    using r long l by (auto simp: compute_predictions_def)
  have "resp = \<lparr>left_prediction = l, right_prediction = r'\<rparr>"
    using r long l r' by (simp add: compute_predictions_def)
  then show "left_prediction resp \<in> set ROULETTE_SEQUENCE"
    and "right_prediction resp \<in> set ROULETTE_SEQUENCE"
    using l r' by simp_all
next
  show "set ROULETTE_SEQUENCE =
        {0, 32, 15, 19, 4, 21, 2, 25, 17, 34, 6, 27, 13, 36, 11, 30, 8, 23, 10, 5, 24, 16, 33,
         1, 20, 14, 31, 9, 22, 18, 29, 7, 28, 12, 35, 3, 26}"
    by (simp add: ROULETTE_SEQUENCE_def)
next
  assume "final_pocket_index rel doff = Inr idx"
  then have "\<exists>k. idx = (k mod 37 + scatter_offset + doff) mod 37"
    by (cases "py_int (fmul (fabs rel) (Fin 37))") (auto simp: final_pocket_index_def Let_def)
  then show "0 \<le> idx" "idx \<le> 36"
    by auto
qed

theorem compute_predictions_in_pocket_sequence_witness:
  "compute_predictions example_request = Inr \<lparr>left_prediction = 15, right_prediction = 21\<rparr>
   \<and> (15::int) \<in> set ROULETTE_SEQUENCE \<and> (21::int) \<in> set ROULETTE_SEQUENCE
   \<and> final_pocket_index (Fin 5) 0 = Inr 5 \<and> (0::int) \<le> 5 \<and> (5::int) \<le> 36"
  using compute_predictions_in_pocket_sequence
      [of example_request "\<lparr>left_prediction = 15, right_prediction = 21\<rparr>" "Fin 5" 0 5]
    compute_predictions_example final_pocket_index_five
  by simp

text \<open>
  C2. \<open>compute_predictions\<close> raises the insufficient-data error exactly when one of the two
  timestamp lists has fewer than 2 entries. In that case the error is the result whatever
  the per-direction computation would do on the lists; otherwise the result is the
  per-direction algorithm run for "left", then for "right", and the pair of the two
  results (an exception of either run propagates).
\<close>

theorem compute_predictions_insufficient_data:
  "(compute_predictions req = Inl not_enough_marks
      \<longleftrightarrow> length (wheel_times req) < 2 \<or> length (ball_times req) < 2) \<and>
   (if length (wheel_times req) < 2 \<or> length (ball_times req) < 2
    then compute_predictions req = Inl (ValueError ''Not enough marks to compute prediction'')
    else compute_predictions req =
      (case predict_for_direction (wheel_times req) (ball_times req) ''left'' of
         Inl err \<Rightarrow> Inl err
       | Inr left \<Rightarrow>
          (case predict_for_direction (wheel_times req) (ball_times req) ''right'' of
             Inl err \<Rightarrow> Inl err
           | Inr right \<Rightarrow> Inr \<lparr>left_prediction = left, right_prediction = right\<rparr>)))"
proof -
  let ?w = "wheel_times req" and ?b = "ball_times req"
  have ne: "predict_for_direction ?w ?b d \<noteq> Inl not_enough_marks" for d
    using predict_for_direction_error [of ?w ?b d not_enough_marks]
    by (auto simp: not_enough_marks_def)
  have "compute_predictions req \<noteq> Inl not_enough_marks"
    if "\<not> (length ?w < 2 \<or> length ?b < 2)"
    using that ne [of "''left''"] ne [of "''right''"]
    by (auto simp: compute_predictions_def ebind_def split: sum.splits)
  moreover have "compute_predictions req = Inl not_enough_marks"
    if "length ?w < 2 \<or> length ?b < 2"
    using that by (simp add: compute_predictions_def)
  ultimately show ?thesis
    by (auto simp: compute_predictions_def not_enough_marks_def ebind_def split: sum.splits)
qed

theorem compute_predictions_insufficient_data_witness:
  "compute_predictions
     \<lparr>wheel_times = [Fin 1], ball_times = [Fin 1, Fin 2], wheel_marks = 1, ball_marks = 2,
      mode = ''3x3''\<rparr> = Inl not_enough_marks
   \<and> compute_predictions example_request \<noteq> Inl not_enough_marks
   \<and> length (wheel_times example_request) = 2 \<and> length (ball_times example_request) = 2"
proof -
  let ?short = "\<lparr>wheel_times = [Fin 1], ball_times = [Fin 1, Fin 2], wheel_marks = 1,
    ball_marks = 2, mode = ''3x3''\<rparr>"
  have a: "(compute_predictions ?short = Inl not_enough_marks)
      = (length (wheel_times ?short) < 2 \<or> length (ball_times ?short) < 2)"
    using compute_predictions_insufficient_data [of ?short] by (rule conjunct1)
  have b: "(compute_predictions example_request = Inl not_enough_marks)
      = (length (wheel_times example_request) < 2 \<or> length (ball_times example_request) < 2)"
    using compute_predictions_insufficient_data [of example_request] by (rule conjunct1)
  have l: "length (wheel_times example_request) = 2" "length (ball_times example_request) = 2"
    by (simp_all add: example_request_def)
  have "compute_predictions ?short = Inl not_enough_marks"
    unfolding a by simp
  moreover have "compute_predictions example_request \<noteq> Inl not_enough_marks"
    unfolding b l by simp
  ultimately show ?thesis
    using l by simp
qed

text \<open>
  C9. Every direction string other than "left" is treated exactly as "right".
\<close>

theorem predict_for_direction_other_direction:
  "d \<noteq> ''left'' \<Longrightarrow>
     predict_for_direction wts bts d = predict_for_direction wts bts ''right''"
  by (simp add: predict_for_direction_def relative_angle_def direction_offset_def)

theorem predict_for_direction_other_direction_witness:
  "''up'' \<noteq> ''left'' \<and>
   predict_for_direction [Fin 0, Fin 1] [Fin 0, Fin (1 / 2)] ''up'' = Inr 21 \<and>
   predict_for_direction [Fin 0, Fin 1] [Fin 0, Fin (1 / 2)] ''right'' = Inr 21"
  using predict_for_direction_other_direction [of "''up''" "[Fin 0, Fin 1]" "[Fin 0, Fin (1 / 2)]"]
    predict_half_right
  by simp

text \<open>
  C10. \<open>ROULETTE_SEQUENCE\<close> is a permutation of \<open>0, ..., 36\<close>: it has 37 entries, every
  integer from 0 to 36 occurs in it exactly once, distinct indices hold distinct pocket
  numbers, and every pocket number is the entry at some index.
\<close>

theorem ROULETTE_SEQUENCE_permutation:
  "length ROULETTE_SEQUENCE = 37 \<and>
   distinct ROULETTE_SEQUENCE \<and>
   set ROULETTE_SEQUENCE = {0..36} \<and>
   (\<forall>v\<in>{0..36}. count_list ROULETTE_SEQUENCE v = 1) \<and>
   (\<forall>i<37. \<forall>j<37. i \<noteq> j \<longrightarrow> ROULETTE_SEQUENCE ! i \<noteq> ROULETTE_SEQUENCE ! j) \<and>
   (\<forall>v\<in>{0..36}. \<exists>i<37. getitem ROULETTE_SEQUENCE (int i) = Inr v)"
proof -
  have len: "length ROULETTE_SEQUENCE = 37"
    by (simp add: ROULETTE_SEQUENCE_def)
  have dist: "distinct ROULETTE_SEQUENCE"
    by (simp add: ROULETTE_SEQUENCE_def)
  have st: "set ROULETTE_SEQUENCE = {0..36}"
  proof (rule card_subset_eq)
    show "finite {0..36::int}"
      by simp
    show "set ROULETTE_SEQUENCE \<subseteq> {0..36}"
      by (simp add: ROULETTE_SEQUENCE_def)
    have "card (set ROULETTE_SEQUENCE) = length ROULETTE_SEQUENCE"
      using dist by (rule distinct_card)
    then show "card (set ROULETTE_SEQUENCE) = card {0..36::int}"
      by (simp add: len)
  qed
  have cnt: "\<forall>v\<in>{0..36}. count_list ROULETTE_SEQUENCE v = 1"
    using dist st by (simp add: count_list_distinct)
  have inj: "\<forall>i<37. \<forall>j<37. i \<noteq> j \<longrightarrow> ROULETTE_SEQUENCE ! i \<noteq> ROULETTE_SEQUENCE ! j"
    using dist len by (simp add: nth_eq_iff_index_eq)
  have reach: "\<forall>v\<in>{0..36}. \<exists>i<37. getitem ROULETTE_SEQUENCE (int i) = Inr v"
  proof
    fix v :: int
    assume "v \<in> {0..36}"
    then have "v \<in> set ROULETTE_SEQUENCE"
      by (simp only: st)
    then obtain i where "i < length ROULETTE_SEQUENCE" "ROULETTE_SEQUENCE ! i = v"
      by (auto simp: in_set_conv_nth)
    then show "\<exists>i<37. getitem ROULETTE_SEQUENCE (int i) = Inr v"
      by (auto simp: getitem_def len)
  qed
  show ?thesis
    using len dist st cnt inj reach by blast
qed

theorem ROULETTE_SEQUENCE_permutation_witness:
  "count_list ROULETTE_SEQUENCE 26 = 1 \<and>
   ROULETTE_SEQUENCE ! 0 \<noteq> ROULETTE_SEQUENCE ! 36 \<and>
   (\<exists>i<37. getitem ROULETTE_SEQUENCE (int i) = Inr 26)"
proof -
  have "(26::int) \<in> {0..36}"
    by simp
  moreover have "(0::nat) < 37" "(36::nat) < 37" "(0::nat) \<noteq> 36"
    by simp_all
  ultimately show ?thesis
    using ROULETTE_SEQUENCE_permutation by blast
qed

text \<open>
  C3 (what the code does instead). The timestamps below are finite floats and both lists
  have two entries, yet \<open>predict_for_direction\<close> raises for both directions, and so does
  \<open>compute_predictions\<close>: the travel angle of the ball is finite, so no fallback replaces
  it, but \<open>|relative_angle| * 37\<close> overflows to infinity and \<open>int()\<close> raises
  \<open>OverflowError\<close>.
\<close>

theorem compute_predictions_overflow:
  "predict_for_direction [Fin 0, Fin 1] [Fin 0, Fin (1 / 2 ^ 1018)] ''left'' = Inl OverflowError \<and>
   predict_for_direction [Fin 0, Fin 1] [Fin 0, Fin (1 / 2 ^ 1018)] ''right'' = Inl OverflowError \<and>
   compute_predictions tiny_period_request = Inl OverflowError"
proof (intro conjI)
  show l: "predict_for_direction [Fin 0, Fin 1] [Fin 0, Fin (1 / 2 ^ 1018)] ''left'' = Inl OverflowError"
    by (rule predict_tiny_period_left)
  show "predict_for_direction [Fin 0, Fin 1] [Fin 0, Fin (1 / 2 ^ 1018)] ''right'' = Inl OverflowError"
    by (rule predict_tiny_period_right)
  have w: "wheel_times tiny_period_request = [Fin 0, Fin 1]"
    and b: "ball_times tiny_period_request = [Fin 0, Fin (1 / 2 ^ 1018)]"
    by (simp_all only: tiny_period_request_def MarksRequest.select_convs)
  show "compute_predictions tiny_period_request = Inl OverflowError"
  proof (rule compute_predictions_left_error)
    show "2 \<le> length (wheel_times tiny_period_request)" "2 \<le> length (ball_times tiny_period_request)"
      unfolding w b by simp_all
    show "predict_for_direction (wheel_times tiny_period_request) (ball_times tiny_period_request)
        ''left'' = Inl OverflowError"
      unfolding w b by (rule l)
  qed
qed

text \<open>
  C4 as stated fails when the ball deceleration estimate is NaN, which the \<open><= 0\<close> default
  does not replace. With ball marks at \<open>0\<close>, \<open>2^-1030\<close> and \<open>1\<close> seconds the first velocity
  sample \<open>2\<pi> / dt\<close> overflows to infinity and the fitted slope is \<open>inf - inf\<close>, NaN. The
  code tests \<open>ball_alpha > 0\<close> before dividing, so its drop time is 3.0; the formula of
  the claim divides by NaN and gives NaN.
\<close>

theorem t_drop_nan_deceleration_counterexample:
  "raw_estimates [Fin 0, Fin 1] [Fin 0, Fin (1 / 2 ^ 1030), Fin 1] =
     Inr \<lparr>wheel_omega = fmul (fmul (Fin 2) math_pi) (Fin 1),
          ball_omega = fmul (fmul (Fin 2) math_pi) (Fin 2),
          wheel_alpha = Fin 0, ball_alpha = NaN\<rparr> \<and>
   t_drop (apply_defaults \<lparr>wheel_omega = fmul (fmul (Fin 2) math_pi) (Fin 1),
          ball_omega = fmul (fmul (Fin 2) math_pi) (Fin 2),
          wheel_alpha = Fin 0, ball_alpha = NaN\<rparr>) = Inr (Fin 3) \<and>
   t_drop_spec (apply_defaults \<lparr>wheel_omega = fmul (fmul (Fin 2) math_pi) (Fin 1),
          ball_omega = fmul (fmul (Fin 2) math_pi) (Fin 2),
          wheel_alpha = Fin 0, ball_alpha = NaN\<rparr>) = Inr NaN"
proof (intro conjI)
  let ?e = "\<lparr>wheel_omega = fmul (fmul (Fin 2) math_pi) (Fin 1),
          ball_omega = fmul (fmul (Fin 2) math_pi) (Fin 2),
          wheel_alpha = Fin 0, ball_alpha = NaN\<rparr>"
  show "raw_estimates [Fin 0, Fin 1] [Fin 0, Fin (1 / 2 ^ 1030), Fin 1] = Inr ?e"
    by (rule raw_estimates_tiny_gap)
  have e: "wheel_omega ?e = Fin (884279719003555 / 140737488355328)"
    "ball_omega ?e = Fin (884279719003555 / 70368744177664)"
    "(3::real) < 884279719003555 / 70368744177664" "ball_alpha ?e = NaN"
    by (simp_all add: two_pi_one four_pi)
  show "t_drop (apply_defaults ?e) = Inr (Fin 3)"
    by (rule nan_estimates_drop_times(1) [OF e])
  show "t_drop_spec (apply_defaults ?e) = Inr NaN"
    by (rule nan_estimates_drop_times(2) [OF e])
qed

text \<open>
  C4, amended. After the defaults (wheel deceleration \<open><= 0\<close> becomes 0.1, ball
  deceleration \<open><= 0\<close> becomes 0.1, wheel \<open>\<omega> <= 0\<close> becomes 1.0, ball \<open>\<omega> <= 0\<close> becomes 2.0),
  and with \<open>v_c^2 = 9.81 * tan(0.02) * 0.5\<close> (each literal, the tangent and both products
  rounded to a float), the drop time is \<open>(ball_\<omega> - sqrt(v_c^2)) / ball_\<alpha>\<close> when
  \<open>ball_\<alpha> > 0\<close> and \<open>ball_\<omega> > sqrt(v_c^2)\<close>, and 3.0 otherwise; then a negative drop time
  is replaced by 3.0 and one greater than 10 by 5.0. No exception is raised. The test
  \<open>ball_\<alpha> > 0\<close> fails only for a NaN estimate: whenever the ball deceleration estimate is
  not NaN, the drop time is the one of the claim.
\<close>

theorem t_drop_formula:
  "wheel_alpha (apply_defaults e) = (if fle (wheel_alpha e) (Fin 0) then rnd (1 / 10) else wheel_alpha e) \<and>
   ball_alpha (apply_defaults e) = (if fle (ball_alpha e) (Fin 0) then rnd (1 / 10) else ball_alpha e) \<and>
   wheel_omega (apply_defaults e) = (if fle (wheel_omega e) (Fin 0) then Fin 1 else wheel_omega e) \<and>
   ball_omega (apply_defaults e) = (if fle (ball_omega e) (Fin 0) then Fin 2 else ball_omega e) \<and>
   G = rnd (981 / 100) \<and> ALPHA = rnd (2 / 100) \<and>
   (\<exists>tangent. math_tan ALPHA = Inr tangent \<and>
      critical_velocity_squared = Inr (fmul (fmul G tangent) (Fin (1 / 2)))) \<and>
   critical_velocity_squared = Inr (Fin cvs) \<and> math_sqrt (Fin cvs) = Inr (Fin vc) \<and>
   (\<exists>t0. (if fgt (ball_alpha (apply_defaults e)) (Fin 0) \<and>
             fgt (ball_omega (apply_defaults e)) (Fin vc)
          then fdiv (fsub (ball_omega (apply_defaults e)) (Fin vc)) (ball_alpha (apply_defaults e))
          else Inr (Fin 3)) = Inr t0 \<and>
      t_drop (apply_defaults e) =
        Inr (if fgt (if flt t0 (Fin 0) then Fin 3 else t0) (Fin 10) then Fin 5
             else if flt t0 (Fin 0) then Fin 3 else t0)) \<and>
   t_drop (apply_defaults e) =
     (if ball_alpha e = NaN then Inr (Fin 3) else t_drop_spec (apply_defaults e))"
proof -
  let ?e = "apply_defaults e"
  let ?raw = "if fgt (ball_alpha ?e) (Fin 0) \<and> fgt (ball_omega ?e) (Fin vc)
          then fdiv (fsub (ball_omega ?e) (Fin vc)) (ball_alpha ?e)
          else Inr (Fin 3)"
  obtain t where t: "t_drop ?e = Inr t"
    using t_drop_returns by blast
  then obtain t0 where t0: "?raw = Inr t0"
    by (cases ?raw) (simp_all add: t_drop_eq)
  then have "t_drop ?e = Inr (clamp_t t0)"
    by (simp add: t_drop_eq)
  then have ex: "\<exists>t0. ?raw = Inr t0 \<and> t_drop ?e =
        Inr (if fgt (if flt t0 (Fin 0) then Fin 3 else t0) (Fin 10) then Fin 5
             else if flt t0 (Fin 0) then Fin 3 else t0)"
    using t0 by (auto simp: clamp_t_def Let_def)
  have tn: "\<exists>tangent. math_tan ALPHA = Inr tangent \<and>
      critical_velocity_squared = Inr (fmul (fmul G tangent) (Fin (1 / 2)))"
    by (simp only: critical_velocity_squared_def math_tan_ALPHA ebind_Inr) blast
  show ?thesis
    using apply_defaults_fields [of e] G_def ALPHA_def tn critical_velocity_squared_eq
      math_sqrt_cvs ex t_drop_after_defaults [of e]
    by (intro conjI)
qed

theorem t_drop_formula_witness:
  "ball_alpha \<lparr>wheel_omega = Fin 6, ball_omega = Fin 12,
          wheel_alpha = Fin 0, ball_alpha = NaN\<rparr> = NaN \<and>
   t_drop (apply_defaults \<lparr>wheel_omega = Fin 6, ball_omega = Fin 12,
          wheel_alpha = Fin 0, ball_alpha = NaN\<rparr>) = Inr (Fin 3) \<and>
   ball_alpha \<lparr>wheel_omega = Fin 6, ball_omega = Fin 12,
          wheel_alpha = Fin 0, ball_alpha = Fin 0\<rparr> \<noteq> NaN \<and>
   t_drop_spec (apply_defaults \<lparr>wheel_omega = Fin 6, ball_omega = Fin 12,
          wheel_alpha = Fin 0, ball_alpha = Fin 0\<rparr>) = Inr (Fin 5)"
proof -
  let ?n = "\<lparr>wheel_omega = Fin 6, ball_omega = Fin 12,
          wheel_alpha = Fin 0, ball_alpha = NaN\<rparr>"
  let ?p = "\<lparr>wheel_omega = Fin 6, ball_omega = Fin 12,
          wheel_alpha = Fin 0, ball_alpha = Fin 0\<rparr>"
  have "t_drop (apply_defaults ?n) = (if ball_alpha ?n = NaN then Inr (Fin 3) else t_drop_spec (apply_defaults ?n))"
    using t_drop_formula [of ?n] by blast
  then have a: "t_drop (apply_defaults ?n) = Inr (Fin 3)"
    by simp
  have "t_drop (apply_defaults ?p) = (if ball_alpha ?p = NaN then Inr (Fin 3) else t_drop_spec (apply_defaults ?p))"
    using t_drop_formula [of ?p] by blast
  moreover have "t_drop (apply_defaults ?p) = Inr (Fin 5)"
    by (rule plain_estimates_drop_times [of _ 12]) simp_all
  ultimately have b: "t_drop_spec (apply_defaults ?p) = Inr (Fin 5)"
    by simp
  show ?thesis
    using a b by simp
qed

text \<open>
  C5. For every list of timestamps, \<open>calculate_angular_velocity\<close> returns 0.0 when the
  list has fewer than 2 elements; otherwise the average of the successive differences
  \<open>times[i] - times[i-1]\<close> exists (no exception), and the result is the reciprocal
  \<open>1.0 / average\<close> when the average is positive and 0.0 when it is not. The average is
  the float one: the differences, their sum from the left and the quotient are each
  rounded. The caller multiplies the result by \<open>2\<pi>\<close> to obtain the two \<open>\<omega>\<close>.
\<close>

theorem calculate_angular_velocity_reciprocal_average:
  "(length tms < 2 \<longrightarrow> calculate_angular_velocity tms = Inr (Fin 0)) \<and>
   (2 \<le> length tms \<longrightarrow>
      (\<exists>avg. average_period tms = Inr avg \<and>
         (fgt avg (Fin 0) \<longrightarrow> calculate_angular_velocity tms = fdiv (Fin 1) avg) \<and>
         (\<not> fgt avg (Fin 0) \<longrightarrow> calculate_angular_velocity tms = Inr (Fin 0)))) \<and>
   (\<exists>e wv bv. raw_estimates wts bts = Inr e \<and>
      calculate_angular_velocity wts = Inr wv \<and> calculate_angular_velocity bts = Inr bv \<and>
      wheel_omega e = fmul (fmul (Fin 2) math_pi) wv \<and>
      ball_omega e = fmul (fmul (Fin 2) math_pi) bv)"
proof (intro conjI impI)
  assume "length tms < 2"
  then show "calculate_angular_velocity tms = Inr (Fin 0)"
    by (simp add: calculate_angular_velocity_def)
next
  assume "2 \<le> length tms"
  then show "\<exists>avg. average_period tms = Inr avg \<and>
         (fgt avg (Fin 0) \<longrightarrow> calculate_angular_velocity tms = fdiv (Fin 1) avg) \<and>
         (\<not> fgt avg (Fin 0) \<longrightarrow> calculate_angular_velocity tms = Inr (Fin 0))"
    using calculate_angular_velocity_average [of tms] by auto
next
  obtain wv bv wa ba where
    "calculate_angular_velocity wts = Inr wv" "calculate_angular_velocity bts = Inr bv"
    "calculate_deceleration wts = Inr wa" "calculate_deceleration bts = Inr ba"
    using calculate_angular_velocity_returns calculate_deceleration_returns by metis
  then show "\<exists>e wv bv. raw_estimates wts bts = Inr e \<and>
      calculate_angular_velocity wts = Inr wv \<and> calculate_angular_velocity bts = Inr bv \<and>
      wheel_omega e = fmul (fmul (Fin 2) math_pi) wv \<and>
      ball_omega e = fmul (fmul (Fin 2) math_pi) bv"
    by (simp add: raw_estimates_def)
qed

theorem calculate_angular_velocity_reciprocal_average_witness:
  "length [Fin 5] < 2 \<and> calculate_angular_velocity [Fin 5] = Inr (Fin 0) \<and>
   2 \<le> length [Fin 0, Fin (1 / 2), Fin 1] \<and>
   average_period [Fin 0, Fin (1 / 2), Fin 1] = Inr (Fin (1 / 2)) \<and>
   fgt (Fin (1 / 2)) (Fin 0) \<and>
   calculate_angular_velocity [Fin 0, Fin (1 / 2), Fin 1] = Inr (Fin 2) \<and>
   2 \<le> length [Fin 1, Fin 1] \<and>
   average_period [Fin 1, Fin 1] = Inr (Fin 0) \<and>
   \<not> fgt (Fin 0) (Fin 0) \<and>
   calculate_angular_velocity [Fin 1, Fin 1] = Inr (Fin 0) \<and>
   2 \<le> length [Fin 0, Fin (1 / 2 ^ 1074), Fin (1 / 2 ^ 1074)] \<and>
   average_period [Fin 0, Fin (1 / 2 ^ 1074), Fin (1 / 2 ^ 1074)] = Inr (Fin 0) \<and>
   calculate_angular_velocity [Fin 0, Fin (1 / 2 ^ 1074), Fin (1 / 2 ^ 1074)] = Inr (Fin 0)"
proof -
  have two: "rnd 2 = Fin 2"
    using representable_2 by (simp add: representable_def)
  have "calculate_angular_velocity [Fin 0, Fin (1 / 2), Fin 1] = Inr (Fin 2)"
    using calculate_angular_velocity_reciprocal_average [of "[Fin 0, Fin (1 / 2), Fin 1]" "[]" "[]"]
      average_period_three two
    by (auto simp: fgt_def)
  moreover have "calculate_angular_velocity [Fin 1, Fin 1] = Inr (Fin 0)"
    using calculate_angular_velocity_reciprocal_average [of "[Fin 1, Fin 1]" "[]" "[]"]
      average_period_same
    by (auto simp: fgt_def)
  moreover have "calculate_angular_velocity [Fin 5] = Inr (Fin 0)"
    using calculate_angular_velocity_reciprocal_average [of "[Fin 5]" "[]" "[]"]
    by simp
  moreover have "calculate_angular_velocity [Fin 0, Fin (1 / 2 ^ 1074), Fin (1 / 2 ^ 1074)] = Inr (Fin 0)"
    by (rule calculate_angular_velocity_underflow)
  ultimately show ?thesis
    using average_period_three average_period_same average_period_underflow
    by (simp add: fgt_def)
qed

text \<open>
  C8 as stated fails: the sum of the periods is a float sum. For the four uniformly
  spaced timestamps \<open>-0.7, 0.0, 0.7, 1.4\<close> (all binary64 numbers, each difference exactly
  the float 0.7) the sum of the three periods is rounded and the function returns
  \<open>1.4285714285714288\<close>, one unit in the last place above the float quotient \<open>1.0 / 0.7\<close>.
\<close>

theorem calculate_angular_velocity_uniform_counterexample:
  "rnd (7 / 10) = Fin (3152519739159347 / 4503599627370496) \<and>
   uniform_times (- (3152519739159347 / 4503599627370496)) (3152519739159347 / 4503599627370496) 4 =
     [Fin (- (3152519739159347 / 4503599627370496)), Fin 0,
      Fin (3152519739159347 / 4503599627370496), Fin (3152519739159347 / 2251799813685248)] \<and>
   representable (3152519739159347 / 4503599627370496) \<and>
   representable (3152519739159347 / 2251799813685248) \<and>
   calculate_angular_velocity
     (uniform_times (- (3152519739159347 / 4503599627370496)) (3152519739159347 / 4503599627370496) 4)
     = Inr (Fin (804214219173303 / 562949953421312)) \<and>
   fdiv (Fin 1) (Fin (3152519739159347 / 4503599627370496))
     = Inr (Fin (6433713753386423 / 4503599627370496)) \<and>
   calculate_angular_velocity
     (uniform_times (- (3152519739159347 / 4503599627370496)) (3152519739159347 / 4503599627370496) 4)
     \<noteq> fdiv (Fin 1) (Fin (3152519739159347 / 4503599627370496))"
proof -
  have idx: "[0..<4] = [0, 1, 2, 3::nat]"
    by (simp add: upt_rec)
  have u: "uniform_times (- (3152519739159347 / 4503599627370496)) (3152519739159347 / 4503599627370496) 4 =
     [Fin (- (3152519739159347 / 4503599627370496)), Fin 0,
      Fin (3152519739159347 / 4503599627370496), Fin (3152519739159347 / 2251799813685248)]"
    by (simp add: uniform_times_def idx)
  have r: "representable (3152519739159347 / 4503599627370496)"
    "representable (3152519739159347 / 2251799813685248)"
    using representable_div_pow2 [of 3152519739159347 52] representable_div_pow2 [of 3152519739159347 51]
    by simp_all
  have q: "fdiv (Fin 1) (Fin (3152519739159347 / 4503599627370496))
     = Inr (Fin (6433713753386423 / 4503599627370496))"
    using reciprocal_seven_tenths by simp
  show ?thesis
    unfolding u calculate_angular_velocity_seven_tenths q
    using seven_tenths r by simp
qed

text \<open>
  C8, amended. For \<open>n \<ge> 2\<close> uniformly spaced timestamps \<open>t_k = t_0 + k p\<close> with period
  \<open>p > 0\<close> such that every multiple \<open>k p\<close> with \<open>1 \<le> k \<le> n - 1\<close> is a binary64 number (so
  that each difference is the float \<open>p\<close> and their float sum is exactly \<open>(n - 1) p\<close>, with
  no rounding and no overflow), \<open>calculate_angular_velocity\<close> returns the float quotient
  \<open>1.0 / p\<close>, the binary64 number nearest to \<open>1 / p\<close>. With two timestamps the condition
  only says that \<open>p\<close> is a float. (The list length is at most \<open>2^53\<close>, as for every list
  that fits in memory.)
\<close>

theorem calculate_angular_velocity_uniform_spacing:
  assumes "2 \<le> n" "n \<le> 2 ^ 53" "0 < p" "\<forall>k\<in>{1..n - 1}. representable (real k * p)"
  shows "calculate_angular_velocity (uniform_times t0 p n) = fdiv (Fin 1) (Fin p)
    \<and> fdiv (Fin 1) (Fin p) = Inr (rnd (1 / p))"
  using calculate_angular_velocity_uniform [OF assms, of t0] assms(3) by simp

theorem calculate_angular_velocity_uniform_spacing_witness:
  "(2::nat) \<le> 4 \<and> (4::nat) \<le> 2 ^ 53 \<and> (0::real) < 1 / 2 \<and>
   representable (1 / 2) \<and> representable (2 * (1 / 2)) \<and> representable (3 * (1 / 2)) \<and>
   uniform_times 0 (1 / 2) 4 = [Fin 0, Fin (1 / 2), Fin 1, Fin (3 / 2)] \<and>
   calculate_angular_velocity (uniform_times 0 (1 / 2) 4) = Inr (Fin 2) \<and>
   (2::nat) \<le> 2 \<and> (0::real) < 3152519739159347 / 4503599627370496 \<and>
   representable (3152519739159347 / 4503599627370496) \<and>
   uniform_times 0 (3152519739159347 / 4503599627370496) 2 =
     [Fin 0, Fin (3152519739159347 / 4503599627370496)] \<and>
   calculate_angular_velocity (uniform_times 0 (3152519739159347 / 4503599627370496) 2) =
     Inr (Fin (6433713753386423 / 4503599627370496))"
proof -
  have r: "representable (1 / 2)" "representable 1" "representable (3 / 2)"
    "representable (3152519739159347 / 4503599627370496)"
    using representable_div_pow2 [of 3 1] representable_div_pow2 [of 3152519739159347 52]
    by simp_all
  have k4: "\<forall>k\<in>{1..4 - 1}. representable (real k * (1 / 2))"
  proof
    fix k :: nat
    assume "k \<in> {1..4 - 1}"
    then have "k = 1 \<or> k = 2 \<or> k = 3"
      by auto
    then show "representable (real k * (1 / 2))"
      using r by auto
  qed
  have k2: "\<forall>k\<in>{1..2 - 1}. representable (real k * (3152519739159347 / 4503599627370496))"
    using r by simp
  have idx: "[0..<4] = [0, 1, 2, 3::nat]" "[0..<2] = [0, 1::nat]"
    by (simp_all add: upt_rec)
  have u: "uniform_times 0 (1 / 2) 4 = [Fin 0, Fin (1 / 2), Fin 1, Fin (3 / 2)]"
    "uniform_times 0 (3152519739159347 / 4503599627370496) 2 =
       [Fin 0, Fin (3152519739159347 / 4503599627370496)]"
    by (simp_all add: uniform_times_def idx)
  have two: "rnd 2 = Fin 2"
    using representable_2 by (simp add: representable_def)
  have a: "calculate_angular_velocity (uniform_times 0 (1 / 2) 4) = Inr (Fin 2)"
    using calculate_angular_velocity_uniform_spacing [of 4 "1 / 2" 0] k4 two by simp
  have b: "calculate_angular_velocity (uniform_times 0 (3152519739159347 / 4503599627370496) 2) =
     Inr (Fin (6433713753386423 / 4503599627370496))"
    using calculate_angular_velocity_uniform_spacing [of 2 "3152519739159347 / 4503599627370496" 0]
      k2 reciprocal_seven_tenths
    by simp
  show ?thesis
    using r u a b by simp
qed

text \<open>
  C7. With \<open>\<theta>_ball\<close> and \<open>\<theta>_wheel\<close> the two (always finite) travel angles,
  direction "left" uses the relative angle \<open>(\<theta>_ball + \<theta>_wheel) / 2\<pi>\<close> and direction
  offset 12, direction "right" uses \<open>(\<theta>_ball - \<theta>_wheel) / 2\<pi>\<close> and offset 0, the scatter
  offset is 5, and the value returned is
  \<open>ROULETTE_SEQUENCE[(floor(|relative| * 37) mod 37 + 5 + direction_offset) mod 37]\<close>.
  The sum or difference, the quotient and the product \<open>|relative| * 37\<close> are float
  operations, each rounded; the relative angle is never NaN, the division never fails,
  and the index is always in range. (When the product is infinite nothing is returned:
  \<open>int()\<close> raises, see C3.)
\<close>

theorem predict_for_direction_pocket_selection:
  "\<exists>theta_b theta_w relative_left relative_right.
     angles wts bts = Inr (Fin theta_b, Fin theta_w) \<and>
     fdiv (fadd (Fin theta_b) (Fin theta_w)) (fmul (Fin 2) math_pi) = Inr relative_left \<and>
     fdiv (fsub (Fin theta_b) (Fin theta_w)) (fmul (Fin 2) math_pi) = Inr relative_right \<and>
     relative_left \<noteq> NaN \<and> relative_right \<noteq> NaN \<and>
     direction_offset ''left'' = 12 \<and> direction_offset ''right'' = 0 \<and> scatter_offset = 5 \<and>
     predict_for_direction wts bts ''left'' = pocket_result relative_left 12 \<and>
     predict_for_direction wts bts ''right'' = pocket_result relative_right 0"
proof -
  obtain thb thw where a: "angles wts bts = Inr (Fin thb, Fin thw)"
    using angles_finite by blast
  obtain rl where rl: "relative_angle ''left'' (Fin thb) (Fin thw) = Inr rl" "rl \<noteq> NaN"
    using relative_angle_not_NaN by blast
  obtain rr where rr: "relative_angle ''right'' (Fin thb) (Fin thw) = Inr rr" "rr \<noteq> NaN"
    using relative_angle_not_NaN by blast
  have sel: "ebind (final_pocket_index rel doff) (getitem ROULETTE_SEQUENCE) = pocket_result rel doff"
    if "rel \<noteq> NaN" for rel doff
  proof -
    have idx: "getitem ROULETTE_SEQUENCE ((k mod 37 + 5 + doff) mod 37)
        = Inr (ROULETTE_SEQUENCE ! nat ((k mod 37 + 5 + doff) mod 37))" for k :: int
      by (rule getitem_ROULETTE_SEQUENCE) simp_all
    from fmul_fabs_37 [OF that] show ?thesis
    proof
      assume "fmul (fabs rel) (Fin 37) = PInf"
      then show ?thesis
        by (simp add: final_pocket_index_def pocket_result_def)
    next
      assume "\<exists>p. fmul (fabs rel) (Fin 37) = Fin p \<and> 0 \<le> p"
      then obtain p where "fmul (fabs rel) (Fin 37) = Fin p" "0 \<le> p"
        by blast
      then show ?thesis
        by (simp add: final_pocket_index_def pocket_result_def scatter_offset_def idx)
    qed
  qed
  have "predict_for_direction wts bts ''left'' = pocket_result rl 12"
    using rl sel [of rl 12] by (simp add: predict_for_direction_angles a direction_offset_def)
  moreover have "predict_for_direction wts bts ''right'' = pocket_result rr 0"
    using rr sel [of rr 0] by (simp add: predict_for_direction_angles a direction_offset_def)
  ultimately show ?thesis
    using a rl rr
    by (intro exI [of _ thb] exI [of _ thw] exI [of _ rl] exI [of _ rr])
       (simp add: relative_angle_def direction_offset_def scatter_offset_def)
qed

text \<open>
  C6 as stated fails: the code drops a pair when its gap is \<open><= 0\<close>, which keeps a pair
  whose gap is NaN. For the timestamps \<open>0, inf, inf\<close> only the first pair has a positive
  gap, so by the claim there are fewer than 2 samples and the result is 0.0; the code
  keeps both pairs and returns NaN.
\<close>

theorem calculate_deceleration_nan_gap_counterexample:
  "gap_samples [Fin 0, PInf, PInf] = Inr [(PInf, Fin 0)] \<and>
   length [(PInf, Fin 0)] < 2 \<and>
   kept_samples [Fin 0, PInf, PInf] = Inr [(PInf, Fin 0), (PInf, NaN)] \<and>
   calculate_deceleration [Fin 0, PInf, PInf] = Inr NaN \<and>
   calculate_deceleration [Fin 0, PInf, PInf] \<noteq> Inr (Fin 0)"
proof (intro conjI)
  show "gap_samples [Fin 0, PInf, PInf] = Inr [(PInf, Fin 0)]"
    by (rule gap_samples_infinite)
  show "length [(PInf, Fin 0)] < 2"
    by simp
  show "kept_samples [Fin 0, PInf, PInf] = Inr [(PInf, Fin 0), (PInf, NaN)]"
    by (rule kept_samples_infinite)
  show "calculate_deceleration [Fin 0, PInf, PInf] = Inr NaN"
    by (rule calculate_deceleration_infinite)
  show "calculate_deceleration [Fin 0, PInf, PInf] \<noteq> Inr (Fin 0)"
    unfolding calculate_deceleration_infinite by simp
qed

text \<open>
  C6, amended. For every list of timestamps, \<open>calculate_deceleration\<close> builds one sample
  per consecutive pair whose gap \<open>dt\<close> is not \<open><= 0\<close> (a positive gap or a NaN gap; for
  finite timestamps these are the pairs with positive gap), the velocity \<open>2\<pi> / dt\<close> at
  the midpoint time \<open>(times[i] + times[i-1]) / 2\<close>, and returns the negated value of the
  least-squares slope formula \<open>(n \<Sigma>xy - \<Sigma>x \<Sigma>y) / (n \<Sigma>x\<^sup>2 - (\<Sigma>x)\<^sup>2)\<close> evaluated in float
  arithmetic over these samples; it returns 0.0 when the list has fewer than 3
  timestamps, when there are fewer than 2 samples, or when the float regression
  denominator \<open>n \<Sigma>x\<^sup>2 - (\<Sigma>x)\<^sup>2\<close> is zero. No exception is raised. When no operation of
  the fit rounds, the value is the slope of the line that minimises the sum of squared
  residuals.
\<close>

theorem calculate_deceleration_least_squares:
  "\<exists>samples.
     kept_samples tms = Inr samples \<and>
     calculate_deceleration tms =
       (if length tms < 3 \<or> length samples < 2 \<or> feq (regression_denominator samples) (Fin 0)
        then Inr (Fin 0)
        else ebind (least_squares_slope samples) (\<lambda>slope. Inr (fneg slope))) \<and>
     (\<not> feq (regression_denominator samples) (Fin 0) \<longrightarrow>
        (\<exists>slope. least_squares_slope samples = Inr slope)) \<and>
     (list_all isfinite tms \<longrightarrow> gap_samples tms = Inr samples) \<and>
     (\<forall>pts. samples = map (\<lambda>(x, y). (Fin x, Fin y)) pts \<and> fit_exact pts \<and>
          real (length pts) * (\<Sum>(x, y)\<leftarrow>pts. x * x) - (\<Sum>(x, y)\<leftarrow>pts. x) * (\<Sum>(x, y)\<leftarrow>pts. x) \<noteq> 0 \<longrightarrow>
        regression_denominator samples =
          Fin (real (length pts) * (\<Sum>(x, y)\<leftarrow>pts. x * x) - (\<Sum>(x, y)\<leftarrow>pts. x) * (\<Sum>(x, y)\<leftarrow>pts. x)) \<and>
        least_squares_slope samples = Inr (Fin (slope_formula pts)) \<and>
        (\<forall>a b. squared_error (intercept_formula pts) (slope_formula pts) pts
                 \<le> squared_error a b pts))"
proof -
  obtain samples where s: "kept_samples tms = Inr samples"
    using kept_samples_returns by blast
  have "\<exists>slope. least_squares_slope samples = Inr slope"
    if "\<not> feq (regression_denominator samples) (Fin 0)"
  proof -
    have "regression_denominator samples \<noteq> Fin 0"
      using that by (simp add: feq_zero_iff)
    then show ?thesis
      unfolding least_squares_slope_def by (rule fdiv_ok)
  qed
  moreover have "gap_samples tms = Inr samples" if "list_all isfinite tms"
    using kept_samples_finite [OF that] s by simp
  ultimately show ?thesis
    using s calculate_deceleration_kept_samples [OF s] least_squares_slope_exact
      slope_formula_least_squares
    by (intro exI [of _ samples]) blast
qed

theorem calculate_deceleration_least_squares_witness:
  "kept_samples [Fin 0, Fin 1, Fin 8] =
     Inr [(Fin (1 / 2), Fin (884279719003555 / 140737488355328)),
          (Fin (9 / 2), Fin (126325674143365 / 140737488355328))] \<and>
   list_all isfinite [Fin 0, Fin 1, Fin 8] \<and>
   gap_samples [Fin 0, Fin 1, Fin 8] =
     Inr [(Fin (1 / 2), Fin (884279719003555 / 140737488355328)),
          (Fin (9 / 2), Fin (126325674143365 / 140737488355328))] \<and>
   fit_exact [(1 / 2, 884279719003555 / 140737488355328), (9 / 2, 126325674143365 / 140737488355328)] \<and>
   slope_formula [(1 / 2, 884279719003555 / 140737488355328), (9 / 2, 126325674143365 / 140737488355328)]
     = - (378977022430095 / 281474976710656) \<and>
   calculate_deceleration [Fin 0, Fin 1, Fin 8] = Inr (Fin (378977022430095 / 281474976710656)) \<and>
   squared_error
       (intercept_formula [(1 / 2, 884279719003555 / 140737488355328), (9 / 2, 126325674143365 / 140737488355328)])
       (slope_formula [(1 / 2, 884279719003555 / 140737488355328), (9 / 2, 126325674143365 / 140737488355328)])
       [(1 / 2, 884279719003555 / 140737488355328), (9 / 2, 126325674143365 / 140737488355328)]
     \<le> squared_error 0 0
       [(1 / 2, 884279719003555 / 140737488355328), (9 / 2, 126325674143365 / 140737488355328)]"
proof -
  let ?tms = "[Fin 0, Fin 1, Fin 8]"
  let ?pts = "[(1 / 2, 884279719003555 / 140737488355328), (9 / 2, 126325674143365 / 140737488355328)]
    :: (real \<times> real) list"
  let ?s = "[(Fin (1 / 2), Fin (884279719003555 / 140737488355328)),
          (Fin (9 / 2), Fin (126325674143365 / 140737488355328))]"
  have r1: "rnd 1 = Fin 1"
    using rnd_representable [of 1 0] by (simp add: pow2_def)
  have r2: "rnd (884279719003555 / 140737488355328) = Fin (884279719003555 / 140737488355328)"
    using rnd_representable [of 884279719003555 "- 47"] by (simp add: pow2_def)
  have r3: "rnd (1 / 2) = Fin (1 / 2)"
    using rnd_representable [of 1 "- 1"] by (simp add: pow2_def)
  have r4: "rnd 7 = Fin 7"
    using rnd_representable [of 7 0] by (simp add: pow2_def)
  have r5: "rnd (126325674143365 / 140737488355328) = Fin (126325674143365 / 140737488355328)"
    using rnd_representable [of 126325674143365 "- 47"] by (simp add: pow2_def)
  have r6: "rnd 9 = Fin 9"
    using rnd_representable [of 9 0] by (simp add: pow2_def)
  have r7: "rnd (9 / 2) = Fin (9 / 2)"
    using rnd_representable [of 9 "- 1"] by (simp add: pow2_def)
  have r8: "rnd 2 = Fin 2"
    using rnd_representable [of 1 1] by (simp add: pow2_def)
  have r9: "rnd 5 = Fin 5"
    using rnd_representable [of 5 0] by (simp add: pow2_def)
  have r10: "rnd (126325674143365 / 17592186044416) = Fin (126325674143365 / 17592186044416)"
    using rnd_representable [of 126325674143365 "- 44"] by (simp add: pow2_def)
  have r11: "rnd (884279719003555 / 281474976710656) = Fin (884279719003555 / 281474976710656)"
    using rnd_representable [of 884279719003555 "- 48"] by (simp add: pow2_def)
  have r12: "rnd (1136931067290285 / 281474976710656) = Fin (1136931067290285 / 281474976710656)"
    using rnd_representable [of 1136931067290285 "- 48"] by (simp add: pow2_def)
  have r13: "rnd (1 / 4) = Fin (1 / 4)"
    using rnd_representable [of 1 "- 2"] by (simp add: pow2_def)
  have r14: "rnd (81 / 4) = Fin (81 / 4)"
    using rnd_representable [of 81 "- 2"] by (simp add: pow2_def)
  have r15: "rnd (41 / 2) = Fin (41 / 2)"
    using rnd_representable [of 41 "- 1"] by (simp add: pow2_def)
  have r16: "rnd 41 = Fin 41"
    using rnd_representable [of 41 0] by (simp add: pow2_def)
  have r17: "rnd 25 = Fin 25"
    using rnd_representable [of 25 0] by (simp add: pow2_def)
  have r18: "rnd 16 = Fin 16"
    using rnd_representable [of 1 4] by (simp add: pow2_def)
  have r19: "rnd (126325674143365 / 8796093022208) = Fin (126325674143365 / 8796093022208)"
    using rnd_representable [of 126325674143365 "- 43"] by (simp add: pow2_def)
  have r20: "rnd (631628370716825 / 17592186044416) = Fin (631628370716825 / 17592186044416)"
    using rnd_representable [of 631628370716825 "- 44"] by (simp add: pow2_def)
  have r21: "rnd (378977022430095 / 17592186044416) = Fin (378977022430095 / 17592186044416)"
    using rnd_representable [of 378977022430095 "- 44"] by (simp add: pow2_def)
  have r22: "rnd (378977022430095 / 281474976710656) = Fin (378977022430095 / 281474976710656)"
    using rnd_representable [of 378977022430095 "- 48"] by (simp add: pow2_def)
  have sl: "slope_formula ?pts = - (378977022430095 / 281474976710656)"
    by (simp add: slope_formula_def)
  have d: "real (length ?pts) * (\<Sum>(x, y)\<leftarrow>?pts. x * x) - (\<Sum>(x, y)\<leftarrow>?pts. x) * (\<Sum>(x, y)\<leftarrow>?pts. x) = 16"
    by simp
  have fit: "fit_exact ?pts"
    unfolding fit_exact_def Let_def sl using r1 r2 r3 r4 r5 r6 r7 r8 r9 r10 r11 r12 r13 r14 r15 r16 r17 r18 r19 r20 r21 r22
    by (simp add: representable_def rnd_minus)
  have fin: "list_all isfinite ?tms"
    by simp
  from calculate_deceleration_least_squares [of ?tms]
  obtain samples where s: "kept_samples ?tms = Inr samples"
    and c: "calculate_deceleration ?tms =
       (if length ?tms < 3 \<or> length samples < 2 \<or> feq (regression_denominator samples) (Fin 0)
        then Inr (Fin 0)
        else ebind (least_squares_slope samples) (\<lambda>slope. Inr (fneg slope)))"
    and g: "list_all isfinite ?tms \<longrightarrow> gap_samples ?tms = Inr samples"
    and l: "\<forall>pts. samples = map (\<lambda>(x, y). (Fin x, Fin y)) pts \<and> fit_exact pts \<and>
          real (length pts) * (\<Sum>(x, y)\<leftarrow>pts. x * x) - (\<Sum>(x, y)\<leftarrow>pts. x) * (\<Sum>(x, y)\<leftarrow>pts. x) \<noteq> 0 \<longrightarrow>
        regression_denominator samples =
          Fin (real (length pts) * (\<Sum>(x, y)\<leftarrow>pts. x * x) - (\<Sum>(x, y)\<leftarrow>pts. x) * (\<Sum>(x, y)\<leftarrow>pts. x)) \<and>
        least_squares_slope samples = Inr (Fin (slope_formula pts)) \<and>
        (\<forall>a b. squared_error (intercept_formula pts) (slope_formula pts) pts
                 \<le> squared_error a b pts)"
    by blast
  have eq: "samples = ?s"
    using s kept_samples_exact_fit by simp
  have gs: "gap_samples ?tms = Inr ?s"
    using g fin eq by simp
  have m: "samples = map (\<lambda>(x, y). (Fin x, Fin y)) ?pts"
    by (simp add: eq)
  have nz: "real (length ?pts) * (\<Sum>(x, y)\<leftarrow>?pts. x * x) - (\<Sum>(x, y)\<leftarrow>?pts. x) * (\<Sum>(x, y)\<leftarrow>?pts. x) \<noteq> 0"
    unfolding d by simp
  from l [rule_format, of ?pts] m fit nz
  have den: "regression_denominator samples =
          Fin (real (length ?pts) * (\<Sum>(x, y)\<leftarrow>?pts. x * x) - (\<Sum>(x, y)\<leftarrow>?pts. x) * (\<Sum>(x, y)\<leftarrow>?pts. x))"
    and ls: "least_squares_slope samples = Inr (Fin (slope_formula ?pts))"
    and mn: "squared_error (intercept_formula ?pts) (slope_formula ?pts) ?pts \<le> squared_error 0 0 ?pts"
    by blast+
  have "\<not> feq (regression_denominator samples) (Fin 0)"
    unfolding den d by simp
  then have "calculate_deceleration ?tms = Inr (Fin (378977022430095 / 281474976710656))"
    unfolding c ls sl by (simp add: eq)
  then show ?thesis
    using kept_samples_exact_fit gs fin fit sl mn by blast
qed

end
